(* ===== verification/Prelude.thy ===== *)
theory Prelude
  imports Main "HOL-Library.Char_ord" "HOL-Library.List_Lexorder" "HOL-Library.Product_Lexorder"
begin

text \<open>
  The shared vocabulary of the development: Go's error values and \<open>errors.Is\<close>, the
  computations of a Go method that returns \<open>(value, error)\<close> and changes a world, loops over
  slices, the rules that carry an invariant through such a computation, and lemmas on lists
  that several components use.

  A Go function \<open>func (r *T) f(ctx, a) (R, error)\<close> is a HOL function \<open>f a\<close> of type
  \<open>('w, 'r) go = 'w \<Rightarrow> (error + 'r) \<times> 'w\<close>: it reads and changes the world \<open>'w\<close>, and returns
  \<open>Inl err\<close> or \<open>Inr value\<close>.  The collections are \<open>go_simps\<close> (evaluation of the
  combinators), \<open>hoare_rules\<close> (one rule per combinator and per statement for triples) and
  \<open>wp_simps\<close> (weakest preconditions).
\<close>

named_theorems go_simps "evaluation of Go computations"
named_theorems hoare_rules "triples for the combinators and the statements"

section \<open>Go errors\<close>

text \<open>
  \<open>ErrorString\<close> is \<open>errors.New\<close> or a \<open>fmt.Errorf\<close> that wraps nothing, \<open>Wrapped\<close> is
  \<open>fmt.Errorf("msg: %w", err)\<close>, \<open>KratosError\<close> a kratos error with its code, reason and
  message.  The sentinels of the packages data and middleware and the errors of the database
  driver have constructors of their own.
\<close>

datatype error =
    ErrorString string
  | Wrapped string error
  | KratosError nat string string
  | ErrTagNotFound
  | ErrUserNotFound
  | ErrPermissionNotFound
  | ErrTokenInvalid
  | ErrWrongContext
  | ErrNoRows
  | ErrConstraint
  | ErrDB
  | ErrDecode
  | ErrParse

fun errors_Is :: "error \<Rightarrow> error \<Rightarrow> bool" where
  "errors_Is (Wrapped m e) target = (Wrapped m e = target \<or> errors_Is e target)"
| "errors_Is e target = (e = target)"

lemma errors_Is_refl [simp]: "errors_Is e e"
  by (cases e) simp_all

section \<open>Computations\<close>

type_synonym ('w, 'a) go = "'w \<Rightarrow> (error + 'a) \<times> 'w"

definition ret :: "'a \<Rightarrow> ('w, 'a) go" where
  "ret x w = (Inr x, w)"

definition throw :: "error \<Rightarrow> ('w, 'a) go" where
  "throw e w = (Inl e, w)"

text \<open>\<open>x, err := m; if err != nil { return nil, err }; f(x)\<close>\<close>

definition bindE :: "('w, 'a) go \<Rightarrow> ('a \<Rightarrow> ('w, 'b) go) \<Rightarrow> ('w, 'b) go" where
  "bindE m f w = (case m w of (Inl e, w') \<Rightarrow> (Inl e, w') | (Inr x, w') \<Rightarrow> f x w')"

text \<open>\<open>x, err := m; f(x, err)\<close>: the caller looks at the error itself.\<close>

definition attempt :: "('w, 'a) go \<Rightarrow> (error + 'a \<Rightarrow> ('w, 'b) go) \<Rightarrow> ('w, 'b) go" where
  "attempt m f w = (case m w of (r, w') \<Rightarrow> f r w')"

text \<open>\<open>if err != nil { return fmt.Errorf("msg: %w", err) }\<close>\<close>

definition wrapE :: "string \<Rightarrow> ('w, 'a) go \<Rightarrow> ('w, 'a) go" where
  "wrapE msg m w = (case m w of (Inl e, w') \<Rightarrow> (Inl (Wrapped msg e), w') | (Inr x, w') \<Rightarrow> (Inr x, w'))"

text \<open>A \<open>for _, x := range xs\<close> loop whose body may return early with an error.\<close>

fun forE :: "'a list \<Rightarrow> ('a \<Rightarrow> ('w, unit) go) \<Rightarrow> ('w, unit) go" where
  "forE [] f = ret ()"
| "forE (x # xs) f = bindE (f x) (\<lambda>_. forE xs f)"

text \<open>The same loop where every iteration appends one element to a slice.\<close>

fun mapE :: "'a list \<Rightarrow> ('a \<Rightarrow> ('w, 'b) go) \<Rightarrow> ('w, 'b list) go" where
  "mapE [] f = ret []"
| "mapE (x # xs) f = bindE (f x) (\<lambda>y. bindE (mapE xs f) (\<lambda>ys. ret (y # ys)))"

lemma ret_simp [simp, go_simps]: "ret x w = (Inr x, w)"
  by (simp add: ret_def)

lemma throw_simp [simp, go_simps]: "throw e w = (Inl e, w)"
  by (simp add: throw_def)

lemma bindE_simps [simp, go_simps]:
  "m w = (Inl e, w') \<Longrightarrow> bindE m f w = (Inl e, w')"
  "m w = (Inr x, w') \<Longrightarrow> bindE m f w = f x w'"
  by (simp_all add: bindE_def)

lemma attempt_simp [simp, go_simps]: "m w = (r, w') \<Longrightarrow> attempt m f w = f r w'"
  by (simp add: attempt_def)

lemma wrapE_simps [simp, go_simps]:
  "m w = (Inl e, w') \<Longrightarrow> wrapE msg m w = (Inl (Wrapped msg e), w')"
  "m w = (Inr x, w') \<Longrightarrow> wrapE msg m w = (Inr x, w')"
  by (simp_all add: wrapE_def)

lemma bindE_ret [simp]: "bindE m ret = m"
  by (auto simp: bindE_def fun_eq_iff split: prod.splits sum.splits)

lemma bindE_assoc: "bindE (bindE m f) g = bindE m (\<lambda>x. bindE (f x) g)"
  by (auto simp: bindE_def fun_eq_iff split: prod.splits sum.splits)

lemma bindE_Inr_iff:
  "bindE m f w = (Inr y, w'') \<longleftrightarrow> (\<exists>x w'. m w = (Inr x, w') \<and> f x w' = (Inr y, w''))"
  by (auto simp: bindE_def split: prod.splits sum.splits)

lemma wrapE_Inr_iff: "wrapE msg m w = (Inr x, w') \<longleftrightarrow> m w = (Inr x, w')"
  by (auto simp: wrapE_def split: prod.splits sum.splits)

lemma attempt_Inr_iff:
  "attempt m f w = (Inr y, w'') \<longleftrightarrow>
     (\<exists>e w'. m w = (Inl e, w') \<and> f (Inl e) w' = (Inr y, w'')) \<or>
     (\<exists>x w'. m w = (Inr x, w') \<and> f (Inr x) w' = (Inr y, w''))"
  by (cases "m w"; cases "fst (m w)") (auto simp: attempt_def)

lemmas success_iffs = bindE_Inr_iff wrapE_Inr_iff attempt_Inr_iff

section \<open>Triples\<close>

text \<open>
  \<open>hoare P m Q\<close>: run from a world that satisfies \<open>P\<close>, \<open>m\<close> ends in a world and with a
  result (error or value) that satisfy \<open>Q\<close>.  Computations are total, so this is total
  correctness.
\<close>

definition hoare :: "('w \<Rightarrow> bool) \<Rightarrow> ('w, 'a) go \<Rightarrow> (error + 'a \<Rightarrow> 'w \<Rightarrow> bool) \<Rightarrow> bool" where
  "hoare P m Q \<longleftrightarrow> (\<forall>w. P w \<longrightarrow> Q (fst (m w)) (snd (m w)))"

abbreviation keeps :: "('w \<Rightarrow> bool) \<Rightarrow> ('w, 'a) go \<Rightarrow> bool" where
  "keeps I m \<equiv> hoare I m (\<lambda>_. I)"

lemma hoareI: "(\<And>w. P w \<Longrightarrow> Q (fst (m w)) (snd (m w))) \<Longrightarrow> hoare P m Q"
  by (simp add: hoare_def)

lemma hoareD: "hoare P m Q \<Longrightarrow> P w \<Longrightarrow> m w = (r, w') \<Longrightarrow> Q r w'"
  by (force simp: hoare_def)

lemma keepsD: "keeps I m \<Longrightarrow> I w \<Longrightarrow> I (snd (m w))"
  by (simp add: hoare_def)

lemma hoare_weaken:
  "hoare P m Q \<Longrightarrow> (\<And>w. P' w \<Longrightarrow> P w) \<Longrightarrow> (\<And>r w. Q r w \<Longrightarrow> Q' r w) \<Longrightarrow> hoare P' m Q'"
  by (simp add: hoare_def)

lemma hoare_conj:
  "hoare P m Q \<Longrightarrow> hoare P' m Q' \<Longrightarrow> hoare (\<lambda>w. P w \<and> P' w) m (\<lambda>r w. Q r w \<and> Q' r w)"
  by (simp add: hoare_def)

lemma keeps_ret [hoare_rules]: "keeps I (ret x)"
  by (simp add: hoare_def)

lemma keeps_throw [hoare_rules]: "keeps I (throw e)"
  by (simp add: hoare_def)

lemma keeps_bindE [hoare_rules]:
  "keeps I m \<Longrightarrow> (\<And>x. keeps I (f x)) \<Longrightarrow> keeps I (bindE m f)"
  by (auto simp: hoare_def bindE_def split: prod.splits sum.splits)

lemma keeps_attempt [hoare_rules]:
  "keeps I m \<Longrightarrow> (\<And>r. keeps I (f r)) \<Longrightarrow> keeps I (attempt m f)"
  by (auto simp: hoare_def attempt_def split: prod.splits)

lemma keeps_wrapE [hoare_rules]: "keeps I m \<Longrightarrow> keeps I (wrapE msg m)"
  by (auto simp: hoare_def wrapE_def split: prod.splits sum.splits)

lemma keeps_forE [hoare_rules]: "(\<And>x. x \<in> set xs \<Longrightarrow> keeps I (f x)) \<Longrightarrow> keeps I (forE xs f)"
  by (induction xs) (auto intro!: hoare_rules)

lemma keeps_mapE [hoare_rules]: "(\<And>x. x \<in> set xs \<Longrightarrow> keeps I (f x)) \<Longrightarrow> keeps I (mapE xs f)"
  by (induction xs) (auto intro!: hoare_rules)

lemma keeps_if [hoare_rules]: "keeps I m \<Longrightarrow> keeps I m' \<Longrightarrow> keeps I (if b then m else m')"
  by simp

lemma keeps_case_option [hoare_rules]:
  "keeps I m \<Longrightarrow> (\<And>x. keeps I (f x)) \<Longrightarrow> keeps I (case z of None \<Rightarrow> m | Some x \<Rightarrow> f x)"
  by (cases z) simp_all

lemma keeps_case_sum [hoare_rules]:
  "(\<And>x. keeps I (g x)) \<Longrightarrow> (\<And>x. keeps I (f x)) \<Longrightarrow> keeps I (case z of Inl x \<Rightarrow> g x | Inr x \<Rightarrow> f x)"
  by (cases z) simp_all

lemma keeps_case_prod [hoare_rules]:
  "(\<And>x y. keeps I (f x y)) \<Longrightarrow> keeps I (case z of (x, y) \<Rightarrow> f x y)"
  by (cases z) simp

text \<open>Sequencing where the value of the first computation matters to the second.\<close>

lemma hoare_bindE:
  assumes "hoare P m (\<lambda>r w. case r of Inl e \<Rightarrow> Q (Inl e) w | Inr x \<Rightarrow> R x w)"
    and "\<And>x. hoare (R x) (f x) Q"
  shows "hoare P (bindE m f) Q"
proof (rule hoareI)
  fix w assume "P w"
  then show "Q (fst (bindE m f w)) (snd (bindE m f w))"
    using assms by (cases "m w"; cases "fst (m w)") (auto simp: hoare_def bindE_def)
qed

text \<open>
  The weakest precondition of a computation, with one equation per combinator: a triple unfolds to
  a formula over the worlds between the statements.
\<close>

named_theorems wp_simps "weakest preconditions of the combinators and the statements"

definition wp :: "('w, 'a) go \<Rightarrow> (error + 'a \<Rightarrow> 'w \<Rightarrow> bool) \<Rightarrow> 'w \<Rightarrow> bool" where
  "wp m Q w = Q (fst (m w)) (snd (m w))"

lemma hoare_wp: "hoare P m Q \<longleftrightarrow> (\<forall>w. P w \<longrightarrow> wp m Q w)"
  by (simp add: hoare_def wp_def)

lemma wpD: "wp m Q w \<Longrightarrow> m w = (r, w') \<Longrightarrow> Q r w'"
  by (simp add: wp_def)

lemma wp_basic [wp_simps]:
  "wp (ret x) Q w = Q (Inr x) w" "wp (throw e) Q w = Q (Inl e) w" "wp (Pair r) Q w = Q r w"
  by (simp_all add: wp_def)

lemma wp_bindE [wp_simps]:
  "wp (bindE m f) Q w = wp m (\<lambda>r w'. case r of Inl e \<Rightarrow> Q (Inl e) w' | Inr x \<Rightarrow> wp (f x) Q w') w"
  by (auto simp: wp_def bindE_def split: prod.splits sum.splits)

lemma wp_attempt [wp_simps]: "wp (attempt m f) Q w = wp m (\<lambda>r w'. wp (f r) Q w') w"
  by (auto simp: wp_def attempt_def split: prod.splits)

lemma wp_wrapE [wp_simps]:
  "wp (wrapE msg m) Q w = wp m (\<lambda>r w'. case r of Inl e \<Rightarrow> Q (Inl (Wrapped msg e)) w' | Inr x \<Rightarrow> Q (Inr x) w') w"
  by (auto simp: wp_def wrapE_def split: prod.splits sum.splits)

lemma wp_if [wp_simps]: "wp (if b then m else m') Q w = (if b then wp m Q w else wp m' Q w)"
  by simp

lemma wp_case_option [wp_simps]:
  "wp (case z of None \<Rightarrow> m | Some x \<Rightarrow> f x) Q w = (case z of None \<Rightarrow> wp m Q w | Some x \<Rightarrow> wp (f x) Q w)"
  by (cases z) simp_all

lemma wp_case_sum [wp_simps]:
  "wp (case z of Inl x \<Rightarrow> g x | Inr x \<Rightarrow> f x) Q w = (case z of Inl x \<Rightarrow> wp (g x) Q w | Inr x \<Rightarrow> wp (f x) Q w)"
  by (cases z) simp_all

lemma wp_case_prod [wp_simps]:
  "wp (case z of (x, y) \<Rightarrow> f x y) Q w = (case z of (x, y) \<Rightarrow> wp (f x y) Q w)"
  by (cases z) simp

lemma wp_mono: "wp m Q w \<Longrightarrow> (\<And>r w'. m w = (r, w') \<Longrightarrow> Q r w' \<Longrightarrow> Q' r w') \<Longrightarrow> wp m Q' w"
  by (simp add: wp_def)

text \<open>A loop with an invariant over the elements done so far.\<close>

lemma wp_forE_prefix:
  assumes "J [] w"
    and "\<And>pre x post w. xs = pre @ x # post \<Longrightarrow> J pre w \<Longrightarrow>
      wp (f x) (\<lambda>r w'. case r of Inl e \<Rightarrow> Q (Inl e) w' | Inr _ \<Rightarrow> J (pre @ [x]) w') w"
    and "\<And>w. J xs w \<Longrightarrow> Q (Inr ()) w"
  shows "wp (forE xs f) Q w"
proof -
  have "J pre w \<Longrightarrow> xs = pre @ ys \<Longrightarrow> wp (forE ys f) Q w" for pre ys
  proof (induction ys arbitrary: pre w)
    case Nil
    then show ?case using assms(3) by (simp add: wp_simps)
  next
    case (Cons y ys)
    from Cons.prems(2) have "xs = (pre @ [y]) @ ys" by simp
    then have "J (pre @ [y]) w' \<Longrightarrow> wp (forE ys f) Q w'" for w' by (rule Cons.IH [rotated])
    with assms(2) [OF Cons.prems(2,1)] show ?case
      unfolding forE.simps wp_bindE by (auto elim!: wp_mono split: sum.splits)
  qed
  with assms(1) show ?thesis by simp
qed

lemma wp_forE:
  assumes "J [] w"
    and "\<And>pre x w. J pre w \<Longrightarrow> wp (f x) (\<lambda>r w'. case r of Inl e \<Rightarrow> Q (Inl e) w' | Inr _ \<Rightarrow> J (pre @ [x]) w') w"
    and "\<And>w. J xs w \<Longrightarrow> Q (Inr ()) w"
  shows "wp (forE xs f) Q w"
  using assms by (rule wp_forE_prefix [where J = J])

section \<open>Lists: ordering, limits, duplicates\<close>

text \<open>\<open>ORDER BY key DESC\<close>, stable on ties.\<close>

definition sort_desc :: "('a \<Rightarrow> 'k::linorder) \<Rightarrow> 'a list \<Rightarrow> 'a list" where
  "sort_desc key xs = rev (sort_key key (rev xs))"

lemma set_sort_desc [simp]: "set (sort_desc key xs) = set xs"
  by (simp add: sort_desc_def)

lemma length_sort_desc [simp]: "length (sort_desc key xs) = length xs"
  by (simp add: sort_desc_def)

lemma sort_desc_Nil_iff [simp]: "sort_desc key xs = [] \<longleftrightarrow> xs = []"
  by (metis length_sort_desc length_0_conv)

lemma distinct_sort_desc [simp]: "distinct (sort_desc key xs) = distinct xs"
  by (simp add: sort_desc_def)

lemma sorted_sort_desc: "sorted_wrt (\<lambda>x y. key y \<le> key x) (sort_desc key xs)"
  by (simp add: sort_desc_def sorted_wrt_rev) (metis sorted_sort_key sorted_wrt_map)

lemma sort_desc_hd_max:
  assumes "sort_desc key xs = y # ys" and "x \<in> set xs"
  shows "key x \<le> key y"
proof -
  have "x \<in> set (y # ys)" using assms by (metis set_sort_desc)
  moreover have "sorted_wrt (\<lambda>x y. key y \<le> key x) (y # ys)"
    using sorted_sort_desc [of key xs] assms(1) by simp
  ultimately show ?thesis by auto
qed

lemma map_same_key: "(\<And>x. f (g x) = f x) \<Longrightarrow> map (f \<circ> g) xs = map f xs"
  by simp

lemma distinct_map_filter [simp]: "distinct (map f xs) \<Longrightarrow> distinct (map f (filter P xs))"
  by (induction xs) auto

lemma distinct_map_inj_on: "distinct (map f xs) \<Longrightarrow> x \<in> set xs \<Longrightarrow> y \<in> set xs \<Longrightarrow> f x = f y \<Longrightarrow> x = y"
  by (metis distinct_map inj_onD)

lemma filter_eq_singleton:
  assumes "distinct (map f xs)" and "x \<in> set xs" and "f x = k"
  shows "filter (\<lambda>y. f y = k) xs = [x]"
  using assms
proof (induction xs)
  case (Cons y ys)
  show ?case
  proof (cases "f y = k")
    case True
    with Cons.prems have "x = y" by (auto simp: image_iff)
    moreover have "filter (\<lambda>z. f z = k) ys = []"
      using Cons.prems True by (auto simp: filter_empty_conv image_iff)
    ultimately show ?thesis using True by simp
  next
    case False
    with Cons show ?thesis by auto
  qed
qed simp

text \<open>Where a key is unique, adding a condition to the key's filter keeps or drops its one row.\<close>

lemma filter_unique_case:
  assumes "distinct (map f xs)"
  shows "filter (\<lambda>y. f y = k) xs = [] \<or> (\<exists>x. filter (\<lambda>y. f y = k) xs = [x] \<and> x \<in> set xs \<and> f x = k)"
proof (cases "\<exists>x\<in>set xs. f x = k")
  case True
  then obtain x where "x \<in> set xs" "f x = k" by blast
  with filter_eq_singleton [OF assms this] show ?thesis by blast
next
  case False
  then show ?thesis by (auto simp: filter_empty_conv)
qed

end
