(* ===== verification/GoLib.thy ===== *)
theory GoLib
  imports Prelude
begin

text \<open>
  The parts of Go's standard library that the program's logic rests on, on strings as lists of
  bytes: prefixes, substrings, splitting and joining (package strings), decimal numbers (package
  strconv) and the standard base64 encoding (package encoding/base64) with its decoder.
\<close>

section \<open>Package strings\<close>

definition HasPrefix :: "string \<Rightarrow> string \<Rightarrow> bool" where
  "HasPrefix s p \<longleftrightarrow> take (length p) s = p"

definition TrimPrefix :: "string \<Rightarrow> string \<Rightarrow> string" where
  "TrimPrefix s p = (if HasPrefix s p then drop (length p) s else s)"

fun strings_Contains :: "string \<Rightarrow> string \<Rightarrow> bool" where
  "strings_Contains [] sub \<longleftrightarrow> sub = []"
| "strings_Contains (c # cs) sub \<longleftrightarrow> HasPrefix (c # cs) sub \<or> strings_Contains cs sub"

text \<open>\<open>strings.Split(s, sep)\<close> for a separator of one byte, the only kind the program uses.\<close>

fun strings_Split :: "string \<Rightarrow> char \<Rightarrow> string list" where
  "strings_Split [] sep = [[]]"
| "strings_Split (c # cs) sep =
     (if c = sep then [] # strings_Split cs sep
      else case strings_Split cs sep of
             [] \<Rightarrow> [[c]]
           | p # ps \<Rightarrow> (c # p) # ps)"

fun strings_Join :: "string list \<Rightarrow> string \<Rightarrow> string" where
  "strings_Join [] sep = []"
| "strings_Join [x] sep = x"
| "strings_Join (x # y # zs) sep = x @ sep @ strings_Join (y # zs) sep"

lemma strings_Contains_iff: "strings_Contains s sub \<longleftrightarrow> (\<exists>pre post. s = pre @ sub @ post)"
proof (induction s)
  case Nil
  then show ?case by auto
next
  case (Cons c cs)
  have "HasPrefix (c # cs) sub \<longleftrightarrow> (\<exists>post. c # cs = sub @ post)"
    unfolding HasPrefix_def by (metis append_eq_conv_conj append_take_drop_id)
  moreover have "(\<exists>pre post. c # cs = pre @ sub @ post) \<longleftrightarrow>
      (\<exists>post. c # cs = sub @ post) \<or> (\<exists>pre post. cs = pre @ sub @ post)"
    by (metis append_Cons append_Nil list.inject neq_Nil_conv)
  ultimately show ?case using Cons.IH by simp
qed

lemma strings_Split_nonempty [simp]: "strings_Split s sep \<noteq> []"
  by (induction s) (auto split: list.splits)

lemma strings_Join_Split: "strings_Join (strings_Split s sep) [sep] = s"
proof (induction s)
  case (Cons c cs)
  show ?case
  proof (cases "strings_Split cs sep")
    case (Cons p ps)
    with \<open>strings_Join (strings_Split cs sep) [sep] = cs\<close> show ?thesis by (cases ps) auto
  qed simp
qed simp

lemma strings_Split_notin: "sep \<notin> set s \<Longrightarrow> strings_Split s sep = [s]"
  by (induction s) auto

section \<open>Package strconv\<close>

definition digit_char :: "nat \<Rightarrow> char" where
  "digit_char d = char_of (48 + d)"

definition is_digit :: "char \<Rightarrow> bool" where
  "is_digit c \<longleftrightarrow> 48 \<le> (of_char c :: nat) \<and> (of_char c :: nat) \<le> 57"

definition digit_val :: "char \<Rightarrow> nat" where
  "digit_val c = of_char c - 48"

fun show_nat :: "nat \<Rightarrow> string" where
  "show_nat n = (if n < 10 then [digit_char n] else show_nat (n div 10) @ [digit_char (n mod 10)])"

declare show_nat.simps [simp del]

text \<open>\<open>strconv.FormatInt(n, 10)\<close>\<close>

definition FormatInt :: "int \<Rightarrow> string" where
  "FormatInt n = (if n < 0 then CHR ''-'' # show_nat (nat (- n)) else show_nat (nat n))"

definition digits_val :: "string \<Rightarrow> nat" where
  "digits_val s = foldl (\<lambda>acc c. 10 * acc + digit_val c) 0 s"

text \<open>
  \<open>strconv.ParseInt(s, 10, bits)\<close>: an optional sign, at least one digit, nothing else, and a
  value in the range of a signed integer of that width; anything else is an error.
\<close>

definition ParseInt :: "string \<Rightarrow> nat \<Rightarrow> int option" where
  "ParseInt s bits =
     (let neg = (case s of c # _ \<Rightarrow> c = CHR ''-'' | [] \<Rightarrow> False);
          body = (case s of c # cs \<Rightarrow> if c = CHR ''-'' \<or> c = CHR ''+'' then cs else s | [] \<Rightarrow> s);
          v = (if neg then - int (digits_val body) else int (digits_val body))
      in if body = [] \<or> \<not> list_all is_digit body then None
         else if - (2 ^ (bits - 1)) \<le> v \<and> v < 2 ^ (bits - 1) then Some v else None)"

lemma digit_char_props [simp]:
  assumes "d < 10"
  shows "is_digit (digit_char d)" and "digit_val (digit_char d) = d"
  using assms by (simp_all add: is_digit_def digit_val_def digit_char_def)

lemma show_nat_digits: "list_all is_digit (show_nat n)"
proof (induction n rule: show_nat.induct)
  case (1 n)
  then show ?case by (subst show_nat.simps) auto
qed

lemma show_nat_nonempty [simp]: "show_nat n \<noteq> []"
  by (subst show_nat.simps) simp

lemma digits_val_snoc: "digits_val (s @ [c]) = 10 * digits_val s + digit_val c"
  by (simp add: digits_val_def)

lemma digits_val_show_nat [simp]: "digits_val (show_nat n) = n"
proof (induction n rule: show_nat.induct)
  case (1 n)
  show ?case
  proof (cases "n < 10")
    case True
    then show ?thesis by (subst show_nat.simps) (simp add: digits_val_def)
  next
    case False
    with 1 show ?thesis by (subst show_nat.simps) (simp add: digits_val_snoc)
  qed
qed

lemma not_digit [simp]: "\<not> is_digit CHR ''-''" "\<not> is_digit CHR ''+''" "\<not> is_digit CHR ''#''" "\<not> is_digit CHR ''.''"
  by (simp_all add: is_digit_def)

lemma show_nat_hd: "show_nat n = c # cs \<Longrightarrow> c \<noteq> CHR ''-'' \<and> c \<noteq> CHR ''+''"
  using show_nat_digits [of n] by auto

lemma ParseInt_FormatInt:
  assumes "- (2 ^ (bits - 1)) \<le> n" and "n < 2 ^ (bits - 1)"
  shows "ParseInt (FormatInt n) bits = Some n"
proof (cases "n < 0")
  case True
  then show ?thesis using assms show_nat_digits [of "nat (- n)"]
    by (simp add: ParseInt_def FormatInt_def)
next
  case False
  obtain c cs where s: "show_nat (nat n) = c # cs" by (meson neq_Nil_conv show_nat_nonempty)
  have "digits_val (c # cs) = nat n" by (metis digits_val_show_nat s)
  moreover have "list_all is_digit (c # cs)" using show_nat_digits [of "nat n"] s by simp
  ultimately show ?thesis using False assms s show_nat_hd [OF s]
    by (auto simp: ParseInt_def FormatInt_def Let_def)
qed

lemma FormatInt_inject: "FormatInt m = FormatInt n \<longleftrightarrow> m = n"
proof
  assume eq: "FormatInt m = FormatInt n"
  have hd: "show_nat k \<noteq> CHR ''-'' # show_nat l" for k l
    using show_nat_hd [of k] by auto
  show "m = n"
  proof (cases "m < 0"; cases "n < 0")
    assume "m < 0" "n < 0"
    with eq have "nat (- m) = nat (- n)"
      by (simp add: FormatInt_def) (metis digits_val_show_nat)
    with \<open>m < 0\<close> \<open>n < 0\<close> show ?thesis by simp
  next
    assume "\<not> m < 0" "\<not> n < 0"
    with eq have "nat m = nat n" by (simp add: FormatInt_def) (metis digits_val_show_nat)
    with \<open>\<not> m < 0\<close> \<open>\<not> n < 0\<close> show ?thesis by simp
  next
    assume "m < 0" "\<not> n < 0"
    with eq hd [of "nat n" "nat (- m)"] show ?thesis by (simp add: FormatInt_def)
  next
    assume "\<not> m < 0" "n < 0"
    with eq hd [of "nat m" "nat (- n)"] show ?thesis by (simp add: FormatInt_def)
  qed
qed simp

lemma FormatInt_no_hash: "CHR ''#'' \<notin> set (FormatInt n)"
proof -
  have "CHR ''#'' \<notin> set (show_nat k)" for k
    using show_nat_digits [of k] not_digit(3) unfolding list_all_iff by blast
  then show ?thesis by (simp add: FormatInt_def)
qed

section \<open>Package encoding/base64: StdEncoding\<close>

definition b64_char :: "nat \<Rightarrow> char" where
  "b64_char n = char_of (if n < 26 then n + 65 else if n < 52 then n + 71
     else if n < 62 then n - 4 else if n = 62 then 43 else 47 :: nat)"

definition b64_val :: "char \<Rightarrow> nat option" where
  "b64_val c = (let n = of_char c in
     if 65 \<le> n \<and> n \<le> 90 then Some (n - 65) else if 97 \<le> n \<and> n \<le> 122 then Some (n - 71)
     else if 48 \<le> n \<and> n \<le> 57 then Some (n + 4) else if n = 43 then Some 62
     else if n = 47 then Some 63 else None)"

text \<open>\<open>EncodeToString\<close>: three bytes become four letters; a short last group is padded.\<close>

fun b64_encode :: "nat list \<Rightarrow> string" where
  "b64_encode [] = []"
| "b64_encode [a] = [b64_char (a div 4), b64_char (a mod 4 * 16), CHR ''='', CHR ''='']"
| "b64_encode [a, b] =
     [b64_char (a div 4), b64_char (a mod 4 * 16 + b div 16), b64_char (b mod 16 * 4), CHR ''='']"
| "b64_encode (a # b # c # r) =
     b64_char (a div 4) # b64_char (a mod 4 * 16 + b div 16) #
     b64_char (b mod 16 * 4 + c div 64) # b64_char (c mod 64) # b64_encode r"

definition EncodeToString :: "string \<Rightarrow> string" where
  "EncodeToString s = b64_encode (map of_char s)"

text \<open>
  \<open>DecodeString\<close>: line breaks are skipped, groups of four letters are decoded, padding may only
  end the last group, and anything else is a corrupt input.
\<close>

fun b64_decode :: "string \<Rightarrow> nat list option" where
  "b64_decode [] = Some []"
| "b64_decode (p # q # r # s # rest) =
     (case (b64_val p, b64_val q) of
        (Some a, Some b) \<Rightarrow>
          let x = a * 4 + b div 16 in
          if r = CHR ''='' then (if s = CHR ''='' \<and> rest = [] then Some [x] else None)
          else (case b64_val r of
                  None \<Rightarrow> None
                | Some c \<Rightarrow>
                    let y = b mod 16 * 16 + c div 4 in
                    if s = CHR ''='' then (if rest = [] then Some [x, y] else None)
                    else (case b64_val s of
                            None \<Rightarrow> None
                          | Some d \<Rightarrow>
                              map_option (\<lambda>ys. x # y # (c mod 4 * 64 + d) # ys) (b64_decode rest)))
      | _ \<Rightarrow> None)"
| "b64_decode _ = None"

definition DecodeString :: "string \<Rightarrow> string option" where
  "DecodeString s =
     map_option (map char_of) (b64_decode (filter (\<lambda>c. of_char c \<noteq> (10::nat) \<and> of_char c \<noteq> (13::nat)) s))"

lemma b64_val_char [simp]: "n < 64 \<Longrightarrow> b64_val (b64_char n) = Some n"
  by (auto simp: b64_val_def b64_char_def Let_def)

lemma b64_char_of:
  "n < 64 \<Longrightarrow> of_char (b64_char n) = (if n < 26 then n + 65 else if n < 52 then n + 71
     else if n < 62 then n - 4 else if n = 62 then 43 else 47 :: nat)"
  by (simp add: b64_char_def)

lemma b64_char_not_pad [simp]:
  assumes "n < 64"
  shows "b64_char n \<noteq> CHR ''=''"
proof
  assume "b64_char n = CHR ''=''"
  then have "of_char (b64_char n) = (61::nat)" by simp
  with assms show False by (simp add: b64_char_of split: if_splits)
qed

lemma b64_char_not_newline [simp]:
  "n < 64 \<Longrightarrow> of_char (b64_char n) \<noteq> (10::nat)" "n < 64 \<Longrightarrow> of_char (b64_char n) \<noteq> (13::nat)"
  by (auto simp: b64_char_of)

lemma b64_join:
  fixes x y :: nat
  assumes "x < 256" and "y < 256"
  shows "x div 4 * 4 + (x mod 4 * 16 + y div 16) div 16 = x"
    and "(x mod 4 * 16 + y div 16) mod 16 * 16 + (y mod 16 * 4 + z) div 4 = y + z div 4"
    and "(y mod 16 * 4 + z div 64) mod 4 * 64 + z mod 64 = (z::nat) mod 256"
proof -
  have "y div 16 < 16" using assms by simp
  then have "(x mod 4 * 16 + y div 16) div 16 = x mod 4" by simp
  then show "x div 4 * 4 + (x mod 4 * 16 + y div 16) div 16 = x" by simp
  have "(x mod 4 * 16 + y div 16) mod 16 = y div 16" using \<open>y div 16 < 16\<close> by simp
  moreover have "(y mod 16 * 4 + z) div 4 = y mod 16 + z div 4" by simp
  ultimately show "(x mod 4 * 16 + y div 16) mod 16 * 16 + (y mod 16 * 4 + z) div 4 = y + z div 4"
    by (metis add.assoc div_mult_mod_eq)
  have "(y mod 16 * 4 + z div 64) mod 4 = z div 64 mod 4" by simp
  moreover have "z mod (64 * 4) = 64 * (z div 64 mod 4) + z mod 64" by (rule mod_mult2_eq)
  ultimately show "(y mod 16 * 4 + z div 64) mod 4 * 64 + z mod 64 = z mod 256" by simp
qed

lemma b64_group_bounds [simp]:
  fixes a b :: nat
  assumes "b < 256"
  shows "a mod 4 * 16 + b div 16 < 64" and "a mod 16 * 4 + b div 64 < 64"
proof -
  have "a mod 4 < 4" "b div 16 < 16" "a mod 16 < 16" "b div 64 < 4" using assms by simp_all
  then show "a mod 4 * 16 + b div 16 < 64" and "a mod 16 * 4 + b div 64 < 64" by linarith+
qed

lemma b64_decode_encode:
  assumes "\<forall>b\<in>set bs. b < 256"
  shows "b64_decode (b64_encode bs) = Some bs"
  using assms
proof (induction bs rule: b64_encode.induct)
  case (2 a)
  then show ?case by (auto simp: Let_def)
next
  case (3 a b)
  then have "a < 256" "b < 256" by auto
  then show ?case
    using b64_join(1) [of a b] b64_join(2) [of a b 0] by (simp add: Let_def)
next
  case (4 a b c r)
  then have "a < 256" "b < 256" "c < 256" by auto
  then have *: "a div 4 < 64" "a mod 4 * 16 + b div 16 < 64" "b mod 16 * 4 + c div 64 < 64" "c mod 64 < 64"
    "c div 64 div 4 = 0" "c mod 256 = c"
    using b64_group_bounds [of b a] b64_group_bounds [of c b] by auto
  then have **: "b64_val (b64_char (a div 4)) = Some (a div 4)"
    "b64_char (b mod 16 * 4 + c div 64) \<noteq> CHR ''=''" "b64_char (c mod 64) \<noteq> CHR ''=''"
    "b64_val (b64_char (b mod 16 * 4 + c div 64)) = Some (b mod 16 * 4 + c div 64)"
    "b64_val (b64_char (c mod 64)) = Some (c mod 64)"
    "b64_val (b64_char (a mod 4 * 16 + b div 16)) = Some (a mod 4 * 16 + b div 16)"
    by (simp_all only: b64_val_char b64_char_not_pad not_False_eq_True)
  have "b64_decode (b64_encode r) = Some r" using 4 by simp
  then show ?case
    using b64_join(1) [of a b] b64_join(2) [of a b "c div 64"] b64_join(3) [of a b c]
      \<open>a < 256\<close> \<open>b < 256\<close> * by (simp only: b64_encode.simps b64_decode.simps ** Let_def prod.case
        option.case if_False option.map add_0_right)
qed simp

lemma b64_encode_letters:
  "\<forall>b\<in>set bs. b < 256 \<Longrightarrow> set (b64_encode bs) \<subseteq> b64_char ` {..<64} \<union> {CHR ''=''}"
proof (induction bs rule: b64_encode.induct)
  case (4 a b d r)
  then have "b < 256" "d < 256" by auto
  with 4 b64_group_bounds [of b a] b64_group_bounds [of d b] show ?case by auto
qed auto

lemma b64_encode_no_newline:
  assumes "\<forall>b\<in>set bs. b < 256" and "c \<in> set (b64_encode bs)"
  shows "of_char c \<noteq> (10::nat) \<and> of_char c \<noteq> (13::nat)"
  using assms(2) b64_encode_letters [OF assms(1)] b64_char_not_newline by auto

lemma DecodeString_EncodeToString [simp]: "DecodeString (EncodeToString s) = Some s"
proof -
  have *: "\<forall>b\<in>set (map of_char s). b < (256::nat)" by auto
  have "filter (\<lambda>c. of_char c \<noteq> (10::nat) \<and> of_char c \<noteq> (13::nat)) (EncodeToString s) = EncodeToString s"
    using b64_encode_no_newline [OF *] unfolding EncodeToString_def by (auto intro: filter_True)
  then show ?thesis
    unfolding DecodeString_def EncodeToString_def by (simp add: b64_decode_encode [OF *] comp_def)
qed

lemma EncodeToString_Nil_iff [simp]: "EncodeToString s = [] \<longleftrightarrow> s = []"
  unfolding EncodeToString_def by (cases "map of_char s :: nat list" rule: b64_encode.cases) auto

end
