(* ===== verification/GoTime.thy ===== *)
theory GoTime
  imports GoLib
begin

text \<open>
  Time as the two backends keep it.  An instant is a UTC calendar date, a time of day and the
  microseconds, compared lexicographically: that is a PostgreSQL \<open>timestamp\<close>.  SQLite keeps
  texts: \<open>datetime('now')\<close> writes \<open>YYYY-MM-DD HH:MM:SS\<close>, the Go helper \<open>fmtTime\<close> writes
  RFC 3339, and every comparison in SQL is a comparison of bytes.  The lemmas say when that
  comparison is the comparison of times.
\<close>

type_synonym date = "nat \<times> nat \<times> nat"
type_synonym time_of_day = "nat \<times> nat \<times> nat"
type_synonym instant = "date \<times> time_of_day \<times> nat"

section \<open>Calendar\<close>

definition leap_year :: "nat \<Rightarrow> bool" where
  "leap_year y \<longleftrightarrow> 4 dvd y \<and> (\<not> 100 dvd y \<or> 400 dvd y)"

definition days_in_month :: "nat \<Rightarrow> nat \<Rightarrow> nat" where
  "days_in_month y m =
     (if m = 2 then (if leap_year y then 29 else 28) else if m \<in> {4, 6, 9, 11} then 30 else 31)"

fun valid_date :: "date \<Rightarrow> bool" where
  "valid_date (y, m, d) \<longleftrightarrow> y < 10000 \<and> 1 \<le> m \<and> m \<le> 12 \<and> 1 \<le> d \<and> d \<le> days_in_month y m"

fun valid_time :: "time_of_day \<Rightarrow> bool" where
  "valid_time (h, mi, s) \<longleftrightarrow> h < 24 \<and> mi < 60 \<and> s < 60"

definition valid_instant :: "instant \<Rightarrow> bool" where
  "valid_instant t \<longleftrightarrow> valid_date (fst t) \<and> valid_time (fst (snd t)) \<and> snd (snd t) < 1000000"

text \<open>\<open>NOW() - INTERVAL '7 days'\<close> and \<open>datetime('now', '-7 days')\<close>: months have more than seven days.\<close>

fun date_minus_7 :: "date \<Rightarrow> date" where
  "date_minus_7 (y, m, d) =
     (if 7 < d then (y, m, d - 7)
      else if 1 < m then (y, m - 1, days_in_month y (m - 1) + d - 7)
      else (y - 1, 12, 24 + d))"

definition minus_7_days :: "instant \<Rightarrow> instant" where
  "minus_7_days t = (date_minus_7 (fst t), snd t)"

section \<open>Texts\<close>

fun pad :: "nat \<Rightarrow> nat \<Rightarrow> string" where
  "pad 0 n = []"
| "pad (Suc k) n = pad k (n div 10) @ [digit_char (n mod 10)]"

fun date_text :: "date \<Rightarrow> string" where
  "date_text (y, m, d) = pad 4 y @ ''-'' @ pad 2 m @ ''-'' @ pad 2 d"

fun time_text :: "time_of_day \<Rightarrow> string" where
  "time_text (h, mi, s) = pad 2 h @ '':'' @ pad 2 mi @ '':'' @ pad 2 s"

text \<open>SQLite's \<open>datetime('now')\<close> at an instant.\<close>

definition datetime :: "instant \<Rightarrow> string" where
  "datetime t = date_text (fst t) @ '' '' @ time_text (fst (snd t))"

text \<open>\<open>t.UTC().Format(time.RFC3339)\<close>\<close>

definition fmtTime :: "instant \<Rightarrow> string" where
  "fmtTime t = date_text (fst t) @ ''T'' @ time_text (fst (snd t)) @ ''Z''"

text \<open>Go's zero \<open>time.Time\<close>.\<close>

definition zero_time :: instant where
  "zero_time = ((1, 1, 1), (0, 0, 0), 0)"

definition num_at :: "string \<Rightarrow> nat \<Rightarrow> nat \<Rightarrow> nat option" where
  "num_at s i k = (let b = take k (drop i s) in
     if length b = k \<and> list_all is_digit b then Some (digits_val b) else None)"

definition lit_at :: "string \<Rightarrow> nat \<Rightarrow> char \<Rightarrow> bool" where
  "lit_at s i c \<longleftrightarrow> i < length s \<and> s ! i = c"

text \<open>
  \<open>time.Parse\<close> with the layout \<open>2006-01-02?15:04:05\<close>, a separator and a fixed end, on the texts
  the program stores (no fraction of a second, zone Z).
\<close>

definition parse_layout :: "char \<Rightarrow> string \<Rightarrow> string \<Rightarrow> instant option" where
  "parse_layout sep post s =
     (case (num_at s 0 4, num_at s 5 2, num_at s 8 2, num_at s 11 2, num_at s 14 2, num_at s 17 2) of
        (Some y, Some m, Some d, Some h, Some mi, Some sec) \<Rightarrow>
          if lit_at s 4 CHR ''-'' \<and> lit_at s 7 CHR ''-'' \<and> lit_at s 10 sep \<and> lit_at s 13 CHR '':''
             \<and> lit_at s 16 CHR '':'' \<and> drop 19 s = post
             \<and> valid_instant ((y, m, d), (h, mi, sec), 0)
          then Some ((y, m, d), (h, mi, sec), 0) else None
      | _ \<Rightarrow> None)"

definition parseTime :: "string \<Rightarrow> instant" where
  "parseTime s =
     (case parse_layout CHR ''T'' ''Z'' s of
        Some t \<Rightarrow> t
      | None \<Rightarrow> (case parse_layout CHR '' '' [] s of Some t \<Rightarrow> t | None \<Rightarrow> zero_time))"

definition whole_seconds :: "instant \<Rightarrow> instant" where
  "whole_seconds t = (fst t, fst (snd t), 0)"

section \<open>Byte order and time order\<close>

lemma less_append_same_length:
  fixes xs ys us vs :: "'a::linorder list"
  shows "length xs = length ys \<Longrightarrow> xs @ us < ys @ vs \<longleftrightarrow> xs < ys \<or> (xs = ys \<and> us < vs)"
  by (induction xs ys rule: list_induct2) auto

lemma digit_char_less: "a < 10 \<Longrightarrow> b < 10 \<Longrightarrow> digit_char a < digit_char b \<longleftrightarrow> a < b"
  by (simp add: less_char_def digit_char_def)

lemma digit_char_inject: "a < 10 \<Longrightarrow> b < 10 \<Longrightarrow> digit_char a = digit_char b \<longleftrightarrow> a = b"
  by (metis digit_char_props(2))

lemma length_pad [simp]: "length (pad k n) = k"
  by (induction k arbitrary: n) auto

lemma pad_inject: "a < 10 ^ k \<Longrightarrow> b < 10 ^ k \<Longrightarrow> pad k a = pad k b \<longleftrightarrow> a = b"
proof (induction k arbitrary: a b)
  case (Suc k)
  have *: "a div 10 < 10 ^ k" "b div 10 < 10 ^ k"
    using Suc.prems by (simp_all add: less_mult_imp_div_less mult.commute)
  have "pad (Suc k) a = pad (Suc k) b \<longleftrightarrow> pad k (a div 10) = pad k (b div 10) \<and> a mod 10 = b mod 10"
    by (simp add: digit_char_inject)
  also have "\<dots> \<longleftrightarrow> a div 10 = b div 10 \<and> a mod 10 = b mod 10"
    using Suc.IH [OF *] by simp
  also have "\<dots> \<longleftrightarrow> a = b" by (metis div_mult_mod_eq)
  finally show ?case .
qed simp

lemma div_mod_less: "a div 10 < b div 10 \<or> (a div 10 = b div 10 \<and> a mod 10 < b mod 10) \<longleftrightarrow> a < (b::nat)"
proof -
  have "a = 10 * (a div 10) + a mod 10" "b = 10 * (b div 10) + b mod 10" "a mod 10 < 10" "b mod 10 < 10"
    by simp_all
  then show ?thesis by linarith
qed

lemma pad_less: "a < 10 ^ k \<Longrightarrow> b < 10 ^ k \<Longrightarrow> pad k a < pad k b \<longleftrightarrow> a < b"
proof (induction k arbitrary: a b)
  case (Suc k)
  have *: "a div 10 < 10 ^ k" "b div 10 < 10 ^ k"
    using Suc.prems by (simp_all add: less_mult_imp_div_less mult.commute)
  have "pad (Suc k) a < pad (Suc k) b \<longleftrightarrow>
      a div 10 < b div 10 \<or> (a div 10 = b div 10 \<and> a mod 10 < b mod 10)"
    using Suc.IH [OF *] pad_inject [OF *] by (simp add: less_append_same_length digit_char_less)
  also have "\<dots> \<longleftrightarrow> a < b" by (rule div_mod_less)
  finally show ?case .
qed simp

lemma length_date_text [simp]: "length (date_text t) = 10"
  by (cases t rule: date_text.cases) simp

lemma length_time_text [simp]: "length (time_text t) = 8"
  by (cases t rule: time_text.cases) simp

lemma days_in_month_le: "days_in_month y m \<le> 31"
  by (simp add: days_in_month_def)

lemma days_in_month_ge: "28 \<le> days_in_month y m"
  by (simp add: days_in_month_def)

lemma valid_date_bounds:
  assumes "valid_date (y, m, d)"
  shows "y < 10 ^ 4" "m < 10 ^ 2" "d < 10 ^ 2"
  using assms days_in_month_le [of y m] by auto

lemma valid_time_bounds:
  assumes "valid_time (h, mi, s)"
  shows "h < 10 ^ 2" "mi < 10 ^ 2" "s < 10 ^ 2"
  using assms by auto

lemma date_text_order:
  assumes "valid_date a" and "valid_date b"
  shows "date_text a < date_text b \<longleftrightarrow> a < b" and "date_text a = date_text b \<longleftrightarrow> a = b"
proof -
  obtain y m d y' m' d' where ab: "a = (y, m, d)" "b = (y', m', d')" by (metis prod_cases3)
  note bnd = valid_date_bounds [of y m d] valid_date_bounds [of y' m' d']
  show "date_text a = date_text b \<longleftrightarrow> a = b"
    using assms bnd unfolding ab by (simp add: pad_inject del: pad.simps)
  show "date_text a < date_text b \<longleftrightarrow> a < b"
    using assms bnd unfolding ab
    by (auto simp: less_append_same_length pad_less pad_inject less_prod_simp simp del: pad.simps)
qed

lemma time_text_order:
  assumes "valid_time a" and "valid_time b"
  shows "time_text a < time_text b \<longleftrightarrow> a < b" and "time_text a = time_text b \<longleftrightarrow> a = b"
proof -
  obtain h m s h' m' s' where ab: "a = (h, m, s)" "b = (h', m', s')" by (metis prod_cases3)
  note bnd = valid_time_bounds [of h m s] valid_time_bounds [of h' m' s']
  show "time_text a = time_text b \<longleftrightarrow> a = b"
    using assms bnd unfolding ab by (simp add: pad_inject del: pad.simps)
  show "time_text a < time_text b \<longleftrightarrow> a < b"
    using assms bnd unfolding ab
    by (auto simp: less_append_same_length pad_less pad_inject less_prod_simp simp del: pad.simps)
qed

text \<open>Two texts of the same layout compare as the instants do, to the second.\<close>

lemma datetime_less:
  assumes "valid_instant a" and "valid_instant b"
  shows "datetime a < datetime b \<longleftrightarrow> whole_seconds a < whole_seconds b"
  using assms date_text_order [of "fst a" "fst b"] time_text_order [of "fst (snd a)" "fst (snd b)"]
  by (cases a; cases b)
     (auto simp: datetime_def valid_instant_def whole_seconds_def less_append_same_length less_prod_simp)

text \<open>
  A \<open>datetime\<close> text against an RFC 3339 text: the blank sorts below the letter T, so on the same
  day the \<open>datetime\<close> text is below whatever the times of day are.
\<close>

lemma datetime_less_fmtTime:
  assumes "valid_instant a" and "valid_instant b"
  shows "datetime a < fmtTime b \<longleftrightarrow> fst a \<le> fst b"
  using assms date_text_order [of "fst a" "fst b"]
  by (auto simp: datetime_def fmtTime_def valid_instant_def less_append_same_length less_char_def
      order.order_iff_strict)

lemma num_at_pad:
  assumes "n < 10 ^ k"
  shows "num_at (pre @ pad k n @ post) (length pre) k = Some n"
proof -
  have "list_all is_digit (pad k n) \<and> digits_val (pad k n) = n" using assms
  proof (induction k arbitrary: n)
    case (Suc k)
    have "n div 10 < 10 ^ k" using Suc.prems by (simp add: less_mult_imp_div_less mult.commute)
    with Suc.IH show ?case by (simp add: digits_val_snoc)
  qed (simp add: digits_val_def)
  then show ?thesis by (simp add: num_at_def)
qed

lemma parse_layout_text:
  assumes "valid_instant t"
  shows "parse_layout sep post (date_text (fst t) @ [sep] @ time_text (fst (snd t)) @ post) = Some (whole_seconds t)"
proof -
  obtain y m d h mi s us where t: "t = ((y, m, d), (h, mi, s), us)" by (metis prod_cases3)
  have b: "y < 10 ^ 4" "m < 10 ^ 2" "d < 10 ^ 2" "h < 10 ^ 2" "mi < 10 ^ 2" "s < 10 ^ 2"
    using assms valid_date_bounds [of y m d] valid_time_bounds [of h mi s] by (simp_all add: valid_instant_def t)
  let ?s = "date_text (fst t) @ [sep] @ time_text (fst (snd t)) @ post"
  have "num_at ?s 0 4 = Some y" "num_at ?s 5 2 = Some m" "num_at ?s 8 2 = Some d"
    "num_at ?s 11 2 = Some h" "num_at ?s 14 2 = Some mi" "num_at ?s 17 2 = Some s"
    using num_at_pad [of y 4 "[]"] num_at_pad [of m 2 "pad 4 y @ ''-''"]
      num_at_pad [of d 2 "pad 4 y @ ''-'' @ pad 2 m @ ''-''"]
      num_at_pad [of h 2 "pad 4 y @ ''-'' @ pad 2 m @ ''-'' @ pad 2 d @ [sep]"]
      num_at_pad [of mi 2 "pad 4 y @ ''-'' @ pad 2 m @ ''-'' @ pad 2 d @ [sep] @ pad 2 h @ '':''"]
      num_at_pad [of s 2 "pad 4 y @ ''-'' @ pad 2 m @ ''-'' @ pad 2 d @ [sep] @ pad 2 h @ '':'' @ pad 2 mi @ '':''"] b
    by (simp_all add: t del: pad.simps)
  moreover have "lit_at ?s 4 CHR ''-''" "lit_at ?s 7 CHR ''-''" "lit_at ?s 10 sep"
    "lit_at ?s 13 CHR '':''" "lit_at ?s 16 CHR '':''" "drop 19 ?s = post"
    by (simp_all add: lit_at_def t nth_append nth_Cons' del: pad.simps)
  moreover have "valid_instant ((y, m, d), (h, mi, s), 0)" using assms by (simp add: valid_instant_def t)
  ultimately show ?thesis unfolding parse_layout_def by (simp add: whole_seconds_def t)
qed

lemma parseTime_fmtTime: "valid_instant t \<Longrightarrow> parseTime (fmtTime t) = whole_seconds t"
  using parse_layout_text [of t "CHR ''T''" "''Z''"] by (simp add: parseTime_def fmtTime_def)

lemma parseTime_datetime:
  assumes "valid_instant t"
  shows "parseTime (datetime t) = whole_seconds t"
proof -
  have "\<not> lit_at (datetime t) 10 CHR ''T''" by (simp add: lit_at_def datetime_def nth_append)
  then have "parse_layout CHR ''T'' ''Z'' (datetime t) = None"
    by (auto simp: parse_layout_def split: option.splits)
  with parse_layout_text [OF assms, of "CHR '' ''" "[]"] show ?thesis
    by (simp add: parseTime_def datetime_def)
qed

lemma valid_whole_seconds [simp]: "valid_instant t \<Longrightarrow> valid_instant (whole_seconds t)"
  by (simp add: valid_instant_def whole_seconds_def)

lemma fst_whole_seconds [simp]: "fst (whole_seconds t) = fst t"
  by (simp add: whole_seconds_def)

lemma datetime_whole_seconds [simp]: "datetime (whole_seconds t) = datetime t"
  by (simp add: datetime_def whole_seconds_def)

lemma valid_date_minus_7:
  assumes "valid_date (y, m, d)" and "1 \<le> y"
  shows "valid_date (date_minus_7 (y, m, d))"
proof -
  have "28 \<le> days_in_month y (m - 1)" and "days_in_month (y - 1) 12 = 31"
    using days_in_month_ge by (auto simp: days_in_month_def)
  moreover have "y < 10000 \<and> 1 \<le> m \<and> m \<le> 12 \<and> 1 \<le> d \<and> d \<le> days_in_month y m"
    using assms by simp
  ultimately show ?thesis using assms(2) by (simp del: One_nat_def) linarith
qed

lemma date_minus_7_less: "valid_date d \<Longrightarrow> 1 \<le> fst d \<Longrightarrow> date_minus_7 d < d"
  by (cases d) (auto simp: less_prod_simp)

end
