(* ===== verification/Entities.thy ===== *)
theory Entities
  imports GoTime
begin

text \<open>
  The data the components exchange: the protobuf messages of the API that the repositories return
  (gen/pbuf-registry/v1/entities.pb.go) and the structs of the package model
  (internal/model).  Go's named string types (\<open>Permission\<close>, \<open>UserType\<close>, \<open>DriftSeverity\<close>, \<dots>)
  are strings here too: the code compares them, looks them up in maps and uses the empty string
  as \<open>none\<close>.
\<close>

section \<open>API entities\<close>

record Module =
  mod_Id :: string
  mod_Name :: string
  mod_Tags :: "string list"
  mod_DraftTags :: "string list"
  mod_Packages :: "string list"

record ProtoFile =
  pf_Filename :: string
  pf_Content :: string

record Dependency =
  dep_Name :: string
  dep_Tag :: string
  dep_DependencyType :: string

section \<open>Users and permissions\<close>

type_synonym uuid = string
type_synonym UserType = string
type_synonym Permission = string

definition UserTypeUser :: UserType where
  "UserTypeUser = ''user''"

definition UserTypeBot :: UserType where
  "UserTypeBot = ''bot''"

definition PermissionRead :: Permission where
  "PermissionRead = ''read''"

definition PermissionWrite :: Permission where
  "PermissionWrite = ''write''"

definition PermissionAdmin :: Permission where
  "PermissionAdmin = ''admin''"

record User =
  usr_ID :: uuid
  usr_Name :: string
  usr_Token :: string
  usr_Type :: UserType
  usr_IsActive :: bool
  usr_CreatedAt :: instant
  usr_UpdatedAt :: instant

record ACLEntry =
  acl_ID :: uuid
  acl_UserID :: uuid
  acl_ModuleName :: string
  acl_Permission :: Permission
  acl_CreatedAt :: instant

section \<open>Drift\<close>

type_synonym DriftEventType = string
type_synonym DriftSeverity = string
type_synonym DependencyDriftRecommendation = string

definition DriftEventTypeAdded :: DriftEventType where
  "DriftEventTypeAdded = ''added''"

definition DriftEventTypeModified :: DriftEventType where
  "DriftEventTypeModified = ''modified''"

definition DriftEventTypeDeleted :: DriftEventType where
  "DriftEventTypeDeleted = ''deleted''"

definition DriftSeverityInfo :: DriftSeverity where
  "DriftSeverityInfo = ''info''"

definition DriftSeverityWarning :: DriftSeverity where
  "DriftSeverityWarning = ''warning''"

definition DriftSeverityCritical :: DriftSeverity where
  "DriftSeverityCritical = ''critical''"

record DriftEvent =
  ev_ID :: string
  ev_ModuleID :: string
  ev_ModuleName :: string
  ev_TagID :: string
  ev_TagName :: string
  ev_Filename :: string
  ev_EventType :: DriftEventType
  ev_PreviousHash :: string
  ev_CurrentHash :: string
  ev_Severity :: DriftSeverity
  ev_DetectedAt :: instant
  ev_Acknowledged :: bool
  ev_AcknowledgedAt :: "instant option"
  ev_AcknowledgedBy :: string

record DriftDetectionResult =
  res_TagID :: string
  res_ModuleID :: string
  res_Added :: "DriftEvent list"
  res_Modified :: "DriftEvent list"
  res_Deleted :: "DriftEvent list"

definition DependencyDriftRecommendationSuggestUpdate :: DependencyDriftRecommendation where
  "DependencyDriftRecommendationSuggestUpdate = ''suggest_update''"

definition DependencyDriftRecommendationAlertReview :: DependencyDriftRecommendation where
  "DependencyDriftRecommendationAlertReview = ''alert_review''"

record DependencyDriftStatus =
  dds_DependencyName :: string
  dds_CurrentTag :: string
  dds_TargetTag :: string
  dds_Severity :: DriftSeverity
  dds_Recommendation :: DependencyDriftRecommendation

definition HasDrift :: "DriftDetectionResult \<Rightarrow> bool" where
  "HasDrift r \<longleftrightarrow> 0 < length (res_Added r) \<or> 0 < length (res_Modified r) \<or> 0 < length (res_Deleted r)"

definition TotalChanges :: "DriftDetectionResult \<Rightarrow> nat" where
  "TotalChanges r = length (res_Added r) + length (res_Modified r) + length (res_Deleted r)"

lemmas permission_defs = PermissionRead_def PermissionWrite_def PermissionAdmin_def
lemmas severity_defs = DriftSeverityInfo_def DriftSeverityWarning_def DriftSeverityCritical_def
lemmas event_type_defs = DriftEventTypeAdded_def DriftEventTypeModified_def DriftEventTypeDeleted_def

lemma HasDrift_iff_TotalChanges: "HasDrift r \<longleftrightarrow> 0 < TotalChanges r"
  by (auto simp: HasDrift_def TotalChanges_def)

end
