(* ===== verification/Database.thy ===== *)
theory Database
  imports Entities
begin

text \<open>
  The database both backends talk to: the tables of migrations/*.sql as lists of rows, the
  constraints a statement is checked against, and the way a statement can fail.

  \<^item> A table is the list of its rows in the order in which the engine scans them.  Theorems hold
    for every such list, so for every scan order; \<open>ORDER BY\<close> is a stable sort of it.  Columns
    that no query of the program reads are left out.
  \<^item> The two backends store two kinds of columns differently, so the tables are parametrised:
    \<open>'t\<close> is the type of a timestamp (an instant in PostgreSQL, a text in SQLite), \<open>'h\<close> the
    type of a content hash (\<open>NULL\<close> or text in PostgreSQL, a text that may be empty in SQLite).
  \<^item> The world holds the tables, the supply of random UUIDs, the clock, whether foreign keys are
    enforced, and the fault schedule, what goes wrong with each database call in turn.  A call
    \<open>Passes\<close>; it \<open>Fails\<close>, the driver returns an error without doing anything (a lost connection, a
    lock timeout, a value too long for its column); or it \<open>Breaks\<close> after some rows: \<open>Query\<close> itself
    returns no error, \<open>Next\<close> yields that many rows and then \<open>false\<close>, and only \<open>rows.Err()\<close> knows.
    A call without a row loop that breaks returns an error.  When the list is empty no more calls
    go wrong.
\<close>

section \<open>Tables\<close>

record module_row =
  m_id :: uuid
  m_name :: string

record 't tag_row =
  t_id :: uuid
  t_module_id :: uuid
  t_tag :: string
  t_updated_at :: 't
  t_is_processed :: bool

record 'h protofile_row =
  p_id :: uuid
  p_tag_id :: uuid
  p_filename :: string
  p_content :: string
  p_content_hash :: 'h

record dependency_row =
  d_id :: uuid
  d_tag_id :: uuid
  d_dependency_tag_id :: uuid

record 't draft_row =
  dt_id :: uuid
  dt_module_id :: uuid
  dt_tag :: string
  dt_proto_files :: string
  dt_dependencies :: string
  dt_updated_at :: 't

record parsed_row =
  pp_id :: uuid
  pp_tag_id :: uuid
  pp_filename :: string
  pp_json :: string

record meta_row =
  tm_id :: uuid
  tm_tag_id :: uuid
  tm_meta :: string

record 't user_row =
  u_id :: uuid
  u_name :: string
  u_token :: string
  u_type :: string
  u_is_active :: bool
  u_created_at :: 't
  u_updated_at :: 't

record 't acl_row =
  a_id :: uuid
  a_user_id :: uuid
  a_module_name :: string
  a_permission :: string
  a_created_at :: 't

record ('h, 't) event_row =
  de_id :: uuid
  de_module_id :: uuid
  de_tag_id :: uuid
  de_filename :: string
  de_event_type :: string
  de_previous_hash :: 'h
  de_current_hash :: 'h
  de_severity :: string
  de_detected_at :: 't
  de_acknowledged :: bool
  de_acknowledged_at :: "'t option"
  de_acknowledged_by :: "string option"

record ('h, 't) db =
  modules :: "module_row list"
  tags :: "'t tag_row list"
  protofiles :: "'h protofile_row list"
  dependencies :: "dependency_row list"
  draft_tags :: "'t draft_row list"
  proto_parsed_data :: "parsed_row list"
  tag_meta :: "meta_row list"
  users :: "'t user_row list"
  acl :: "'t acl_row list"
  drift_events :: "('h, 't) event_row list"

datatype fault = Passes | Fails | Breaks nat

record ('h, 't) world =
  store :: "('h, 't) db"
  faults :: "fault list"
  uuid_gen :: "nat \<Rightarrow> uuid"
  uuid_next :: nat
  clock :: instant
  fk_enforced :: bool

definition empty_db :: "('h, 't) db" where
  "empty_db = \<lparr>modules = [], tags = [], protofiles = [], dependencies = [], draft_tags = [],
     proto_parsed_data = [], tag_meta = [], users = [], acl = [], drift_events = []\<rparr>"

section \<open>Running statements\<close>

type_synonym ('h, 't, 'a) stmt = "('h, 't) db \<Rightarrow> error + 'a \<times> ('h, 't) db"

definition take_fault :: "('h, 't) world \<Rightarrow> bool \<times> ('h, 't) world" where
  "take_fault w = (case faults w of [] \<Rightarrow> (False, w) | f # fs \<Rightarrow> (f \<noteq> Passes, w\<lparr>faults := fs\<rparr>))"

definition exec :: "('h, 't, 'a) stmt \<Rightarrow> (('h, 't) world, 'a) go" where
  "exec s w = (case take_fault w of
       (True, w1) \<Rightarrow> (Inl ErrDB, w1)
     | (False, w1) \<Rightarrow> (case s (store w1) of
           Inl e \<Rightarrow> (Inl e, w1)
         | Inr (x, d) \<Rightarrow> (Inr x, w1\<lparr>store := d\<rparr>)))"

text \<open>
  \<open>Query\<close> and a loop over the rows that is followed by a look at \<open>rows.Err()\<close>: all rows or an error.
  \<open>QueryRow(...).Scan\<close>: the first row, \<open>ErrNoRows\<close> or an error.
\<close>

definition query :: "(('h, 't) db \<Rightarrow> 'a) \<Rightarrow> (('h, 't) world, 'a) go" where
  "query f = exec (\<lambda>d. Inr (f d, d))"

definition queryRow :: "(('h, 't) db \<Rightarrow> 'a list) \<Rightarrow> (('h, 't) world, 'a) go" where
  "queryRow f = exec (\<lambda>d. case f d of [] \<Rightarrow> Inl ErrNoRows | r # _ \<Rightarrow> Inr (r, d))"

text \<open>
  \<open>Query\<close> and a loop over the rows without a look at \<open>rows.Err()\<close>, as in the registry, metadata, users
  and permissions repositories: when the rows break off, the rows read so far are taken for all of them.
\<close>

definition breaks :: "('h, 't) world \<Rightarrow> nat option" where
  "breaks w = (case faults w of Breaks k # _ \<Rightarrow> Some k | _ \<Rightarrow> None)"

definition execRows :: "('h, 't, 'a list) stmt \<Rightarrow> (('h, 't) world, 'a list) go" where
  "execRows s w = (case breaks w of
       None \<Rightarrow> exec s w
     | Some k \<Rightarrow> (case s (store w) of
           Inl e \<Rightarrow> (Inl e, w\<lparr>faults := tl (faults w)\<rparr>)
         | Inr (xs, d) \<Rightarrow> (Inr (take k xs), w\<lparr>faults := tl (faults w), store := d\<rparr>)))"

definition queryRows :: "(('h, 't) db \<Rightarrow> 'a list) \<Rightarrow> (('h, 't) world, 'a list) go" where
  "queryRows f = execRows (\<lambda>d. Inr (f d, d))"

text \<open>
  \<open>Begin\<close>, a body, \<open>Commit\<close>, with \<open>Rollback\<close> deferred: an error of the body or of the commit
  leaves the tables as they were.  \<open>eb\<close> and \<open>ec\<close> are what the caller makes of an error of
  \<open>Begin\<close> and of \<open>Commit\<close>.
\<close>

definition inTx :: "(error \<Rightarrow> error) \<Rightarrow> (error \<Rightarrow> error) \<Rightarrow> (('h, 't) world, 'a) go \<Rightarrow> (('h, 't) world, 'a) go" where
  "inTx eb ec m w = (case take_fault w of
       (True, w1) \<Rightarrow> (Inl (eb ErrDB), w1)
     | (False, w1) \<Rightarrow> (case m w1 of
           (Inl e, w2) \<Rightarrow> (Inl e, w2\<lparr>store := store w\<rparr>)
         | (Inr x, w2) \<Rightarrow> (case take_fault w2 of
               (True, w3) \<Rightarrow> (Inl (ec ErrDB), w3\<lparr>store := store w\<rparr>)
             | (False, w3) \<Rightarrow> (Inr x, w3))))"

text \<open>\<open>uuid.New()\<close> and \<open>gen_random_uuid()\<close>: the next UUID of the supply.\<close>

definition newUUID :: "(('h, 't) world, uuid) go" where
  "newUUID w = (Inr (uuid_gen w (uuid_next w)), w\<lparr>uuid_next := Suc (uuid_next w)\<rparr>)"

definition now :: "(('h, 't) world, instant) go" where
  "now w = (Inr (clock w), w)"

definition foreign_keys :: "(('h, 't) world, bool) go" where
  "foreign_keys w = (Inr (fk_enforced w), w)"

section \<open>Inserts, updates and deletes under the schema's constraints\<close>

definition clash :: "('r \<Rightarrow> 'k) \<Rightarrow> 'r \<Rightarrow> 'r list \<Rightarrow> bool" where
  "clash key r rows \<longleftrightarrow> key r \<in> set (map key rows)"

text \<open>\<open>INSERT INTO modules ... ON CONFLICT (name) DO NOTHING\<close>\<close>

definition insert_module :: "module_row \<Rightarrow> ('h, 't, unit) stmt" where
  "insert_module r d =
     (if clash m_name r (modules d) then Inr ((), d)
      else if clash m_id r (modules d) then Inl ErrConstraint
      else Inr ((), d\<lparr>modules := modules d @ [r]\<rparr>))"

definition insert_tag :: "'t tag_row \<Rightarrow> ('h, 't, unit) stmt" where
  "insert_tag r d =
     (if clash t_id r (tags d) \<or> clash (\<lambda>x. (t_module_id x, t_tag x)) r (tags d) then Inl ErrConstraint
      else Inr ((), d\<lparr>tags := tags d @ [r]\<rparr>))"

definition insert_protofile :: "'h protofile_row \<Rightarrow> ('h, 't, unit) stmt" where
  "insert_protofile r d =
     (if clash p_id r (protofiles d) \<or> clash (\<lambda>x. (p_tag_id x, p_filename x)) r (protofiles d)
      then Inl ErrConstraint
      else Inr ((), d\<lparr>protofiles := protofiles d @ [r]\<rparr>))"

definition insert_dependency :: "dependency_row \<Rightarrow> ('h, 't, unit) stmt" where
  "insert_dependency r d =
     (if clash d_id r (dependencies d) \<or> clash (\<lambda>x. (d_tag_id x, d_dependency_tag_id x)) r (dependencies d)
      then Inl ErrConstraint
      else Inr ((), d\<lparr>dependencies := dependencies d @ [r]\<rparr>))"

text \<open>\<open>INSERT INTO draft_tags ... ON CONFLICT (module_id, tag) DO UPDATE SET ...\<close>\<close>

definition upsert_draft :: "'t draft_row \<Rightarrow> ('h, 't, unit) stmt" where
  "upsert_draft r d =
     (if clash (\<lambda>x. (dt_module_id x, dt_tag x)) r (draft_tags d)
      then Inr ((), d\<lparr>draft_tags := map (\<lambda>x. if dt_module_id x = dt_module_id r \<and> dt_tag x = dt_tag r
             then x\<lparr>dt_proto_files := dt_proto_files r, dt_dependencies := dt_dependencies r,
                     dt_updated_at := dt_updated_at r\<rparr> else x) (draft_tags d)\<rparr>)
      else if clash dt_id r (draft_tags d) then Inl ErrConstraint
      else Inr ((), d\<lparr>draft_tags := draft_tags d @ [r]\<rparr>))"

definition delete_protofiles :: "('h protofile_row \<Rightarrow> bool) \<Rightarrow> ('h, 't, nat) stmt" where
  "delete_protofiles P d =
     Inr (length (filter P (protofiles d)), d\<lparr>protofiles := filter (\<lambda>r. \<not> P r) (protofiles d)\<rparr>)"

definition delete_dependencies :: "(dependency_row \<Rightarrow> bool) \<Rightarrow> ('h, 't, nat) stmt" where
  "delete_dependencies P d =
     Inr (length (filter P (dependencies d)), d\<lparr>dependencies := filter (\<lambda>r. \<not> P r) (dependencies d)\<rparr>)"

definition delete_drafts :: "('t draft_row \<Rightarrow> bool) \<Rightarrow> ('h, 't, nat) stmt" where
  "delete_drafts P d =
     Inr (length (filter P (draft_tags d)), d\<lparr>draft_tags := filter (\<lambda>r. \<not> P r) (draft_tags d)\<rparr>)"

text \<open>\<open>drift_events\<close> references tags and modules with \<open>ON DELETE CASCADE\<close>.\<close>

definition delete_tags :: "bool \<Rightarrow> ('t tag_row \<Rightarrow> bool) \<Rightarrow> ('h, 't, nat) stmt" where
  "delete_tags fk P d =
     Inr (length (filter P (tags d)),
          d\<lparr>tags := filter (\<lambda>r. \<not> P r) (tags d),
            drift_events := filter (\<lambda>e. \<not> (fk \<and> de_tag_id e \<in> set (map t_id (filter P (tags d))))) (drift_events d)\<rparr>)"

definition delete_modules :: "bool \<Rightarrow> (module_row \<Rightarrow> bool) \<Rightarrow> ('h, 't, nat) stmt" where
  "delete_modules fk P d =
     Inr (length (filter P (modules d)),
          d\<lparr>modules := filter (\<lambda>r. \<not> P r) (modules d),
            drift_events := filter (\<lambda>e. \<not> (fk \<and> de_module_id e \<in> set (map m_id (filter P (modules d))))) (drift_events d)\<rparr>)"

section \<open>Subqueries\<close>

text \<open>\<open>(SELECT id FROM modules WHERE name = $1)\<close>: \<open>NULL\<close>, which equals nothing, when there is none.\<close>

definition module_id_of :: "('h, 't) db \<Rightarrow> string \<Rightarrow> uuid option" where
  "module_id_of d name = (case filter (\<lambda>m. m_name m = name) (modules d) of [] \<Rightarrow> None | m # _ \<Rightarrow> Some (m_id m))"

definition tag_ids_of :: "('h, 't) db \<Rightarrow> string \<Rightarrow> uuid list" where
  "tag_ids_of d name = map t_id (filter (\<lambda>t. Some (t_module_id t) = module_id_of d name) (tags d))"

section \<open>The schema as an invariant\<close>

text \<open>Primary keys and unique constraints hold.\<close>

definition schema_ok :: "('h, 't) db \<Rightarrow> bool" where
  "schema_ok d \<longleftrightarrow>
     distinct (map m_id (modules d)) \<and> distinct (map m_name (modules d)) \<and>
     distinct (map t_id (tags d)) \<and> distinct (map (\<lambda>t. (t_module_id t, t_tag t)) (tags d)) \<and>
     distinct (map p_id (protofiles d)) \<and> distinct (map (\<lambda>p. (p_tag_id p, p_filename p)) (protofiles d)) \<and>
     distinct (map d_id (dependencies d)) \<and>
     distinct (map (\<lambda>x. (d_tag_id x, d_dependency_tag_id x)) (dependencies d)) \<and>
     distinct (map dt_id (draft_tags d)) \<and> distinct (map (\<lambda>x. (dt_module_id x, dt_tag x)) (draft_tags d))"

text \<open>
  No orphans: tags and draft tags belong to a module, proto files and dependencies to a tag.  The
  target of a dependency is not among them: the code does delete tags that others depend on.
\<close>

definition refs_ok :: "('h, 't) db \<Rightarrow> bool" where
  "refs_ok d \<longleftrightarrow>
     t_module_id ` set (tags d) \<subseteq> m_id ` set (modules d) \<and>
     dt_module_id ` set (draft_tags d) \<subseteq> m_id ` set (modules d) \<and>
     p_tag_id ` set (protofiles d) \<subseteq> t_id ` set (tags d) \<and>
     d_tag_id ` set (dependencies d) \<subseteq> t_id ` set (tags d)"

definition registry_ok :: "('h, 't) db \<Rightarrow> bool" where
  "registry_ok d \<longleftrightarrow> schema_ok d \<and> refs_ok d"

text \<open>
  What the program relies on of a UUID generator: values are not repeated, never the empty string,
  and so far unused ones occur in no table.
\<close>

definition db_ids :: "('h, 't) db \<Rightarrow> uuid set" where
  "db_ids d = m_id ` set (modules d) \<union> t_id ` set (tags d) \<union> p_id ` set (protofiles d) \<union>
     d_id ` set (dependencies d) \<union> dt_id ` set (draft_tags d) \<union> pp_id ` set (proto_parsed_data d) \<union>
     tm_id ` set (tag_meta d) \<union> u_id ` set (users d) \<union> a_id ` set (acl d) \<union> de_id ` set (drift_events d)"

definition uuids_ok :: "('h, 't) world \<Rightarrow> bool" where
  "uuids_ok w \<longleftrightarrow> inj (uuid_gen w) \<and> (\<forall>n. uuid_gen w n \<noteq> []) \<and>
     db_ids (store w) \<subseteq> uuid_gen w ` {..<uuid_next w}"

section \<open>Lemmas: running statements\<close>

named_theorems reads_rules "computations that change no table"

lemma take_fault_Nil [simp]: "faults w = [] \<Longrightarrow> take_fault w = (False, w)"
  by (simp add: take_fault_def)

lemma take_fault_frame:
  "store (snd (take_fault w)) = store w" "uuid_gen (snd (take_fault w)) = uuid_gen w"
  "uuid_next (snd (take_fault w)) = uuid_next w" "clock (snd (take_fault w)) = clock w"
  "fk_enforced (snd (take_fault w)) = fk_enforced w"
  by (auto simp: take_fault_def split: list.splits)

lemma take_fault_store: "take_fault w = (b, w') \<Longrightarrow> store w' = store w"
  using take_fault_frame(1) [of w] by simp

lemma exec_ok [go_simps]:
  "faults w = [] \<Longrightarrow> exec s w =
     (case s (store w) of Inl e \<Rightarrow> (Inl e, w) | Inr (x, d) \<Rightarrow> (Inr x, w\<lparr>store := d\<rparr>))"
  by (simp add: exec_def)

lemma query_ok [simp, go_simps]: "faults w = [] \<Longrightarrow> query f w = (Inr (f (store w)), w)"
  by (simp add: query_def exec_def)

lemma breaks_Nil [simp]: "faults w = [] \<Longrightarrow> breaks w = None"
  by (simp add: breaks_def)

lemma execRows_ok [go_simps]:
  "faults w = [] \<Longrightarrow> execRows s w =
     (case s (store w) of Inl e \<Rightarrow> (Inl e, w) | Inr (x, d) \<Rightarrow> (Inr x, w\<lparr>store := d\<rparr>))"
  by (simp add: execRows_def exec_ok)

lemma queryRows_ok [simp, go_simps]: "faults w = [] \<Longrightarrow> queryRows f w = (Inr (f (store w)), w)"
  by (simp add: queryRows_def execRows_ok)

lemma queryRow_ok [go_simps]:
  "faults w = [] \<Longrightarrow> queryRow f w =
     (case f (store w) of [] \<Rightarrow> (Inl ErrNoRows, w) | r # _ \<Rightarrow> (Inr r, w))"
  by (simp add: queryRow_def exec_def split: list.splits)

lemma inTx_ok [go_simps]:
  "faults w = [] \<Longrightarrow> m w = (Inr x, w') \<Longrightarrow> faults w' = [] \<Longrightarrow> inTx eb ec m w = (Inr x, w')"
  "faults w = [] \<Longrightarrow> m w = (Inl e, w') \<Longrightarrow> inTx eb ec m w = (Inl e, w'\<lparr>store := store w\<rparr>)"
  by (simp_all add: inTx_def)

lemma newUUID_simp [simp, go_simps]:
  "newUUID w = (Inr (uuid_gen w (uuid_next w)), w\<lparr>uuid_next := Suc (uuid_next w)\<rparr>)"
  by (simp add: newUUID_def)

lemma now_simp [simp, go_simps]: "now w = (Inr (clock w), w)"
  by (simp add: now_def)

lemma foreign_keys_simp [simp, go_simps]: "foreign_keys w = (Inr (fk_enforced w), w)"
  by (simp add: foreign_keys_def)

text \<open>Under any fault schedule: a statement that does not fail did its work.\<close>

lemma exec_cases:
  assumes "exec s w = (r, w')"
  obtains (Fault) fs where "r = Inl ErrDB" and "w' = w\<lparr>faults := fs\<rparr>"
    | (Error) fs e where "r = Inl e" and "s (store w) = Inl e" and "w' = w\<lparr>faults := fs\<rparr>"
    | (Done) fs x d where "r = Inr x" and "s (store w) = Inr (x, d)" and "w' = w\<lparr>faults := fs, store := d\<rparr>"
proof -
  obtain b w1 where tf: "take_fault w = (b, w1)" by (cases "take_fault w")
  then obtain fs where w1: "w1 = w\<lparr>faults := fs\<rparr>"
    by (cases w) (auto simp: take_fault_def split: list.splits)
  show ?thesis
  proof (cases b)
    case True
    then have "r = Inl ErrDB" "w' = w\<lparr>faults := fs\<rparr>" using assms tf w1 by (auto simp: exec_def)
    then show ?thesis by (rule Fault)
  next
    case False
    with assms tf w1 Error Done show ?thesis
      by (auto simp: exec_def split: sum.splits prod.splits)
  qed
qed

lemma execRows_cases:
  assumes "execRows s w = (r, w')"
  obtains (Fault) fs where "r = Inl ErrDB" and "w' = w\<lparr>faults := fs\<rparr>"
    | (Error) fs e where "r = Inl e" and "s (store w) = Inl e" and "w' = w\<lparr>faults := fs\<rparr>"
    | (Done) fs k xs d where "r = Inr (take k xs)" and "s (store w) = Inr (xs, d)" and "w' = w\<lparr>faults := fs, store := d\<rparr>"
proof (cases "breaks w")
  case None
  with assms have "exec s w = (r, w')" by (simp add: execRows_def)
  then show ?thesis
    by (rule exec_cases) (use Fault Error Done [of "length xs" xs for xs] in auto)
next
  case (Some k)
  with assms Error Done show ?thesis by (auto simp: execRows_def split: sum.splits)
qed

lemma keeps_exec:
  assumes "\<And>d x d'. I d \<Longrightarrow> s d = Inr (x, d') \<Longrightarrow> I d'"
  shows "keeps (\<lambda>w. I (store w)) (exec s)"
proof (rule hoareI)
  fix w :: "('a, 'b) world" assume "I (store w)"
  then show "I (store (snd (exec s w)))"
    by (cases rule: exec_cases [of s w, OF prod.collapse [symmetric]]) (auto intro: assms)
qed

lemma keeps_execD:
  assumes "keeps (\<lambda>w. I (store w)) (exec s)" and "I d" and "s d = Inr (x, d')"
  shows "I d'"
  using keepsD [OF assms(1), of "\<lparr>store = d, faults = [], uuid_gen = \<lambda>_. [], uuid_next = 0, clock = zero_time, fk_enforced = True\<rparr>"]
    assms(2,3) by (simp add: exec_ok)

lemma keeps_query [hoare_rules]: "keeps (\<lambda>w. I (store w)) (query f)"
  unfolding query_def by (rule keeps_exec) simp

lemma keeps_queryRow [hoare_rules]: "keeps (\<lambda>w. I (store w)) (queryRow f)"
  unfolding queryRow_def by (rule keeps_exec) (auto split: list.splits)

lemma keeps_execRows:
  assumes "\<And>d x d'. I d \<Longrightarrow> s d = Inr (x, d') \<Longrightarrow> I d'"
  shows "keeps (\<lambda>w. I (store w)) (execRows s)"
proof (rule hoareI)
  fix w :: "('a, 'b) world" assume "I (store w)"
  then show "I (store (snd (execRows s w)))"
    by (cases rule: execRows_cases [of s w, OF prod.collapse [symmetric]]) (auto intro: assms)
qed

lemma keeps_queryRows [hoare_rules]: "keeps (\<lambda>w. I (store w)) (queryRows f)"
  unfolding queryRows_def by (rule keeps_execRows) simp

lemma keeps_newUUID [hoare_rules]: "keeps (\<lambda>w. I (store w)) newUUID"
  by (simp add: hoare_def)

lemma keeps_now [hoare_rules]: "keeps I now"
  by (simp add: hoare_def)

lemma keeps_foreign_keys [hoare_rules]: "keeps I foreign_keys"
  by (simp add: hoare_def)

lemma keeps_inTx [hoare_rules]:
  "keeps (\<lambda>w. I (store w)) m \<Longrightarrow> keeps (\<lambda>w. I (store w)) (inTx eb ec m)"
  by (auto simp: hoare_def inTx_def split: prod.splits sum.splits bool.splits dest!: take_fault_store)
     (metis snd_conv)

text \<open>All or nothing.\<close>

lemma inTx_atomic: "inTx eb ec m w = (Inl e, w') \<Longrightarrow> store w' = store w"
  by (auto simp: inTx_def split: prod.splits sum.splits bool.splits dest: take_fault_store)

definition reads :: "(('h, 't) world, 'a) go \<Rightarrow> bool" where
  "reads m \<longleftrightarrow> (\<forall>w. snd (m w) = w\<lparr>faults := faults (snd (m w))\<rparr>)"

lemma reads_store: "reads m \<Longrightarrow> m w = (r, w') \<Longrightarrow> store w' = store w"
  unfolding reads_def by (metis snd_conv world.ext_inject world.surjective world.update_convs(2))

lemma reads_keeps: "reads m \<Longrightarrow> keeps (\<lambda>w. I (store w)) m"
  by (rule hoareI) (metis reads_store prod.collapse)

lemma reads_exec: "(\<And>d x d'. s d = Inr (x, d') \<Longrightarrow> d' = d) \<Longrightarrow> reads (exec s)"
  unfolding reads_def
proof
  fix w assume *: "\<And>d x d'. s d = Inr (x, d') \<Longrightarrow> d' = d"
  show "snd (exec s w) = w\<lparr>faults := faults (snd (exec s w))\<rparr>"
    by (cases rule: exec_cases [of s w, OF prod.collapse [symmetric]]) (auto dest: *)
qed

lemma reads_execRows: "(\<And>d x d'. s d = Inr (x, d') \<Longrightarrow> d' = d) \<Longrightarrow> reads (execRows s)"
  unfolding reads_def
proof
  fix w assume *: "\<And>d x d'. s d = Inr (x, d') \<Longrightarrow> d' = d"
  show "snd (execRows s w) = w\<lparr>faults := faults (snd (execRows s w))\<rparr>"
    by (cases rule: execRows_cases [of s w, OF prod.collapse [symmetric]]) (auto dest: *)
qed

lemma reads_queryRows [reads_rules]: "reads (queryRows f)"
  unfolding queryRows_def by (rule reads_execRows) simp

lemma reads_basic [reads_rules]: "reads (ret x)" "reads (throw e)" "reads now" "reads foreign_keys"
  by (simp_all add: reads_def)

lemma reads_query [reads_rules]: "reads (query f)" "reads (queryRow g)"
  unfolding query_def queryRow_def by (rule reads_exec, simp split: list.splits)+

lemma reads_seq:
  assumes "snd (m w) = w\<lparr>faults := faults (snd (m w))\<rparr>" and "reads m'"
  shows "snd (m' (snd (m w))) = w\<lparr>faults := faults (snd (m' (snd (m w))))\<rparr>"
proof -
  have "snd (m' (snd (m w))) = (snd (m w))\<lparr>faults := faults (snd (m' (snd (m w))))\<rparr>"
    using assms(2) unfolding reads_def by blast
  also have "\<dots> = w\<lparr>faults := faults (snd (m' (snd (m w))))\<rparr>"
    by (subst assms(1)) simp
  finally show ?thesis .
qed

lemma reads_bindE [reads_rules]: "reads m \<Longrightarrow> (\<And>x. reads (f x)) \<Longrightarrow> reads (bindE m f)"
  unfolding reads_def
proof
  fix w assume *: "\<forall>w. snd (m w) = w\<lparr>faults := faults (snd (m w))\<rparr>"
    "\<And>x. \<forall>w. snd (f x w) = w\<lparr>faults := faults (snd (f x w))\<rparr>"
  show "snd (bindE m f w) = w\<lparr>faults := faults (snd (bindE m f w))\<rparr>"
  proof (cases "fst (m w)")
    case (Inl e)
    then have "bindE m f w = (Inl e, snd (m w))" by (metis bindE_simps(1) prod.collapse)
    with * show ?thesis by simp
  next
    case (Inr x)
    then have "bindE m f w = f x (snd (m w))" by (metis bindE_simps(2) prod.collapse)
    moreover have "reads (f x)" unfolding reads_def using *(2) by blast
    ultimately show ?thesis using reads_seq [of m w "f x"] *(1) by simp
  qed
qed

lemma reads_attempt [reads_rules]: "reads m \<Longrightarrow> (\<And>r. reads (f r)) \<Longrightarrow> reads (attempt m f)"
  unfolding reads_def
proof
  fix w assume *: "\<forall>w. snd (m w) = w\<lparr>faults := faults (snd (m w))\<rparr>"
    "\<And>x. \<forall>w. snd (f x w) = w\<lparr>faults := faults (snd (f x w))\<rparr>"
  have eq: "attempt m f w = f (fst (m w)) (snd (m w))" by (simp add: attempt_def split: prod.splits)
  have "reads (f (fst (m w)))" unfolding reads_def using *(2) by blast
  then show "snd (attempt m f w) = w\<lparr>faults := faults (snd (attempt m f w))\<rparr>"
    using reads_seq [of m w "f (fst (m w))"] *(1) by (simp only: eq)
qed

lemma reads_wrapE [reads_rules]: "reads m \<Longrightarrow> reads (wrapE msg m)"
proof -
  have "snd (wrapE msg m w) = snd (m w)" for w
    by (auto simp: wrapE_def split: prod.splits sum.splits)
  then show "reads m \<Longrightarrow> reads (wrapE msg m)" by (simp add: reads_def)
qed

lemma reads_mapE [reads_rules]: "(\<And>x. reads (f x)) \<Longrightarrow> reads (mapE xs f)"
  by (induction xs) (auto intro!: reads_rules)

lemma reads_if [reads_rules]: "reads m \<Longrightarrow> reads m' \<Longrightarrow> reads (if b then m else m')"
  by simp

lemma reads_case_option [reads_rules]:
  "reads m \<Longrightarrow> (\<And>x. reads (f x)) \<Longrightarrow> reads (case z of None \<Rightarrow> m | Some x \<Rightarrow> f x)"
  by (cases z) simp_all

lemma reads_case_sum [reads_rules]:
  "(\<And>x. reads (g x)) \<Longrightarrow> (\<And>x. reads (f x)) \<Longrightarrow> reads (case z of Inl x \<Rightarrow> g x | Inr x \<Rightarrow> f x)"
  by (cases z) simp_all

lemma reads_case_prod [reads_rules]:
  "(\<And>x y. reads (f x y)) \<Longrightarrow> reads (case z of (x, y) \<Rightarrow> f x y)"
  by (cases z) simp

text \<open>The exact weakest preconditions: the next entry of the fault schedule decides.\<close>

definition faulty :: "('h, 't) world \<Rightarrow> bool" where
  "faulty w \<longleftrightarrow> faults w \<noteq> [] \<and> hd (faults w) \<noteq> Passes"

definition called :: "('h, 't) world \<Rightarrow> ('h, 't) world" where
  "called w = w\<lparr>faults := tl (faults w)\<rparr>"

lemma take_fault_eq: "take_fault w = (faulty w, called w)"
  by (cases w) (auto simp: take_fault_def faulty_def called_def split: list.splits)

lemma called_sel [simp]:
  "store (called w) = store w" "uuid_gen (called w) = uuid_gen w" "uuid_next (called w) = uuid_next w"
  "clock (called w) = clock w" "fk_enforced (called w) = fk_enforced w" "faults (called w) = tl (faults w)"
  by (simp_all add: called_def)

lemma healthy_simps [simp]: "faults w = [] \<Longrightarrow> called w = w" "faults w = [] \<Longrightarrow> \<not> faulty w"
  by (simp_all add: called_def faulty_def)

lemma called_upd [simp]:
  "called (w\<lparr>store := d\<rparr>) = (called w)\<lparr>store := d\<rparr>" "called (w\<lparr>uuid_next := n\<rparr>) = (called w)\<lparr>uuid_next := n\<rparr>"
  by (simp_all add: called_def)

lemma faulty_upd [simp]:
  "faulty (w\<lparr>store := d\<rparr>) = faulty w" "faulty (w\<lparr>uuid_next := n\<rparr>) = faulty w"
  by (simp_all add: faulty_def)

lemma wp_exec [wp_simps]:
  "wp (exec s) Q w = (if faulty w then Q (Inl ErrDB) (called w)
     else case s (store w) of Inl e \<Rightarrow> Q (Inl e) (called w) | Inr (x, d) \<Rightarrow> Q (Inr x) ((called w)\<lparr>store := d\<rparr>))"
  by (simp add: wp_def exec_def take_fault_eq split: sum.splits prod.splits)

text \<open>The rows a loop sees: all of them, or those before the break.\<close>

definition cut :: "('h, 't) world \<Rightarrow> 'a list \<Rightarrow> 'a list" where
  "cut w xs = (case breaks w of None \<Rightarrow> xs | Some k \<Rightarrow> take k xs)"

lemma cut_Nil [simp]: "faults w = [] \<Longrightarrow> cut w xs = xs"
  by (simp add: cut_def)

lemma set_cut: "set (cut w xs) \<subseteq> set xs"
  by (auto simp: cut_def dest: in_set_takeD split: option.splits)

lemma cut_map: "cut w (map f xs) = map f (cut w xs)"
  by (simp add: cut_def take_map split: option.splits)

lemma length_cut: "length (cut w xs) \<le> length xs"
  by (simp add: cut_def split: option.splits)

lemma map_of_cut: "map_of (map f (cut w xs)) \<subseteq>\<^sub>m map_of (map f xs)"
proof -
  have "map_of ys \<subseteq>\<^sub>m map_of (ys @ zs)" for ys zs :: "('x \<times> 'y) list" by (auto simp: map_le_def map_add_def)
  from this [of "map f (take k xs)" "map f (drop k xs)" for k] show ?thesis
    by (auto simp: cut_def simp flip: map_append split: option.splits)
qed

lemma wp_execRows [wp_simps]:
  "wp (execRows s) Q w = (if faulty w \<and> breaks w = None then Q (Inl ErrDB) (called w)
     else case s (store w) of Inl e \<Rightarrow> Q (Inl e) (called w) | Inr (xs, d) \<Rightarrow> Q (Inr (cut w xs)) ((called w)\<lparr>store := d\<rparr>))"
  by (auto simp: wp_def execRows_def exec_def take_fault_eq cut_def called_def breaks_def faulty_def
      split: sum.splits prod.splits option.splits list.splits)

lemma store_unchanged [simp]: "(called w)\<lparr>store := store w\<rparr> = called w"
  by (cases w) (simp add: called_def)

lemma wp_query [wp_simps]:
  "wp (query f) Q w = (if faulty w then Q (Inl ErrDB) (called w) else Q (Inr (f (store w))) (called w))"
  by (simp add: query_def wp_exec)

lemma wp_queryRows [wp_simps]:
  "wp (queryRows f) Q w = (if faulty w \<and> breaks w = None then Q (Inl ErrDB) (called w)
     else Q (Inr (cut w (f (store w)))) (called w))"
  by (simp add: queryRows_def wp_execRows)

lemma wp_queryRow [wp_simps]:
  "wp (queryRow f) Q w = (if faulty w then Q (Inl ErrDB) (called w)
     else case f (store w) of [] \<Rightarrow> Q (Inl ErrNoRows) (called w) | r # _ \<Rightarrow> Q (Inr r) (called w))"
  by (simp add: queryRow_def wp_exec split: list.splits)

lemma wp_world [wp_simps]:
  "wp newUUID Q w = Q (Inr (uuid_gen w (uuid_next w))) (w\<lparr>uuid_next := Suc (uuid_next w)\<rparr>)"
  "wp now R w = R (Inr (clock w)) w"
  "wp foreign_keys S w = S (Inr (fk_enforced w)) w"
  by (simp_all add: wp_def)

lemma wp_inTx [wp_simps]:
  "wp (inTx eb ec m) Q w = (if faulty w then Q (Inl (eb ErrDB)) (called w)
     else wp m (\<lambda>r w2. case r of Inl e \<Rightarrow> Q (Inl e) (w2\<lparr>store := store w\<rparr>)
       | Inr x \<Rightarrow> if faulty w2 then Q (Inl (ec ErrDB)) ((called w2)\<lparr>store := store w\<rparr>) else Q (Inr x) (called w2))
     (called w))"
  by (auto simp: wp_def inTx_def take_fault_eq split: sum.splits prod.splits bool.splits)

lemma wp_reads:
  assumes "reads m" and "\<And>r fs. m w = (r, w\<lparr>faults := fs\<rparr>) \<Longrightarrow> Q r (w\<lparr>faults := fs\<rparr>)"
  shows "wp m Q w"
proof -
  have "m w = (fst (m w), w\<lparr>faults := faults (snd (m w))\<rparr>)"
    using assms(1) unfolding reads_def by (metis prod.collapse)
  with assms(2) show ?thesis unfolding wp_def by (metis fst_conv snd_conv)
qed

section \<open>Lemmas: every statement keeps the schema\<close>

lemmas stmt_defs = insert_module_def insert_tag_def insert_protofile_def insert_dependency_def
  upsert_draft_def delete_protofiles_def delete_dependencies_def delete_drafts_def delete_tags_def
  delete_modules_def

lemma clash_iff [simp]: "clash key r rows \<longleftrightarrow> (\<exists>x\<in>set rows. key x = key r)"
  unfolding clash_def by (simp add: image_iff) metis

lemma keeps_schema_inserts [hoare_rules]:
  "keeps (\<lambda>w. schema_ok (store w)) (exec (insert_module a))"
  "keeps (\<lambda>w. schema_ok (store w)) (exec (insert_tag b))"
  "keeps (\<lambda>w. schema_ok (store w)) (exec (insert_protofile c))"
  "keeps (\<lambda>w. schema_ok (store w)) (exec (insert_dependency e))"
  by (rule keeps_exec; force simp: schema_ok_def stmt_defs split: if_splits)+

lemma keeps_schema_upsert_draft [hoare_rules]: "keeps (\<lambda>w. schema_ok (store w)) (exec (upsert_draft r))"
proof (rule keeps_exec)
  fix d x d' assume ok: "schema_ok d" and run: "upsert_draft r d = Inr (x, d')"
  let ?upd = "\<lambda>x. if dt_module_id x = dt_module_id r \<and> dt_tag x = dt_tag r
     then x\<lparr>dt_proto_files := dt_proto_files r, dt_dependencies := dt_dependencies r, dt_updated_at := dt_updated_at r\<rparr> else x"
  show "schema_ok d'"
  proof (cases "clash (\<lambda>x. (dt_module_id x, dt_tag x)) r (draft_tags d)")
    case True
    with run have "d' = d\<lparr>draft_tags := map ?upd (draft_tags d)\<rparr>" by (simp add: upsert_draft_def)
    with ok show ?thesis by (simp add: schema_ok_def map_same_key)
  next
    case False
    with ok run show ?thesis by (fastforce simp: schema_ok_def upsert_draft_def split: if_splits)
  qed
qed

lemma keeps_schema_deletes [hoare_rules]:
  "keeps (\<lambda>w. schema_ok (store w)) (exec (delete_protofiles P))"
  "keeps (\<lambda>w. schema_ok (store w)) (exec (delete_dependencies Q))"
  "keeps (\<lambda>w. schema_ok (store w)) (exec (delete_drafts R))"
  "keeps (\<lambda>w. schema_ok (store w)) (exec (delete_tags fk S))"
  "keeps (\<lambda>w. schema_ok (store w)) (exec (delete_modules fk T))"
  by (rule keeps_exec; auto simp: schema_ok_def stmt_defs)+

end
