(* ===== verification/RegistryPg.thy ===== *)
theory RegistryPg
  imports Database
begin

text \<open>
  The PostgreSQL registry repository, internal/data/registry.go: modules, immutable tags with
  their proto files, draft tags, dependencies and their transitive closure.  One definition per
  method, statement by statement; log lines are left out.  The first half holds the definitions,
  the second the lemmas about single methods.
\<close>

section \<open>What is outside the repository\<close>

text \<open>\<open>encoding/json\<close> on the two lists a draft tag stores.\<close>

record json_codec =
  json_marshal_files :: "ProtoFile list \<Rightarrow> error + string"
  json_unmarshal_files :: "string \<Rightarrow> error + ProtoFile list"
  json_marshal_deps :: "Dependency list \<Rightarrow> error + string"

definition liftR :: "error + 'a \<Rightarrow> ('w, 'a) go" where
  "liftR r w = (r, w)"

lemma liftR_simp [simp, go_simps]: "liftR r w = (r, w)"
  by (simp add: liftR_def)

lemma wp_liftR [wp_simps]: "wp (liftR r) Q w = Q r w"
  by (simp add: wp_def)

lemma keeps_liftR [hoare_rules]: "keeps I (liftR r)"
  by (simp add: hoare_def)

lemma reads_liftR [reads_rules]: "reads (liftR r)"
  by (simp add: reads_def)

section \<open>Modules\<close>

definition pg_RegisterModule :: "string \<Rightarrow> (('h, 't) world, unit) go" where
  "pg_RegisterModule moduleName =
     bindE newUUID (\<lambda>id.
     wrapE ''could not insert module into database'' (exec (insert_module \<lparr>m_id = id, m_name = moduleName\<rparr>)))"

definition pg_GetModule :: "string \<Rightarrow> (('h, 't::linorder) world, Module option) go" where
  "pg_GetModule name =
     attempt (queryRow (\<lambda>d. map (\<lambda>m. (m_id m, m_name m)) (filter (\<lambda>m. m_name m = name) (modules d)))) (\<lambda>r.
     case r of
       Inl err \<Rightarrow> if errors_Is err ErrNoRows then ret None
                  else throw (Wrapped ''could not select module from database'' err)
     | Inr (mid, mname) \<Rightarrow>
       let module = \<lparr>mod_Id = mid, mod_Name = mname, mod_Tags = [], mod_DraftTags = [], mod_Packages = []\<rparr> in
       attempt (queryRows (\<lambda>d. map t_tag (take 10 (sort_desc t_updated_at (filter (\<lambda>t. t_module_id t = mid) (tags d)))))) (\<lambda>r.
       case r of
         Inl err \<Rightarrow> if errors_Is err ErrNoRows then ret (Some module)
                    else throw (Wrapped ''could not select tags from database'' err)
       | Inr ts \<Rightarrow>
         let module = module\<lparr>mod_Tags := ts\<rparr> in
         attempt (queryRows (\<lambda>d. map dt_tag (take 10 (sort_desc dt_updated_at (filter (\<lambda>t. dt_module_id t = mid) (draft_tags d)))))) (\<lambda>r.
         case r of
           Inl err \<Rightarrow> if errors_Is err ErrNoRows then ret (Some module)
                      else throw (Wrapped ''could not select draft tags from database'' err)
         | Inr dts \<Rightarrow> ret (Some (module\<lparr>mod_DraftTags := dts\<rparr>)))))"

text \<open>
  The text of the listing query.  The decoded token is pasted between quotes.  A token without a
  quote is a string literal; what a token with a quote makes of the text is up to the engine,
  which is a parameter.
\<close>

definition list_query_text :: "string option \<Rightarrow> int \<Rightarrow> string" where
  "list_query_text decoded pageSize =
     ''SELECT id, name FROM modules'' @
     (case decoded of None \<Rightarrow> [] | Some s \<Rightarrow> '' WHERE name >= '' @ [CHR 0x27] @ s @ [CHR 0x27]) @
     '' ORDER BY name ASC LIMIT '' @ FormatInt (pageSize + 1)"

definition module_listing :: "string option \<Rightarrow> ('h, 't) db \<Rightarrow> module_row list" where
  "module_listing decoded d =
     sort_key m_name (filter (\<lambda>m. case decoded of None \<Rightarrow> True | Some s \<Rightarrow> s \<le> m_name m) (modules d))"

text \<open>The loop over the rows: \<open>pageSize\<close> rows fill the page, a further row gives the next token.\<close>

fun page_loop :: "int \<Rightarrow> int \<Rightarrow> module_row list \<Rightarrow> Module list \<Rightarrow> string \<Rightarrow> Module list \<times> string" where
  "page_loop pageSize rowsCount [] mods next = (mods, next)"
| "page_loop pageSize rowsCount (m # rows) mods next =
     (if rowsCount < pageSize
      then page_loop pageSize (rowsCount + 1) rows
             (mods @ [\<lparr>mod_Id = m_id m, mod_Name = m_name m, mod_Tags = [], mod_DraftTags = [], mod_Packages = []\<rparr>]) next
      else page_loop pageSize (rowsCount + 1) rows mods (EncodeToString (m_name m)))"

type_synonym ('h, 't) engine = "string \<Rightarrow> ('h, 't, module_row list) stmt"

definition decode_token :: "string \<Rightarrow> error + string option" where
  "decode_token token =
     (if token = [] then Inr None
      else case DecodeString token of
             None \<Rightarrow> Inl (Wrapped ''could not decode token'' ErrDecode)
           | Some s \<Rightarrow> Inr (Some s))"

definition has_quote :: "string option \<Rightarrow> bool" where
  "has_quote decoded = (case decoded of None \<Rightarrow> False | Some s \<Rightarrow> CHR 0x27 \<in> set s)"

text \<open>
  A negative \<open>LIMIT\<close> is an error of the execution, which pgx reports by \<open>rows.Err()\<close> and not by
  \<open>Query\<close>: the loop, which does not ask for it, sees no rows.
\<close>

definition pg_ListModules :: "('h, 't) engine \<Rightarrow> int \<Rightarrow> string \<Rightarrow> (('h, 't) world, Module list \<times> string) go" where
  "pg_ListModules engine pageSize token =
     bindE (liftR (decode_token token)) (\<lambda>decoded.
     bindE (wrapE ''could not select modules from database''
       (execRows (\<lambda>d. if has_quote decoded then engine (list_query_text decoded pageSize) d
                  else if pageSize + 1 < 0 then Inr ([], d)
                  else Inr (take (nat (pageSize + 1)) (module_listing decoded d), d)))) (\<lambda>rows.
     ret (page_loop pageSize 0 rows [] [])))"

definition pg_DeleteModule :: "string \<Rightarrow> (('h, 't) world, unit) go" where
  "pg_DeleteModule name =
     bindE (wrapE ''could not delete protofiles from database''
       (exec (\<lambda>d. delete_protofiles (\<lambda>p. p_tag_id p \<in> set (tag_ids_of d name)) d))) (\<lambda>_.
     bindE (wrapE ''could not delete module dependencies from database''
       (exec (\<lambda>d. delete_dependencies (\<lambda>x. d_tag_id x \<in> set (tag_ids_of d name)) d))) (\<lambda>_.
     bindE (wrapE ''could not delete module tags from database''
       (exec (\<lambda>d. delete_tags True (\<lambda>t. Some (t_module_id t) = module_id_of d name) d))) (\<lambda>_.
     bindE (wrapE ''could not delete module draft tags from database''
       (exec (\<lambda>d. delete_drafts (\<lambda>t. Some (dt_module_id t) = module_id_of d name) d))) (\<lambda>_.
     bindE (wrapE ''could not delete module from database''
       (exec (delete_modules True (\<lambda>m. m_name m = name)))) (\<lambda>n.
     if 0 < n then ret () else throw (ErrorString ''module not found''))))))"

section \<open>Tags\<close>

definition pg_GetModuleTagId :: "string \<Rightarrow> string \<Rightarrow> (('h, 't) world, string) go" where
  "pg_GetModuleTagId moduleName tag =
     attempt (queryRow (\<lambda>d. map t_id (filter (\<lambda>t. Some (t_module_id t) = module_id_of d moduleName \<and> t_tag t = tag) (tags d)))) (\<lambda>r.
     case r of
       Inl err \<Rightarrow> if errors_Is err ErrNoRows then ret []
                  else throw (Wrapped ''could not select tag from database'' err)
     | Inr tagId \<Rightarrow> ret tagId)"

text \<open>The body of the loop that inserts the proto files.\<close>

definition pg_push_file :: "uuid \<Rightarrow> ProtoFile \<Rightarrow> ((string option, 't) world, unit) go" where
  "pg_push_file tagId f =
     bindE newUUID (\<lambda>pid.
     wrapE ''could not insert protofile into database''
       (exec (insert_protofile \<lparr>p_id = pid, p_tag_id = tagId, p_filename = pf_Filename f,
          p_content = pf_Content f, p_content_hash = None\<rparr>)))"

definition pg_PushModule ::
  "string \<Rightarrow> string \<Rightarrow> ProtoFile list \<Rightarrow> ((string option, instant) world, Module) go" where
  "pg_PushModule name tag files =
     bindE (wrapE ''could not get module'' (pg_GetModule name)) (\<lambda>m.
     case m of
       None \<Rightarrow> throw (ErrorString ''module not found'')
     | Some module \<Rightarrow>
       if tag \<in> set (mod_Tags module) then throw (ErrorString ''tag already exists'')
       else
         bindE (inTx (Wrapped ''could not begin transaction'')
                     (\<lambda>_. ErrorString ''could not push the module. internal error'')
           (bindE newUUID (\<lambda>newId.
            bindE now (\<lambda>ts.
            bindE (wrapE ''could not insert tag into database''
              (exec (insert_tag \<lparr>t_id = newId, t_module_id = mod_Id module, t_tag = tag, t_updated_at = ts, t_is_processed = False\<rparr>))) (\<lambda>_.
            bindE (wrapE ''could not select tag from database''
              (queryRow (\<lambda>d. map t_id (filter (\<lambda>t. t_module_id t = mod_Id module \<and> t_tag t = tag) (tags d))))) (\<lambda>tagId.
            forE files (pg_push_file tagId)))))))
         (\<lambda>_. ret (module\<lparr>mod_Tags := mod_Tags module @ [tag]\<rparr>)))"

definition pg_PullModule :: "string \<Rightarrow> string \<Rightarrow> (('h, 't::linorder) world, Module \<times> ProtoFile list) go" where
  "pg_PullModule name tag =
     bindE (wrapE ''could not get module'' (pg_GetModule name)) (\<lambda>m.
     case m of
       None \<Rightarrow> throw (ErrorString ''module not found'')
     | Some module \<Rightarrow>
       bindE (wrapE ''could not get tag id'' (pg_GetModuleTagId name tag)) (\<lambda>tagId.
       if tagId = [] then throw ErrTagNotFound
       else
         bindE (wrapE ''could not select protofiles from database''
           (queryRows (\<lambda>d. map (\<lambda>p. \<lparr>pf_Filename = p_filename p, pf_Content = p_content p\<rparr>)
                          (filter (\<lambda>p. p_tag_id p = tagId) (protofiles d))))) (\<lambda>files.
         ret (module, files))))"

definition pg_DeleteModuleTag :: "string \<Rightarrow> string \<Rightarrow> (('h, 't) world, unit) go" where
  "pg_DeleteModuleTag name tag =
     bindE (wrapE ''could not get tag id'' (pg_GetModuleTagId name tag)) (\<lambda>tagId.
     if tagId = [] then throw ErrTagNotFound
     else
       bindE (wrapE ''could not delete protofiles from database''
         (exec (delete_protofiles (\<lambda>p. p_tag_id p = tagId)))) (\<lambda>_.
       bindE (wrapE ''could not delete dependencies from database''
         (exec (delete_dependencies (\<lambda>x. d_tag_id x = tagId \<or> d_dependency_tag_id x = tagId)))) (\<lambda>_.
       bindE (wrapE ''could not delete tag from database''
         (exec (delete_tags True (\<lambda>t. t_id t = tagId)))) (\<lambda>n.
       if 0 < n then ret () else throw ErrTagNotFound))))"

section \<open>Draft tags\<close>

definition pg_PushDraftModule ::
  "json_codec \<Rightarrow> string \<Rightarrow> string \<Rightarrow> ProtoFile list \<Rightarrow> Dependency list \<Rightarrow> (('h, instant) world, Module) go" where
  "pg_PushDraftModule js name tag files deps =
     bindE (wrapE ''could not get module'' (pg_GetModule name)) (\<lambda>m.
     case m of
       None \<Rightarrow> throw (ErrorString ''module not found'')
     | Some module \<Rightarrow>
       bindE (wrapE ''could not serialize protofiles'' (liftR (json_marshal_files js files))) (\<lambda>filesJson.
       bindE (wrapE ''could not serialize dependencies'' (liftR (json_marshal_deps js deps))) (\<lambda>depsJson.
       bindE newUUID (\<lambda>newId.
       bindE now (\<lambda>ts.
       bindE (wrapE ''could not insert draft tag into database''
         (exec (upsert_draft \<lparr>dt_id = newId, dt_module_id = mod_Id module, dt_tag = tag,
            dt_proto_files = filesJson, dt_dependencies = depsJson, dt_updated_at = ts\<rparr>))) (\<lambda>_.
       ret (if tag \<in> set (mod_DraftTags module) then module
            else module\<lparr>mod_DraftTags := mod_DraftTags module @ [tag]\<rparr>)))))))"

definition pg_PullDraftModule ::
  "json_codec \<Rightarrow> string \<Rightarrow> string \<Rightarrow> (('h, 't::linorder) world, Module \<times> ProtoFile list) go" where
  "pg_PullDraftModule js name tag =
     bindE (wrapE ''could not get module'' (pg_GetModule name)) (\<lambda>m.
     case m of
       None \<Rightarrow> throw (ErrorString ''module not found'')
     | Some module \<Rightarrow>
       attempt (queryRow (\<lambda>d. map dt_proto_files (filter (\<lambda>t. dt_module_id t = mod_Id module \<and> dt_tag t = tag) (draft_tags d)))) (\<lambda>r.
       case r of
         Inl err \<Rightarrow> if errors_Is err ErrNoRows then throw (ErrorString ''draft tag not found'')
                    else throw (Wrapped ''could not select draft tag from database'' err)
       | Inr filesJson \<Rightarrow>
         bindE (wrapE ''could not unmarshal protofiles'' (liftR (json_unmarshal_files js filesJson))) (\<lambda>files.
         ret (module, files))))"

text \<open>\<open>DELETE FROM draft_tags WHERE updated_at < NOW() - INTERVAL '7 days'\<close>\<close>

definition pg_DeleteObsoleteDraftTags :: "(('h, instant) world, unit) go" where
  "pg_DeleteObsoleteDraftTags =
     bindE now (\<lambda>ts.
     bindE (wrapE ''could not delete draft tags from database''
       (exec (delete_drafts (\<lambda>t. dt_updated_at t < minus_7_days ts)))) (\<lambda>_. ret ()))"

section \<open>Dependencies\<close>

definition pg_AddModuleDependencies :: "string \<Rightarrow> string \<Rightarrow> Dependency list \<Rightarrow> (('h, 't) world, unit) go" where
  "pg_AddModuleDependencies name tag deps =
     bindE (wrapE ''could not get tag id'' (pg_GetModuleTagId name tag)) (\<lambda>tagId.
     if tagId = [] then throw ErrTagNotFound
     else forE deps (\<lambda>dep.
       bindE (wrapE (''could not find tag '' @ dep_Tag dep @ '' for module '' @ dep_Name dep)
         (queryRow (\<lambda>d. map t_id (filter (\<lambda>t. Some (t_module_id t) = module_id_of d (dep_Name dep) \<and> t_tag t = dep_Tag dep) (tags d))))) (\<lambda>dependencyTagId.
       bindE newUUID (\<lambda>newId.
       wrapE ''could not insert dependency into database''
         (exec (insert_dependency \<lparr>d_id = newId, d_tag_id = tagId, d_dependency_tag_id = dependencyTagId\<rparr>))))))"

text \<open>\<open>SELECT modules.name, tags.tag FROM modules JOIN tags ON modules.id = tags.module_id WHERE tags.id = $1\<close>\<close>

definition module_and_tag :: "('h, 't) db \<Rightarrow> uuid \<Rightarrow> (string \<times> string) list" where
  "module_and_tag d tid =
     concat (map (\<lambda>m. map (\<lambda>t. (m_name m, t_tag t)) (filter (\<lambda>t. m_id m = t_module_id t \<and> t_id t = tid) (tags d))) (modules d))"

definition dependency_at :: "uuid \<Rightarrow> (('h, 't) world, Dependency) go" where
  "dependency_at dependencyTagId =
     bindE (wrapE ''could not find module and tag for dependency''
       (queryRow (\<lambda>d. module_and_tag d dependencyTagId))) (\<lambda>r.
     ret \<lparr>dep_Name = fst r, dep_Tag = snd r, dep_DependencyType = []\<rparr>)"

definition pg_GetModuleDependencies :: "string \<Rightarrow> string \<Rightarrow> (('h, 't::linorder) world, Dependency list) go" where
  "pg_GetModuleDependencies name tag =
     bindE (if tag = []
            then attempt (queryRow (\<lambda>d. map t_tag (sort_desc t_updated_at (filter (\<lambda>t. Some (t_module_id t) = module_id_of d name) (tags d))))) (\<lambda>r.
                 case r of
                   Inl err \<Rightarrow> if errors_Is err ErrNoRows then ret None
                              else throw (Wrapped ''could not select tag from database'' err)
                 | Inr t \<Rightarrow> ret (Some t))
            else ret (Some tag)) (\<lambda>resolved.
     case resolved of
       None \<Rightarrow> ret []
     | Some tag \<Rightarrow>
       bindE (wrapE ''could not get tag id'' (pg_GetModuleTagId name tag)) (\<lambda>tagId.
       if tagId = [] then throw ErrTagNotFound
       else
         attempt (queryRows (\<lambda>d. map d_dependency_tag_id (filter (\<lambda>x. d_tag_id x = tagId) (dependencies d)))) (\<lambda>r.
         case r of
           Inl err \<Rightarrow> if errors_Is err ErrNoRows then ret []
                      else throw (Wrapped ''could not select dependencies from database'' err)
         | Inr ids \<Rightarrow> mapE ids dependency_at)))"

text \<open>The struct \<open>depKey\<close> and the map \<open>visited\<close> it indexes.\<close>

type_synonym depKey = "string \<times> string"

definition key_of :: "Dependency \<Rightarrow> depKey" where
  "key_of dep = (dep_Name dep, dep_Tag dep)"

text \<open>The inner loop: dependencies not seen before are recorded as transitive and enqueued.\<close>

fun visit_all :: "Dependency list \<Rightarrow> depKey set \<times> Dependency list \<times> Dependency list \<Rightarrow> depKey set \<times> Dependency list \<times> Dependency list" where
  "visit_all [] s = s"
| "visit_all (dep # deps) (visited, result, queue) =
     (if key_of dep \<in> visited then visit_all deps (visited, result, queue)
      else visit_all deps (insert (key_of dep) visited,
             result @ [\<lparr>dep_Name = dep_Name dep, dep_Tag = dep_Tag dep, dep_DependencyType = ''transitive''\<rparr>],
             queue @ [dep]))"

text \<open>The keys a lookup of dependencies can return: the pairs of a module and one of its tags.\<close>

definition tag_keys :: "('h, 't) db \<Rightarrow> depKey set" where
  "tag_keys d = {(m_name m, t_tag t) | m t. m \<in> set (modules d) \<and> t \<in> set (tags d) \<and> m_id m = t_module_id t}"

lemma finite_tag_keys [simp]: "finite (tag_keys d)"
proof (rule finite_subset)
  show "tag_keys d \<subseteq> (m_name ` set (modules d)) \<times> (t_tag ` set (tags d))" by (auto simp: tag_keys_def)
qed simp

lemma set_module_and_tag:
  "set (module_and_tag d tid) =
     {(m_name m, t_tag t) | m t. m \<in> set (modules d) \<and> t \<in> set (tags d) \<and> m_id m = t_module_id t \<and> t_id t = tid}"
  by (auto simp: module_and_tag_def)

lemma reads_GetModule [reads_rules]: "reads (pg_GetModule name)"
  unfolding pg_GetModule_def Let_def by (intro reads_rules)

lemma reads_GetModuleTagId [reads_rules]: "reads (pg_GetModuleTagId name tag)"
  unfolding pg_GetModuleTagId_def by (intro reads_rules)

lemma queryRow_Inr: "queryRow f w = (Inr x, w') \<Longrightarrow> x \<in> set (f (store w)) \<and> store w' = store w"
  unfolding queryRow_def by (erule exec_cases) (auto split: list.splits)

lemma reads_dependency_at [reads_rules]: "reads (dependency_at tid)"
  unfolding dependency_at_def by (intro reads_rules)

lemma reads_GetModuleDependencies [reads_rules]: "reads (pg_GetModuleDependencies name tag)"
  unfolding pg_GetModuleDependencies_def by (intro reads_rules)

lemma dependency_at_Inr:
  assumes "dependency_at i w = (Inr dep, w')"
  shows "key_of dep \<in> tag_keys (store w)" and "store w' = store w"
  using assms unfolding dependency_at_def
  by (auto simp: success_iffs key_of_def set_module_and_tag tag_keys_def dest!: queryRow_Inr) blast

lemma mapE_dependency_at_keys:
  assumes "mapE ids dependency_at w = (Inr deps, w')"
  shows "key_of ` set deps \<subseteq> tag_keys (store w) \<and> store w' = store w"
  using assms
proof (induction ids arbitrary: w deps)
  case (Cons i ids)
  then obtain dep w1 ds where *: "dependency_at i w = (Inr dep, w1)"
    and ds: "mapE ids dependency_at w1 = (Inr ds, w')" and deps: "deps = dep # ds"
    by (auto simp: success_iffs)
  from dependency_at_Inr [OF *] Cons.IH [OF ds] show ?case by (simp add: deps)
qed simp

lemma GetModuleDependencies_Inr:
  assumes "pg_GetModuleDependencies name tag w = (Inr deps, w')"
  shows "key_of ` set deps \<subseteq> tag_keys (store w)" and "store w' = store w"
proof -
  show same: "store w' = store w" using assms reads_store reads_GetModuleDependencies by blast
  have "deps = [] \<or> (\<exists>ids w1. mapE ids dependency_at w1 = (Inr deps, w'))"
    using assms unfolding pg_GetModuleDependencies_def
    by (auto simp: success_iffs split: if_splits sum.splits option.splits)
  then show "key_of ` set deps \<subseteq> tag_keys (store w)"
    using mapE_dependency_at_keys same by fastforce
qed

text \<open>What the inner loop does to the three variables.\<close>

definition mark :: "string \<Rightarrow> Dependency \<Rightarrow> Dependency" where
  "mark ty dep = \<lparr>dep_Name = dep_Name dep, dep_Tag = dep_Tag dep, dep_DependencyType = ty\<rparr>"

lemma key_of_mark [simp]: "key_of (mark ty dep) = key_of dep"
  by (simp add: key_of_def mark_def)

lemma visit_all_spec:
  assumes "visit_all deps (v, r, q) = (v', r', q')"
  shows "\<exists>new. q' = q @ new \<and> r' = r @ map (mark ''transitive'') new \<and> v' = v \<union> key_of ` set deps \<and>
      key_of ` set new = key_of ` set deps - v \<and> distinct (map key_of new) \<and> set new \<subseteq> set deps"
  using assms
proof (induction deps arbitrary: v r q)
  case (Cons dep deps)
  show ?case
  proof (cases "key_of dep \<in> v")
    case True
    with Cons.prems have "visit_all deps (v, r, q) = (v', r', q')" by simp
    from Cons.IH [OF this] True show ?thesis by auto
  next
    case False
    with Cons.prems have "visit_all deps (insert (key_of dep) v, r @ [mark ''transitive'' dep], q @ [dep]) = (v', r', q')"
      by (simp add: mark_def)
    from Cons.IH [OF this] obtain new where new: "q' = (q @ [dep]) @ new"
      "r' = (r @ [mark ''transitive'' dep]) @ map (mark ''transitive'') new"
      "v' = insert (key_of dep) v \<union> key_of ` set deps"
      "key_of ` set new = key_of ` set deps - insert (key_of dep) v"
      "distinct (map key_of new)" "set new \<subseteq> set deps" by blast
    then have "key_of ` set (dep # new) = key_of ` set (dep # deps) - v" using False by auto
    with new False show ?thesis by (intro exI [of _ "dep # new"]) auto
  qed
qed auto

text \<open>
  \<open>for len(queue) > 0\<close>.  A lookup that fails is skipped.  Every round either leaves the set of
  keys still to be visited alone and shortens the queue, or shrinks that set.
\<close>

function pg_bfs :: "Dependency list \<Rightarrow> depKey set \<Rightarrow> Dependency list \<Rightarrow> (('h, 't::linorder) world, Dependency list) go" where
  "pg_bfs [] visited result w = (Inr result, w)"
| "pg_bfs (current # queue) visited result w =
     (case pg_GetModuleDependencies (dep_Name current) (dep_Tag current) w of
        (Inl err, w1) \<Rightarrow> pg_bfs queue visited result w1
      | (Inr transitiveDeps, w1) \<Rightarrow>
          (case visit_all transitiveDeps (visited, result, queue) of
             (visited', result', queue') \<Rightarrow> pg_bfs queue' visited' result' w1))"
  by pat_completeness auto

text \<open>The measure of the search: keys not yet visited, then the length of the queue.\<close>

definition bfs_rel :: "((Dependency list \<times> depKey set \<times> Dependency list \<times> ('h, 't) world) \<times>
    (Dependency list \<times> depKey set \<times> Dependency list \<times> ('h, 't) world)) set" where
  "bfs_rel = measures [\<lambda>(queue, visited, result, w). card (tag_keys (store w) - visited),
     \<lambda>(queue, visited, result, w). length queue]"

lemma wf_bfs_rel [simp]: "wf bfs_rel"
  by (simp add: bfs_rel_def)

lemma bfs_rel_skip: "store w1 = store w \<Longrightarrow> ((queue, visited, result, w1), current # queue, visited, result, w) \<in> bfs_rel"
  by (simp add: bfs_rel_def)

lemma bfs_rel_step:
  assumes keys: "key_of ` set deps \<subseteq> tag_keys (store w)" and same: "store w1 = store w"
    and visit: "visit_all deps (v, r, q) = (v', r', q')"
  shows "((q', v', r', w1), current # q, v, r, w) \<in> bfs_rel"
proof -
  obtain new where new: "q' = q @ new" "v' = v \<union> key_of ` set deps"
    "key_of ` set new = key_of ` set deps - v" using visit_all_spec [OF visit] by blast
  show ?thesis
  proof (cases new)
    case Nil
    with new have "v' = v" by auto
    with Nil new same show ?thesis by (simp add: bfs_rel_def)
  next
    case (Cons n ns)
    then have "key_of n \<in> key_of ` set deps - v" using new(3) by auto
    with new(2) keys have "tag_keys (store w) - v' \<subset> tag_keys (store w) - v" by blast
    then have "card (tag_keys (store w) - v') < card (tag_keys (store w) - v)"
      by (simp add: psubset_card_mono)
    with same show ?thesis by (simp add: bfs_rel_def)
  qed
qed

termination pg_bfs
proof (relation bfs_rel, goal_cases)
  case (2 current queue visited result w x y a)
  then show ?case using reads_store [OF reads_GetModuleDependencies, of _ _ w] by (intro bfs_rel_skip) metis
next
  case (3 current queue visited result w x y b xa ya xb yb)
  note run = 3(1) [symmetric]
  show ?case using GetModuleDependencies_Inr [OF run [unfolded 3(2)]] 3(3,4)
    by (intro bfs_rel_step [of b]) simp_all
qed simp

definition pg_GetTransitiveDependencies :: "string \<Rightarrow> string \<Rightarrow> (('h, 't::linorder) world, Dependency list) go" where
  "pg_GetTransitiveDependencies name tag =
     bindE (wrapE ''could not get direct dependencies'' (pg_GetModuleDependencies name tag)) (\<lambda>directDeps.
     pg_bfs directDeps (insert (name, tag) (key_of ` set directDeps)) (map (mark ''direct'') directDeps))"

end
