(* ===== verification/RegistrySqlite.thy ===== *)
theory RegistrySqlite
  imports RegistryPg
begin

text \<open>
  The SQLite registry repository, internal/data/sqlite/registry.go.  Timestamps are texts written
  by \<open>datetime('now')\<close>, an absent content hash is the empty text, IDs are made by the program,
  a negative \<open>LIMIT\<close> means no limit, and deletes cascade only when foreign keys are enforced on
  the connection.  Where the code of the two backends agrees the definitions do, and the lemmas at
  the end say so; where it differs the equivalence is proved in the theory RegistryProps.
\<close>

section \<open>Modules\<close>

definition lite_RegisterModule :: "string \<Rightarrow> (('h, 't) world, unit) go" where
  "lite_RegisterModule moduleName =
     bindE newUUID (\<lambda>id.
     wrapE ''could not insert module into database'' (exec (insert_module \<lparr>m_id = id, m_name = moduleName\<rparr>)))"

definition lite_GetModule :: "string \<Rightarrow> (('h, 't::linorder) world, Module option) go" where
  "lite_GetModule name =
     attempt (queryRow (\<lambda>d. map (\<lambda>m. (m_id m, m_name m)) (filter (\<lambda>m. m_name m = name) (modules d)))) (\<lambda>r.
     case r of
       Inl err \<Rightarrow> if errors_Is err ErrNoRows then ret None
                  else throw (Wrapped ''could not select module from database'' err)
     | Inr (mid, mname) \<Rightarrow>
       let module = \<lparr>mod_Id = mid, mod_Name = mname, mod_Tags = [], mod_DraftTags = [], mod_Packages = []\<rparr> in
       attempt (queryRows (\<lambda>d. map t_tag (take 10 (sort_desc t_updated_at (filter (\<lambda>t. t_module_id t = mid) (tags d)))))) (\<lambda>r.
       case r of
         Inl err \<Rightarrow> if errors_Is err ErrNoRows then ret (Some module)
                    else throw (Wrapped ''could not select tags from database'' err)
       | Inr ts \<Rightarrow>
         let module = module\<lparr>mod_Tags := ts\<rparr> in
         attempt (queryRows (\<lambda>d. map dt_tag (take 10 (sort_desc dt_updated_at (filter (\<lambda>t. dt_module_id t = mid) (draft_tags d)))))) (\<lambda>r.
         case r of
           Inl err \<Rightarrow> if errors_Is err ErrNoRows then ret (Some module)
                      else throw (Wrapped ''could not select draft tags from database'' err)
         | Inr dts \<Rightarrow> ret (Some (module\<lparr>mod_DraftTags := dts\<rparr>)))))"

definition lite_ListModules :: "('h, 't) engine \<Rightarrow> int \<Rightarrow> string \<Rightarrow> (('h, 't) world, Module list \<times> string) go" where
  "lite_ListModules engine pageSize token =
     bindE (liftR (decode_token token)) (\<lambda>decoded.
     bindE (wrapE ''could not select modules from database''
       (execRows (\<lambda>d. if has_quote decoded then engine (list_query_text decoded pageSize) d
                  else Inr (if pageSize + 1 < 0 then module_listing decoded d
                            else take (nat (pageSize + 1)) (module_listing decoded d), d)))) (\<lambda>rows.
     ret (page_loop pageSize 0 rows [] [])))"

definition lite_DeleteModule :: "string \<Rightarrow> (('h, 't) world, unit) go" where
  "lite_DeleteModule name =
     bindE foreign_keys (\<lambda>fk.
     bindE (wrapE ''could not delete protofiles from database''
       (exec (\<lambda>d. delete_protofiles (\<lambda>p. p_tag_id p \<in> set (tag_ids_of d name)) d))) (\<lambda>_.
     bindE (wrapE ''could not delete module dependencies from database''
       (exec (\<lambda>d. delete_dependencies (\<lambda>x. d_tag_id x \<in> set (tag_ids_of d name)) d))) (\<lambda>_.
     bindE (wrapE ''could not delete module tags from database''
       (exec (\<lambda>d. delete_tags fk (\<lambda>t. Some (t_module_id t) = module_id_of d name) d))) (\<lambda>_.
     bindE (wrapE ''could not delete module draft tags from database''
       (exec (\<lambda>d. delete_drafts (\<lambda>t. Some (dt_module_id t) = module_id_of d name) d))) (\<lambda>_.
     bindE (wrapE ''could not delete module from database''
       (exec (delete_modules fk (\<lambda>m. m_name m = name)))) (\<lambda>n.
     if 0 < n then ret () else throw (ErrorString ''module not found'')))))))"

section \<open>Tags\<close>

definition lite_GetModuleTagId :: "string \<Rightarrow> string \<Rightarrow> (('h, 't) world, string) go" where
  "lite_GetModuleTagId moduleName tag =
     attempt (queryRow (\<lambda>d. map t_id (filter (\<lambda>t. Some (t_module_id t) = module_id_of d moduleName \<and> t_tag t = tag) (tags d)))) (\<lambda>r.
     case r of
       Inl err \<Rightarrow> if errors_Is err ErrNoRows then ret []
                  else throw (Wrapped ''could not select tag from database'' err)
     | Inr tagId \<Rightarrow> ret tagId)"

definition lite_push_file :: "uuid \<Rightarrow> ProtoFile \<Rightarrow> ((string, 't) world, unit) go" where
  "lite_push_file tagId f =
     bindE newUUID (\<lambda>pid.
     wrapE ''could not insert protofile into database''
       (exec (insert_protofile \<lparr>p_id = pid, p_tag_id = tagId, p_filename = pf_Filename f,
          p_content = pf_Content f, p_content_hash = []\<rparr>)))"

definition lite_PushModule ::
  "string \<Rightarrow> string \<Rightarrow> ProtoFile list \<Rightarrow> ((string, string) world, Module) go" where
  "lite_PushModule name tag files =
     bindE (wrapE ''could not get module'' (lite_GetModule name)) (\<lambda>m.
     case m of
       None \<Rightarrow> throw (ErrorString ''module not found'')
     | Some module \<Rightarrow>
       if tag \<in> set (mod_Tags module) then throw (ErrorString ''tag already exists'')
       else
         bindE (inTx (Wrapped ''could not begin transaction'')
                     (\<lambda>_. ErrorString ''could not push the module. internal error'')
           (bindE newUUID (\<lambda>tagID.
            bindE now (\<lambda>ts.
            bindE (wrapE ''could not insert tag into database''
              (exec (insert_tag \<lparr>t_id = tagID, t_module_id = mod_Id module, t_tag = tag, t_updated_at = datetime ts, t_is_processed = False\<rparr>))) (\<lambda>_.
            forE files (lite_push_file tagID))))))
         (\<lambda>_. ret (module\<lparr>mod_Tags := mod_Tags module @ [tag]\<rparr>)))"

definition lite_PullModule :: "string \<Rightarrow> string \<Rightarrow> (('h, 't::linorder) world, Module \<times> ProtoFile list) go" where
  "lite_PullModule name tag =
     bindE (wrapE ''could not get module'' (lite_GetModule name)) (\<lambda>m.
     case m of
       None \<Rightarrow> throw (ErrorString ''module not found'')
     | Some module \<Rightarrow>
       bindE (wrapE ''could not get tag id'' (lite_GetModuleTagId name tag)) (\<lambda>tagId.
       if tagId = [] then throw ErrTagNotFound
       else
         bindE (wrapE ''could not select protofiles from database''
           (queryRows (\<lambda>d. map (\<lambda>p. \<lparr>pf_Filename = p_filename p, pf_Content = p_content p\<rparr>)
                          (filter (\<lambda>p. p_tag_id p = tagId) (protofiles d))))) (\<lambda>files.
         ret (module, files))))"

definition lite_DeleteModuleTag :: "string \<Rightarrow> string \<Rightarrow> (('h, 't) world, unit) go" where
  "lite_DeleteModuleTag name tag =
     bindE foreign_keys (\<lambda>fk.
     bindE (wrapE ''could not get tag id'' (lite_GetModuleTagId name tag)) (\<lambda>tagId.
     if tagId = [] then throw ErrTagNotFound
     else
       bindE (wrapE ''could not delete protofiles from database''
         (exec (delete_protofiles (\<lambda>p. p_tag_id p = tagId)))) (\<lambda>_.
       bindE (wrapE ''could not delete dependencies from database''
         (exec (delete_dependencies (\<lambda>x. d_tag_id x = tagId \<or> d_dependency_tag_id x = tagId)))) (\<lambda>_.
       bindE (wrapE ''could not delete tag from database''
         (exec (delete_tags fk (\<lambda>t. t_id t = tagId)))) (\<lambda>n.
       if 0 < n then ret () else throw ErrTagNotFound)))))"

section \<open>Draft tags\<close>

definition lite_PushDraftModule ::
  "json_codec \<Rightarrow> string \<Rightarrow> string \<Rightarrow> ProtoFile list \<Rightarrow> Dependency list \<Rightarrow> (('h, string) world, Module) go" where
  "lite_PushDraftModule js name tag files deps =
     bindE (wrapE ''could not get module'' (lite_GetModule name)) (\<lambda>m.
     case m of
       None \<Rightarrow> throw (ErrorString ''module not found'')
     | Some module \<Rightarrow>
       bindE (wrapE ''could not serialize protofiles'' (liftR (json_marshal_files js files))) (\<lambda>filesJson.
       bindE (wrapE ''could not serialize dependencies'' (liftR (json_marshal_deps js deps))) (\<lambda>depsJson.
       bindE newUUID (\<lambda>newId.
       bindE now (\<lambda>ts.
       bindE (wrapE ''could not insert draft tag into database''
         (exec (upsert_draft \<lparr>dt_id = newId, dt_module_id = mod_Id module, dt_tag = tag,
            dt_proto_files = filesJson, dt_dependencies = depsJson, dt_updated_at = datetime ts\<rparr>))) (\<lambda>_.
       ret (if tag \<in> set (mod_DraftTags module) then module
            else module\<lparr>mod_DraftTags := mod_DraftTags module @ [tag]\<rparr>)))))))"

definition lite_PullDraftModule ::
  "json_codec \<Rightarrow> string \<Rightarrow> string \<Rightarrow> (('h, 't::linorder) world, Module \<times> ProtoFile list) go" where
  "lite_PullDraftModule js name tag =
     bindE (wrapE ''could not get module'' (lite_GetModule name)) (\<lambda>m.
     case m of
       None \<Rightarrow> throw (ErrorString ''module not found'')
     | Some module \<Rightarrow>
       attempt (queryRow (\<lambda>d. map dt_proto_files (filter (\<lambda>t. dt_module_id t = mod_Id module \<and> dt_tag t = tag) (draft_tags d)))) (\<lambda>r.
       case r of
         Inl err \<Rightarrow> if errors_Is err ErrNoRows then throw (ErrorString ''draft tag not found'')
                    else throw (Wrapped ''could not select draft tag from database'' err)
       | Inr filesJson \<Rightarrow>
         bindE (wrapE ''could not unmarshal protofiles'' (liftR (json_unmarshal_files js filesJson))) (\<lambda>files.
         ret (module, files))))"

text \<open>\<open>DELETE FROM draft_tags WHERE updated_at < datetime('now', '-7 days')\<close>\<close>

definition lite_DeleteObsoleteDraftTags :: "(('h, string) world, unit) go" where
  "lite_DeleteObsoleteDraftTags =
     bindE now (\<lambda>ts.
     bindE (wrapE ''could not delete draft tags from database''
       (exec (delete_drafts (\<lambda>t. dt_updated_at t < datetime (minus_7_days ts))))) (\<lambda>_. ret ()))"

section \<open>Dependencies\<close>

definition lite_AddModuleDependencies :: "string \<Rightarrow> string \<Rightarrow> Dependency list \<Rightarrow> (('h, 't) world, unit) go" where
  "lite_AddModuleDependencies name tag deps =
     bindE (wrapE ''could not get tag id'' (lite_GetModuleTagId name tag)) (\<lambda>tagId.
     if tagId = [] then throw ErrTagNotFound
     else forE deps (\<lambda>dep.
       bindE (wrapE (''could not find tag '' @ dep_Tag dep @ '' for module '' @ dep_Name dep)
         (queryRow (\<lambda>d. map t_id (filter (\<lambda>t. Some (t_module_id t) = module_id_of d (dep_Name dep) \<and> t_tag t = dep_Tag dep) (tags d))))) (\<lambda>dependencyTagId.
       bindE newUUID (\<lambda>newId.
       wrapE ''could not insert dependency into database''
         (exec (insert_dependency \<lparr>d_id = newId, d_tag_id = tagId, d_dependency_tag_id = dependencyTagId\<rparr>))))))"

definition lite_GetModuleDependencies :: "string \<Rightarrow> string \<Rightarrow> (('h, 't::linorder) world, Dependency list) go" where
  "lite_GetModuleDependencies name tag =
     bindE (if tag = []
            then attempt (queryRow (\<lambda>d. map t_tag (sort_desc t_updated_at (filter (\<lambda>t. Some (t_module_id t) = module_id_of d name) (tags d))))) (\<lambda>r.
                 case r of
                   Inl err \<Rightarrow> if errors_Is err ErrNoRows then ret None
                              else throw (Wrapped ''could not select tag from database'' err)
                 | Inr t \<Rightarrow> ret (Some t))
            else ret (Some tag)) (\<lambda>resolved.
     case resolved of
       None \<Rightarrow> ret []
     | Some tag \<Rightarrow>
       bindE (wrapE ''could not get tag id'' (lite_GetModuleTagId name tag)) (\<lambda>tagId.
       if tagId = [] then throw ErrTagNotFound
       else
         attempt (queryRows (\<lambda>d. map d_dependency_tag_id (filter (\<lambda>x. d_tag_id x = tagId) (dependencies d)))) (\<lambda>r.
         case r of
           Inl err \<Rightarrow> if errors_Is err ErrNoRows then ret []
                      else throw (Wrapped ''could not select dependencies from database'' err)
         | Inr ids \<Rightarrow> mapE ids dependency_at)))"

lemma lite_reads_eqs:
  "lite_GetModule = pg_GetModule" "lite_GetModuleTagId = pg_GetModuleTagId"
  "lite_GetModuleDependencies = pg_GetModuleDependencies"
proof -
  show "lite_GetModule = pg_GetModule"
    by (rule ext) (simp only: lite_GetModule_def pg_GetModule_def)
  show *: "lite_GetModuleTagId = pg_GetModuleTagId"
    by (intro ext) (simp only: lite_GetModuleTagId_def pg_GetModuleTagId_def)
  show "lite_GetModuleDependencies = pg_GetModuleDependencies"
    by (intro ext) (simp only: lite_GetModuleDependencies_def pg_GetModuleDependencies_def *)
qed

function lite_bfs :: "Dependency list \<Rightarrow> depKey set \<Rightarrow> Dependency list \<Rightarrow> (('h, 't::linorder) world, Dependency list) go" where
  "lite_bfs [] visited result w = (Inr result, w)"
| "lite_bfs (current # queue) visited result w =
     (case lite_GetModuleDependencies (dep_Name current) (dep_Tag current) w of
        (Inl err, w1) \<Rightarrow> lite_bfs queue visited result w1
      | (Inr transitiveDeps, w1) \<Rightarrow>
          (case visit_all transitiveDeps (visited, result, queue) of
             (visited', result', queue') \<Rightarrow> lite_bfs queue' visited' result' w1))"
  by pat_completeness auto

termination lite_bfs
proof (relation bfs_rel, goal_cases)
  case (2 current queue visited result w x y a)
  then show ?case unfolding lite_reads_eqs
    using reads_store [OF reads_GetModuleDependencies, of _ _ w] by (intro bfs_rel_skip) metis
next
  case (3 current queue visited result w x y b xa ya xb yb)
  note run = 3(1) [unfolded lite_reads_eqs, symmetric]
  show ?case using GetModuleDependencies_Inr [OF run [unfolded 3(2)]] 3(3,4)
    by (intro bfs_rel_step [of b]) simp_all
qed simp

definition lite_GetTransitiveDependencies :: "string \<Rightarrow> string \<Rightarrow> (('h, 't::linorder) world, Dependency list) go" where
  "lite_GetTransitiveDependencies name tag =
     bindE (wrapE ''could not get direct dependencies'' (lite_GetModuleDependencies name tag)) (\<lambda>directDeps.
     lite_bfs directDeps (insert (name, tag) (key_of ` set directDeps)) (map (mark ''direct'') directDeps))"

section \<open>Where the backends agree\<close>

lemma lite_bfs_eq: "lite_bfs queue visited result w = pg_bfs queue visited result w"
  by (induction queue visited result w rule: pg_bfs.induct)
     (auto simp: lite_reads_eqs split: prod.splits sum.splits)

lemma lite_bfs_fun: "lite_bfs = pg_bfs"
  by (intro ext) (rule lite_bfs_eq)

text \<open>The reading methods, registration and the adding of dependencies are the same programs.\<close>

lemma lite_same_code:
  "lite_RegisterModule = pg_RegisterModule" "lite_PullModule = pg_PullModule"
  "lite_PullDraftModule = pg_PullDraftModule" "lite_AddModuleDependencies = pg_AddModuleDependencies"
  "lite_GetTransitiveDependencies = pg_GetTransitiveDependencies"
  by (intro ext, simp only: lite_RegisterModule_def pg_RegisterModule_def lite_PullModule_def
      pg_PullModule_def lite_PullDraftModule_def pg_PullDraftModule_def lite_AddModuleDependencies_def
      pg_AddModuleDependencies_def lite_GetTransitiveDependencies_def pg_GetTransitiveDependencies_def
      lite_reads_eqs lite_bfs_fun)+

end
