(* ===== verification/RegistrySpec.thy ===== *)
theory RegistrySpec
  imports RegistrySqlite
begin

text \<open>
  What a registry promises: a map from module names to their tags, and from a tag to its files.
  \<open>contents\<close> reads that map off the tables, \<open>RegistryRepository\<close> is the Go interface of the
  repositories as a record of methods, the two constructors build it from the methods of the two
  backends, and the locale \<open>registry_repository\<close> states the contract under which its clients
  (the servers and the daemons) work.
\<close>

section \<open>The interface\<close>

record 'w RegistryRepository =
  RegisterModule :: "string \<Rightarrow> ('w, unit) go"
  GetModule :: "string \<Rightarrow> ('w, Module option) go"
  ListModules :: "int \<Rightarrow> string \<Rightarrow> ('w, Module list \<times> string) go"
  DeleteModule :: "string \<Rightarrow> ('w, unit) go"
  PushModule :: "string \<Rightarrow> string \<Rightarrow> ProtoFile list \<Rightarrow> ('w, Module) go"
  PushDraftModule :: "string \<Rightarrow> string \<Rightarrow> ProtoFile list \<Rightarrow> Dependency list \<Rightarrow> ('w, Module) go"
  PullModule :: "string \<Rightarrow> string \<Rightarrow> ('w, Module \<times> ProtoFile list) go"
  PullDraftModule :: "string \<Rightarrow> string \<Rightarrow> ('w, Module \<times> ProtoFile list) go"
  GetModuleTagId :: "string \<Rightarrow> string \<Rightarrow> ('w, string) go"
  DeleteModuleTag :: "string \<Rightarrow> string \<Rightarrow> ('w, unit) go"
  AddModuleDependencies :: "string \<Rightarrow> string \<Rightarrow> Dependency list \<Rightarrow> ('w, unit) go"
  GetModuleDependencies :: "string \<Rightarrow> string \<Rightarrow> ('w, Dependency list) go"
  GetTransitiveDependencies :: "string \<Rightarrow> string \<Rightarrow> ('w, Dependency list) go"
  DeleteObsoleteDraftTags :: "('w, unit) go"

definition NewRegistryRepository ::
  "json_codec \<Rightarrow> (string option, instant) engine \<Rightarrow> (string option, instant) world RegistryRepository" where
  "NewRegistryRepository js engine = \<lparr>
     RegisterModule = pg_RegisterModule, GetModule = pg_GetModule, ListModules = pg_ListModules engine,
     DeleteModule = pg_DeleteModule, PushModule = pg_PushModule, PushDraftModule = pg_PushDraftModule js,
     PullModule = pg_PullModule, PullDraftModule = pg_PullDraftModule js, GetModuleTagId = pg_GetModuleTagId,
     DeleteModuleTag = pg_DeleteModuleTag, AddModuleDependencies = pg_AddModuleDependencies,
     GetModuleDependencies = pg_GetModuleDependencies,
     GetTransitiveDependencies = pg_GetTransitiveDependencies,
     DeleteObsoleteDraftTags = pg_DeleteObsoleteDraftTags\<rparr>"

definition lite_NewRegistryRepository ::
  "json_codec \<Rightarrow> (string, string) engine \<Rightarrow> (string, string) world RegistryRepository" where
  "lite_NewRegistryRepository js engine = \<lparr>
     RegisterModule = lite_RegisterModule, GetModule = lite_GetModule, ListModules = lite_ListModules engine,
     DeleteModule = lite_DeleteModule, PushModule = lite_PushModule, PushDraftModule = lite_PushDraftModule js,
     PullModule = lite_PullModule, PullDraftModule = lite_PullDraftModule js, GetModuleTagId = lite_GetModuleTagId,
     DeleteModuleTag = lite_DeleteModuleTag, AddModuleDependencies = lite_AddModuleDependencies,
     GetModuleDependencies = lite_GetModuleDependencies,
     GetTransitiveDependencies = lite_GetTransitiveDependencies,
     DeleteObsoleteDraftTags = lite_DeleteObsoleteDraftTags\<rparr>"

lemma NewRegistryRepository_sel [simp]:
  "RegisterModule (NewRegistryRepository js engine) = pg_RegisterModule"
  "GetModule (NewRegistryRepository js engine) = pg_GetModule"
  "ListModules (NewRegistryRepository js engine) = pg_ListModules engine"
  "DeleteModule (NewRegistryRepository js engine) = pg_DeleteModule"
  "PushModule (NewRegistryRepository js engine) = pg_PushModule"
  "PushDraftModule (NewRegistryRepository js engine) = pg_PushDraftModule js"
  "PullModule (NewRegistryRepository js engine) = pg_PullModule"
  "PullDraftModule (NewRegistryRepository js engine) = pg_PullDraftModule js"
  "GetModuleTagId (NewRegistryRepository js engine) = pg_GetModuleTagId"
  "DeleteModuleTag (NewRegistryRepository js engine) = pg_DeleteModuleTag"
  "AddModuleDependencies (NewRegistryRepository js engine) = pg_AddModuleDependencies"
  "GetModuleDependencies (NewRegistryRepository js engine) = pg_GetModuleDependencies"
  "GetTransitiveDependencies (NewRegistryRepository js engine) = pg_GetTransitiveDependencies"
  "DeleteObsoleteDraftTags (NewRegistryRepository js engine) = pg_DeleteObsoleteDraftTags"
  by (simp_all add: NewRegistryRepository_def)

lemma lite_NewRegistryRepository_sel [simp]:
  "RegisterModule (lite_NewRegistryRepository js engine) = lite_RegisterModule"
  "GetModule (lite_NewRegistryRepository js engine) = lite_GetModule"
  "ListModules (lite_NewRegistryRepository js engine) = lite_ListModules engine"
  "DeleteModule (lite_NewRegistryRepository js engine) = lite_DeleteModule"
  "PushModule (lite_NewRegistryRepository js engine) = lite_PushModule"
  "PushDraftModule (lite_NewRegistryRepository js engine) = lite_PushDraftModule js"
  "PullModule (lite_NewRegistryRepository js engine) = lite_PullModule"
  "PullDraftModule (lite_NewRegistryRepository js engine) = lite_PullDraftModule js"
  "GetModuleTagId (lite_NewRegistryRepository js engine) = lite_GetModuleTagId"
  "DeleteModuleTag (lite_NewRegistryRepository js engine) = lite_DeleteModuleTag"
  "AddModuleDependencies (lite_NewRegistryRepository js engine) = lite_AddModuleDependencies"
  "GetModuleDependencies (lite_NewRegistryRepository js engine) = lite_GetModuleDependencies"
  "GetTransitiveDependencies (lite_NewRegistryRepository js engine) = lite_GetTransitiveDependencies"
  "DeleteObsoleteDraftTags (lite_NewRegistryRepository js engine) = lite_DeleteObsoleteDraftTags"
  by (simp_all add: lite_NewRegistryRepository_def)

section \<open>The abstract registry\<close>

type_synonym files = "string \<rightharpoonup> string"
type_synonym registry = "string \<rightharpoonup> (string \<rightharpoonup> files)"

definition files_map :: "ProtoFile list \<Rightarrow> files" where
  "files_map fs = map_of (map (\<lambda>f. (pf_Filename f, pf_Content f)) fs)"

definition tag_files :: "('h, 't) db \<Rightarrow> uuid \<Rightarrow> files" where
  "tag_files d tid = map_of (map (\<lambda>p. (p_filename p, p_content p)) (filter (\<lambda>p. p_tag_id p = tid) (protofiles d)))"

definition tag_at :: "('h, 't) db \<Rightarrow> string \<Rightarrow> string \<Rightarrow> uuid option" where
  "tag_at d name tag =
     (case filter (\<lambda>t. Some (t_module_id t) = module_id_of d name \<and> t_tag t = tag) (tags d) of
        [] \<Rightarrow> None | t # _ \<Rightarrow> Some (t_id t))"

definition contents :: "('h, 't) db \<Rightarrow> registry" where
  "contents d name =
     (case module_id_of d name of None \<Rightarrow> None
      | Some _ \<Rightarrow> Some (\<lambda>tag. map_option (tag_files d) (tag_at d name tag)))"

definition reg_inv :: "('h, 't) world \<Rightarrow> bool" where
  "reg_inv w \<longleftrightarrow> registry_ok (store w) \<and> uuids_ok w"

section \<open>The contract\<close>

text \<open>A page token whose decoded text cannot leave the SQL literal it is pasted into.\<close>

definition safe_token :: "string \<Rightarrow> bool" where
  "safe_token token \<longleftrightarrow> (case decode_token token of Inl _ \<Rightarrow> True | Inr decoded \<Rightarrow> \<not> has_quote decoded)"

text \<open>The calls a client can make, each with the worlds before and after it.\<close>

datatype registry_call =
    CallRegister string
  | CallPush string string "ProtoFile list"
  | CallPull string string
  | CallPushDraft string string "ProtoFile list" "Dependency list"
  | CallPullDraft string string
  | CallDeleteTag string string
  | CallDelete string
  | CallGet string
  | CallList int string
  | CallGetTagId string string
  | CallAddDeps string string "Dependency list"
  | CallGetDeps string string
  | CallTransitive string string
  | CallDeleteObsolete
  | Environment

text \<open>
  One step: a call returns, with or without an error, or the environment moves (time passes, calls
  start or stop to fail).
\<close>

inductive registry_step ::
  "'w RegistryRepository \<Rightarrow> ('w \<Rightarrow> 'w \<Rightarrow> bool) \<Rightarrow> registry_call \<Rightarrow> 'w \<Rightarrow> 'w \<Rightarrow> bool" for repo env where
  do_register: "RegisterModule repo n w = (r, w') \<Longrightarrow> registry_step repo env (CallRegister n) w w'"
| do_push: "PushModule repo n t fs w = (r, w') \<Longrightarrow> registry_step repo env (CallPush n t fs) w w'"
| do_pull: "PullModule repo n t w = (r, w') \<Longrightarrow> registry_step repo env (CallPull n t) w w'"
| do_push_draft: "PushDraftModule repo n t fs ds w = (r, w') \<Longrightarrow> registry_step repo env (CallPushDraft n t fs ds) w w'"
| do_pull_draft: "PullDraftModule repo n t w = (r, w') \<Longrightarrow> registry_step repo env (CallPullDraft n t) w w'"
| do_delete_tag: "DeleteModuleTag repo n t w = (r, w') \<Longrightarrow> registry_step repo env (CallDeleteTag n t) w w'"
| do_delete: "DeleteModule repo n w = (r, w') \<Longrightarrow> registry_step repo env (CallDelete n) w w'"
| do_get: "GetModule repo n w = (r, w') \<Longrightarrow> registry_step repo env (CallGet n) w w'"
| do_list: "safe_token tok \<Longrightarrow> ListModules repo k tok w = (r, w') \<Longrightarrow> registry_step repo env (CallList k tok) w w'"
| do_tag_id: "GetModuleTagId repo n t w = (r, w') \<Longrightarrow> registry_step repo env (CallGetTagId n t) w w'"
| do_add_deps: "AddModuleDependencies repo n t ds w = (r, w') \<Longrightarrow> registry_step repo env (CallAddDeps n t ds) w w'"
| do_get_deps: "GetModuleDependencies repo n t w = (r, w') \<Longrightarrow> registry_step repo env (CallGetDeps n t) w w'"
| do_transitive: "GetTransitiveDependencies repo n t w = (r, w') \<Longrightarrow> registry_step repo env (CallTransitive n t) w w'"
| do_obsolete: "DeleteObsoleteDraftTags repo w = (r, w') \<Longrightarrow> registry_step repo env CallDeleteObsolete w w'"
| do_environment: "env w w' \<Longrightarrow> registry_step repo env Environment w w'"

inductive registry_run ::
  "'w RegistryRepository \<Rightarrow> ('w \<Rightarrow> 'w \<Rightarrow> bool) \<Rightarrow> registry_call list \<Rightarrow> 'w \<Rightarrow> 'w \<Rightarrow> bool" for repo env where
  run_Nil: "registry_run repo env [] w w"
| run_Cons: "registry_step repo env c w w1 \<Longrightarrow> registry_run repo env cs w1 w2 \<Longrightarrow> registry_run repo env (c # cs) w w2"

fun deletes :: "registry_call \<Rightarrow> string \<Rightarrow> string \<Rightarrow> bool" where
  "deletes (CallDelete n') n t \<longleftrightarrow> n' = n"
| "deletes (CallDeleteTag n' t') n t \<longleftrightarrow> n' = n \<and> t' = t"
| "deletes _ n t \<longleftrightarrow> False"

locale registry_repository =
  fixes repo :: "'w RegistryRepository"
    and ok :: "'w \<Rightarrow> bool"
    and cont :: "'w \<Rightarrow> registry"
    and env :: "'w \<Rightarrow> 'w \<Rightarrow> bool"
  assumes register: "ok w \<Longrightarrow> RegisterModule repo n w = (r, w') \<Longrightarrow>
      ok w' \<and> (case r of Inl e \<Rightarrow> cont w' = cont w
        | Inr _ \<Rightarrow> cont w' = (if cont w n = None then (cont w)(n \<mapsto> Map.empty) else cont w))"
    and push: "ok w \<Longrightarrow> PushModule repo n t fs w = (rm, w') \<Longrightarrow>
      ok w' \<and> (case rm of Inl e \<Rightarrow> cont w' = cont w
        | Inr m \<Rightarrow> \<exists>ts. cont w n = Some ts \<and> ts t = None \<and> distinct (map pf_Filename fs) \<and>
                        cont w' = (cont w)(n \<mapsto> ts(t \<mapsto> files_map fs)))"
    and pull: "ok w \<Longrightarrow> PullModule repo n t w = (rf, w') \<Longrightarrow>
      ok w' \<and> cont w' = cont w \<and>
        (case rf of Inl e \<Rightarrow> True | Inr (m, fs) \<Rightarrow> \<exists>ts x. cont w n = Some ts \<and> ts t = Some x \<and> files_map fs \<subseteq>\<^sub>m x)"
    and delete_tag: "ok w \<Longrightarrow> DeleteModuleTag repo n t w = (r, w') \<Longrightarrow>
      ok w' \<and> (case r of Inl e \<Rightarrow> cont w' = cont w \<or>
                   (\<exists>ts. cont w n = Some ts \<and> ts t \<noteq> None \<and> cont w' = (cont w)(n \<mapsto> ts(t \<mapsto> Map.empty)))
        | Inr _ \<Rightarrow> \<exists>ts. cont w n = Some ts \<and> ts t \<noteq> None \<and> cont w' = (cont w)(n \<mapsto> ts(t := None)))"
    and delete: "ok w \<Longrightarrow> DeleteModule repo n w = (r, w') \<Longrightarrow>
      ok w' \<and> (case r of Inl e \<Rightarrow> \<exists>x. cont w' = (cont w)(n := x)
        | Inr _ \<Rightarrow> cont w n \<noteq> None \<and> cont w' = (cont w)(n := None))"
    and frame:
      "ok w \<Longrightarrow> GetModule repo n w = (r1, w') \<Longrightarrow> ok w' \<and> cont w' = cont w"
      "ok w \<Longrightarrow> safe_token tok \<Longrightarrow> ListModules repo k tok w = (r2, w') \<Longrightarrow> ok w' \<and> cont w' = cont w"
      "ok w \<Longrightarrow> PushDraftModule repo n t fs ds w = (r3, w') \<Longrightarrow> ok w' \<and> cont w' = cont w"
      "ok w \<Longrightarrow> PullDraftModule repo n t w = (r4, w') \<Longrightarrow> ok w' \<and> cont w' = cont w"
      "ok w \<Longrightarrow> GetModuleTagId repo n t w = (r5, w') \<Longrightarrow> ok w' \<and> cont w' = cont w"
      "ok w \<Longrightarrow> AddModuleDependencies repo n t ds w = (r6, w') \<Longrightarrow> ok w' \<and> cont w' = cont w"
      "ok w \<Longrightarrow> GetModuleDependencies repo n t w = (r7, w') \<Longrightarrow> ok w' \<and> cont w' = cont w"
      "ok w \<Longrightarrow> GetTransitiveDependencies repo n t w = (r8, w') \<Longrightarrow> ok w' \<and> cont w' = cont w"
      "ok w \<Longrightarrow> DeleteObsoleteDraftTags repo w = (r9, w') \<Longrightarrow> ok w' \<and> cont w' = cont w"
      "ok w \<Longrightarrow> env w w' \<Longrightarrow> ok w' \<and> cont w' = cont w"
begin

lemma step_ok: "registry_step repo env c w w' \<Longrightarrow> ok w \<Longrightarrow> ok w'"
  by (induction rule: registry_step.induct)
     (blast dest: register push pull delete_tag delete frame)+

lemma run_ok: "registry_run repo env cs w w' \<Longrightarrow> ok w \<Longrightarrow> ok w'"
  by (induction rule: registry_run.induct) (auto dest: step_ok)

text \<open>No call but a delete of it changes a tag that is there.\<close>

lemma step_keeps_tag:
  assumes "registry_step repo env c w w'" and "ok w" and "cont w n = Some ts" and "ts t = Some fs" and "\<not> deletes c n t"
  shows "\<exists>ts'. cont w' n = Some ts' \<and> ts' t = Some fs"
  using assms
proof (induction rule: registry_step.induct)
  case (do_register n' w r w') with register [of w n' r w'] show ?case by (auto split: sum.splits if_splits)
next
  case (do_push n' t' gs w r w') with push [of w n' t' gs r w'] show ?case by (auto split: sum.splits if_splits)
next
  case (do_pull n' t' w r w') with pull [of w n' t' r w'] show ?case by auto
next
  case (do_delete_tag n' t' w r w') with delete_tag [of w n' t' r w'] show ?case by (auto split: sum.splits)
next
  case (do_delete n' w r w') with delete [of w n' r w'] show ?case by (auto split: sum.splits)
next
  case (do_list tok k w r w') with frame(2) [of w tok k r w'] show ?case by auto
qed (drule (1) frame, simp)+

lemma run_keeps_tag:
  assumes "registry_run repo env cs w w'" and "ok w" and "cont w n = Some ts" and "ts t = Some fs"
    and "\<forall>c\<in>set cs. \<not> deletes c n t"
  shows "\<exists>ts'. cont w' n = Some ts' \<and> ts' t = Some fs"
  using assms
proof (induction arbitrary: ts rule: registry_run.induct)
  case (run_Cons c w w1 cs w2)
  then show ?case using step_keeps_tag [OF run_Cons.hyps(1)] step_ok [OF run_Cons.hyps(1)] by fastforce
qed auto

text \<open>What is pushed stays, and a later pull returns nothing else.\<close>

lemma pushed_after_run:
  assumes "ok w" and "PushModule repo n t fs w = (Inr m, w1)" and "registry_run repo env cs w1 w2"
    and "\<forall>c\<in>set cs. \<not> deletes c n t"
  shows "ok w2 \<and> (\<exists>ts. cont w2 n = Some ts \<and> ts t = Some (files_map fs))"
proof -
  from push [OF assms(1,2)] have "ok w1" "\<exists>ts. cont w1 n = Some ts \<and> ts t = Some (files_map fs)" by auto
  with run_keeps_tag [OF assms(3)] run_ok [OF assms(3)] assms(4) show ?thesis by blast
qed

lemma pull_after_run:
  assumes "ok w" and "PushModule repo n t fs w = (Inr m, w1)" and "registry_run repo env cs w1 w2"
    and "\<forall>c\<in>set cs. \<not> deletes c n t" and "PullModule repo n t w2 = (Inr (m', gs), w3)"
  shows "files_map gs \<subseteq>\<^sub>m files_map fs"
  using pushed_after_run [OF assms(1-4)] pull [OF _ assms(5)] by auto

lemma no_second_push:
  assumes "ok w" and "PushModule repo n t fs w = (Inr m, w1)" and "PushModule repo n t gs w1 = (r, w2)"
  shows "\<exists>e. r = Inl e \<and> cont w2 = cont w1"
  using push [OF assms(1,2)] push [OF _ assms(3)] by (auto split: sum.splits)

end

text \<open>A repository whose database answers also succeeds whenever the contract allows it.\<close>

locale live_registry_repository = registry_repository repo ok cont env
  for repo :: "'w RegistryRepository" and ok cont env +
  fixes healthy :: "'w \<Rightarrow> bool"
  assumes push_live: "ok w \<Longrightarrow> healthy w \<Longrightarrow> cont w n = Some ts \<Longrightarrow> ts t = None \<Longrightarrow> distinct (map pf_Filename fs) \<Longrightarrow>
      \<exists>m w'. PushModule repo n t fs w = (Inr m, w') \<and> healthy w'"
    and pull_live: "ok w \<Longrightarrow> healthy w \<Longrightarrow> cont w n = Some ts \<Longrightarrow> ts t = Some x \<Longrightarrow>
      \<exists>m fs w'. PullModule repo n t w = (Inr (m, fs), w') \<and> files_map fs = x \<and> healthy w'"
    and register_live: "ok w \<Longrightarrow> healthy w \<Longrightarrow> \<exists>w'. RegisterModule repo n w = (Inr (), w') \<and> healthy w'"
begin

lemma push_iff:
  assumes "ok w" and "healthy w"
  shows "(\<exists>m w'. PushModule repo n t fs w = (Inr m, w')) \<longleftrightarrow>
     (\<exists>ts. cont w n = Some ts \<and> ts t = None) \<and> distinct (map pf_Filename fs)" (is "?run \<longleftrightarrow> ?can")
proof
  assume ?run
  then obtain m w' where "PushModule repo n t fs w = (Inr m, w')" by blast
  from push [OF assms(1) this] show ?can by auto
next
  assume ?can
  with push_live [OF assms] show ?run by blast
qed

lemma pull_iff:
  assumes "ok w" and "healthy w"
  shows "(\<exists>m fs w'. PullModule repo n t w = (Inr (m, fs), w')) \<longleftrightarrow> (\<exists>ts. cont w n = Some ts \<and> ts t \<noteq> None)"
    (is "?run \<longleftrightarrow> ?can")
proof
  assume ?run
  then obtain m fs w' where "PullModule repo n t w = (Inr (m, fs), w')" by blast
  from pull [OF assms(1) this] show ?can by auto
next
  assume ?can
  with pull_live [OF assms] show ?run by blast
qed

lemma healthy_pull_after_run:
  assumes "ok w" and "PushModule repo n t fs w = (Inr m, w1)" and "registry_run repo env cs w1 w2"
    and "\<forall>c\<in>set cs. \<not> deletes c n t" and "healthy w2"
  shows "\<exists>m' gs w3. PullModule repo n t w2 = (Inr (m', gs), w3) \<and> files_map gs = files_map fs"
  using pushed_after_run [OF assms(1-4)] pull_live [OF _ assms(5)] by blast

lemma push_then_pull:
  assumes "ok w" and "healthy w" and "cont w n = Some ts" and "ts t = None" and "distinct (map pf_Filename fs)"
  shows "\<exists>m w1 m' gs w2. PushModule repo n t fs w = (Inr m, w1) \<and> PullModule repo n t w1 = (Inr (m', gs), w2) \<and>
     files_map gs = files_map fs"
proof -
  obtain m w1 where p: "PushModule repo n t fs w = (Inr m, w1)" "healthy w1"
    using push_live [OF assms] by blast
  with healthy_pull_after_run [OF assms(1) p(1) run_Nil] show ?thesis by auto
qed

end

end
