(* ===== verification/RegistryLaws.thy ===== *)
theory RegistryLaws
  imports RegistrySpec
begin

text \<open>
  Both backends keep the contract of \<open>registry_repository\<close>, under every fault schedule.  First
  what the statements do to the abstract registry, then one lemma per method, then the two
  interpretations.
\<close>

section \<open>The tables and the abstract registry\<close>

lemma schema_uniqueD:
  assumes "schema_ok d"
  shows "m \<in> set (modules d) \<Longrightarrow> m' \<in> set (modules d) \<Longrightarrow> m_id m = m_id m' \<Longrightarrow> m = m'"
    and "m \<in> set (modules d) \<Longrightarrow> m' \<in> set (modules d) \<Longrightarrow> m_name m = m_name m' \<Longrightarrow> m = m'"
    and "r \<in> set (tags d) \<Longrightarrow> r' \<in> set (tags d) \<Longrightarrow> t_id r = t_id r' \<Longrightarrow> r = r'"
  using assms distinct_map_inj_on [of m_id "modules d"] distinct_map_inj_on [of m_name "modules d"]
    distinct_map_inj_on [of t_id "tags d"] by (simp_all add: schema_ok_def)

lemma module_id_of_iff:
  assumes "schema_ok d"
  shows "module_id_of d n = Some i \<longleftrightarrow> (\<exists>m\<in>set (modules d). m_name m = n \<and> m_id m = i)"
proof -
  have "distinct (map m_name (modules d))" using assms by (simp add: schema_ok_def)
  note dist = distinct_map_inj_on [OF this]
  from filter_unique_case [OF \<open>distinct (map m_name (modules d))\<close>, of n] show ?thesis
  proof
    assume none: "filter (\<lambda>m. m_name m = n) (modules d) = []"
    then show ?thesis by (simp add: module_id_of_def) (auto simp: filter_empty_conv)
  next
    assume "\<exists>x. filter (\<lambda>m. m_name m = n) (modules d) = [x] \<and> x \<in> set (modules d) \<and> m_name x = n"
    then obtain x where x: "filter (\<lambda>m. m_name m = n) (modules d) = [x]" "x \<in> set (modules d)" "m_name x = n" by blast
    then show ?thesis by (simp add: module_id_of_def) (metis dist)
  qed
qed

lemma module_id_of_None: "module_id_of d n = None \<longleftrightarrow> n \<notin> m_name ` set (modules d)"
proof -
  have "module_id_of d n = None \<longleftrightarrow> filter (\<lambda>m. m_name m = n) (modules d) = []"
    by (simp add: module_id_of_def split: list.splits)
  then show ?thesis by (auto simp: filter_empty_conv)
qed

lemma module_id_of_inj:
  assumes "schema_ok d" and "module_id_of d n = Some i" and "module_id_of d n' = Some i"
  shows "n' = n"
  using assms unfolding module_id_of_iff [OF assms(1)]
  by (metis (no_types, lifting) distinct_map_inj_on schema_ok_def)

lemma tag_at_iff:
  assumes "schema_ok d"
  shows "tag_at d n t = Some i \<longleftrightarrow>
     (\<exists>r\<in>set (tags d). Some (t_module_id r) = module_id_of d n \<and> t_tag r = t \<and> t_id r = i)"
proof -
  have dist: "distinct (map (\<lambda>t. (t_module_id t, t_tag t)) (tags d))" using assms by (simp add: schema_ok_def)
  show ?thesis
  proof (cases "module_id_of d n")
    case None
    then show ?thesis by (simp add: tag_at_def)
  next
    case (Some mid)
    have eq: "filter (\<lambda>r. Some (t_module_id r) = module_id_of d n \<and> t_tag r = t) (tags d) =
        filter (\<lambda>r. (t_module_id r, t_tag r) = (mid, t)) (tags d)" by (simp add: Some)
    show ?thesis
    proof (cases "filter (\<lambda>r. (t_module_id r, t_tag r) = (mid, t)) (tags d)")
      case Nil
      then show ?thesis using Some by (auto simp: tag_at_def filter_empty_conv)
    next
      case (Cons r rs)
      then obtain "r \<in> set (tags d)" "t_module_id r = mid" "t_tag r = t"
        by (auto simp: filter_eq_Cons_iff)
      then show ?thesis using Cons Some distinct_map_inj_on [OF dist] unfolding tag_at_def eq
        by fastforce
    qed
  qed
qed

lemma tag_at_None:
  assumes "schema_ok d"
  shows "tag_at d n t = None \<longleftrightarrow> (\<forall>r\<in>set (tags d). Some (t_module_id r) = module_id_of d n \<longrightarrow> t_tag r \<noteq> t)"
  using tag_at_iff [OF assms, of n t] by (cases "tag_at d n t") auto

lemma tag_at_cong:
  "tags d' = tags d \<Longrightarrow> module_id_of d' n = module_id_of d n \<Longrightarrow> tag_at d' n t = tag_at d n t"
  by (simp add: tag_at_def)

lemma contents_cong:
  "modules d' = modules d \<Longrightarrow> tags d' = tags d \<Longrightarrow> protofiles d' = protofiles d \<Longrightarrow> contents d' = contents d"
  by (intro ext) (simp add: contents_def tag_files_def [abs_def] tag_at_def module_id_of_def split: option.splits)

lemma contents_None: "contents d n = None \<longleftrightarrow> module_id_of d n = None"
  by (simp add: contents_def split: option.splits)

lemma contents_Some:
  "contents d n = Some ts \<longleftrightarrow> module_id_of d n \<noteq> None \<and> ts = (\<lambda>t. map_option (tag_files d) (tag_at d n t))"
  by (auto simp: contents_def split: option.splits)

text \<open>A new module has no tags, because its identifier is fresh.\<close>

lemma contents_insert_module:
  assumes ok: "registry_ok d" and new: "n \<notin> m_name ` set (modules d)" "i \<notin> m_id ` set (modules d)"
  shows "contents (d\<lparr>modules := modules d @ [\<lparr>m_id = i, m_name = n\<rparr>]\<rparr>) = (contents d)(n \<mapsto> Map.empty)"
    (is "contents ?d' = _")
proof
  fix n'
  have id': "module_id_of ?d' n' = (if n' = n then Some i else module_id_of d n')" for n'
  proof (cases "n' = n")
    case True
    have "filter (\<lambda>m. m_name m = n) (modules d) = []" using new(1) by (auto simp: filter_empty_conv)
    with True show ?thesis by (simp add: module_id_of_def)
  qed (simp add: module_id_of_def)
  have "tag_at ?d' n t = None" for t
  proof -
    have "t_module_id r \<noteq> i" if "r \<in> set (tags d)" for r
      using that ok new(2) unfolding registry_ok_def refs_ok_def by (metis imageI subsetD)
    then have "filter (\<lambda>r. Some (t_module_id r) = Some i \<and> t_tag r = t) (tags d) = []"
      by (simp add: filter_empty_conv)
    then show ?thesis by (simp add: tag_at_def id')
  qed
  moreover have "n' \<noteq> n \<Longrightarrow> tag_at ?d' n' t = tag_at d n' t" for t
    by (rule tag_at_cong) (simp_all add: id')
  ultimately show "contents ?d' n' = ((contents d)(n \<mapsto> Map.empty)) n'"
    by (simp add: contents_def id' tag_files_def [abs_def] split: option.splits)
qed

text \<open>A new tag with its files.\<close>

lemma tag_files_append:
  assumes "\<forall>p\<in>set (protofiles d). p_tag_id p \<noteq> i" and "\<forall>p\<in>set rows. p_tag_id p = i"
  shows "tag_files (d\<lparr>tags := ts, protofiles := protofiles d @ rows\<rparr>) j =
     (if j = i then map_of (map (\<lambda>p. (p_filename p, p_content p)) rows) else tag_files d j)"
proof (cases "j = i")
  case True
  with assms have "filter (\<lambda>p. p_tag_id p = j) (protofiles d) = []" "filter (\<lambda>p. p_tag_id p = j) rows = rows"
    by (auto simp: filter_empty_conv filter_id_conv)
  with True show ?thesis by (simp add: tag_files_def)
next
  case False
  with assms(2) have "filter (\<lambda>p. p_tag_id p = j) rows = []" by (auto simp: filter_empty_conv)
  with False show ?thesis by (simp add: tag_files_def)
qed

lemma contents_insert_tag:
  assumes ok: "registry_ok d" and m: "module_id_of d n = Some mid"
    and new: "tag_at d n t = None" "t_id r \<notin> t_id ` set (tags d)" "t_module_id r = mid" "t_tag r = t"
    and rows: "\<forall>p\<in>set rows. p_tag_id p = t_id r"
      "map (\<lambda>p. (p_filename p, p_content p)) rows = map (\<lambda>f. (pf_Filename f, pf_Content f)) fs"
  shows "contents (d\<lparr>tags := tags d @ [r], protofiles := protofiles d @ rows\<rparr>) =
     (contents d)(n \<mapsto> (the (contents d n))(t \<mapsto> files_map fs))" (is "contents ?d' = _")
proof
  fix n'
  have id': "module_id_of ?d' n' = module_id_of d n'" for n' by (simp add: module_id_of_def)
  have schema: "schema_ok d" using ok by (simp add: registry_ok_def)
  have fresh: "\<forall>p\<in>set (protofiles d). p_tag_id p \<noteq> t_id r"
    using ok new(2) unfolding registry_ok_def refs_ok_def by (metis imageI subsetD)
  note files = tag_files_append [OF fresh rows(1), of "tags d @ [r]"]
  have old: "tag_at d n' t' \<noteq> Some (t_id r)" for n' t'
    using new(2) unfolding tag_at_iff [OF schema] by (metis imageI)
  have tag': "tag_at ?d' n' t' = (if n' = n \<and> t' = t then Some (t_id r) else tag_at d n' t')" for t'
  proof (cases "n' = n")
    case True
    then show ?thesis using new(1,3,4) m
      by (auto simp: tag_at_def id' split: list.splits)
  next
    case False
    then have "module_id_of d n' \<noteq> Some mid" using module_id_of_inj [OF schema m] by auto
    then show ?thesis using False new(3) by (auto simp: tag_at_def id')
  qed
  show "contents ?d' n' = ((contents d)(n \<mapsto> (the (contents d n))(t \<mapsto> files_map fs))) n'"
  proof (cases "module_id_of d n'")
    case None
    then show ?thesis using m by (auto simp: contents_def id')
  next
    case (Some mid')
    have other: "map_option (tag_files ?d') (tag_at d n' t') = map_option (tag_files d) (tag_at d n' t')" for t'
      using old [of n' t'] by (cases "tag_at d n' t'") (auto simp: files)
    show ?thesis
      using Some m other files rows(2) by (auto simp: contents_def id' tag' files_map_def fun_eq_iff)
  qed
qed

text \<open>Deleting the files of a tag, then the tag.\<close>

lemma contents_delete_tag:
  assumes ok: "schema_ok d" and tid: "tag_at d n t = Some i"
    and same: "modules d' = modules d" "protofiles d' = filter (\<lambda>p. p_tag_id p \<noteq> i) (protofiles d)"
    and tags': "tags d' = (if gone then filter (\<lambda>r. t_id r \<noteq> i) (tags d) else tags d)"
  shows "contents d' = (contents d)(n \<mapsto> (the (contents d n))(t := (if gone then None else Some Map.empty)))"
proof
  fix n'
  have id': "module_id_of d' n' = module_id_of d n'" for n' by (simp add: module_id_of_def same)
  obtain r where r: "r \<in> set (tags d)" "Some (t_module_id r) = module_id_of d n" "t_tag r = t" "t_id r = i"
    using tid unfolding tag_at_iff [OF ok] by blast
  have only: "tag_at d n' t' = Some i \<longleftrightarrow> n' = n \<and> t' = t" for n' t'
  proof
    assume "tag_at d n' t' = Some i"
    then obtain r' where r': "r' \<in> set (tags d)" "Some (t_module_id r') = module_id_of d n'" "t_tag r' = t'" "t_id r' = i"
      unfolding tag_at_iff [OF ok] by blast
    then have "r' = r" using r by (intro schema_uniqueD(3) [OF ok]) simp_all
    then show "n' = n \<and> t' = t" using r r' module_id_of_inj [OF ok] by metis
  qed (simp add: tid)
  have ok': "gone \<Longrightarrow> schema_ok (d\<lparr>tags := filter (\<lambda>r. t_id r \<noteq> i) (tags d)\<rparr>)"
    using ok by (simp add: schema_ok_def)
  have tag': "tag_at d' n' t' = (if gone \<and> tag_at d n' t' = Some i then None else tag_at d n' t')" for n' t'
  proof (cases gone)
    case True
    have "tag_at d' n' t' = tag_at (d\<lparr>tags := filter (\<lambda>r. t_id r \<noteq> i) (tags d)\<rparr>) n' t'"
      using True by (simp add: tag_at_def tags' id') (simp add: module_id_of_def)
    moreover have "tag_at (d\<lparr>tags := filter (\<lambda>r. t_id r \<noteq> i) (tags d)\<rparr>) n' t' = Some j \<longleftrightarrow>
        tag_at d n' t' = Some j \<and> j \<noteq> i" for j
      unfolding tag_at_iff [OF ok' [OF True]] tag_at_iff [OF ok] by (auto simp: module_id_of_def)
    ultimately show ?thesis using True by (metis not_Some_eq)
  qed (simp add: tag_at_def tags' id')
  have files: "tag_files d' j = (if j = i then Map.empty else tag_files d j)" for j
    by (simp add: tag_files_def same) (metis (mono_tags, lifting) filter_cong)
  have n: "module_id_of d n \<noteq> None" using r(2) by (metis option.distinct(1))
  have other: "map_option (tag_files d') (tag_at d' n' t') =
      (if n' = n \<and> t' = t then (if gone then None else Some Map.empty) else map_option (tag_files d) (tag_at d n' t'))" for n' t'
    using only [of n' t'] by (cases "tag_at d n' t'") (auto simp: tag' files)
  show "contents d' n' = ((contents d)(n \<mapsto> (the (contents d n))(t := (if gone then None else Some Map.empty)))) n'"
    using n by (auto simp: contents_def id' other fun_eq_iff split: option.splits)
qed

text \<open>Deleting from a module leaves the other modules alone.\<close>

definition others :: "string \<Rightarrow> ('h, 't) db \<Rightarrow> ('h, 't) db \<Rightarrow> bool" where
  "others n d d' \<longleftrightarrow> (\<forall>n'. n' \<noteq> n \<longrightarrow> contents d' n' = contents d n')"

lemma others_trans: "others n d d' \<Longrightarrow> others n d' d'' \<Longrightarrow> others n d d''"
  by (simp add: others_def)

lemma othersI:
  assumes ok: "schema_ok d"
    and mods: "\<And>n'. n' \<noteq> n \<Longrightarrow> module_id_of d' n' = module_id_of d n'"
    and tgs: "filter (\<lambda>t. Some (t_module_id t) \<noteq> module_id_of d n) (tags d') =
               filter (\<lambda>t. Some (t_module_id t) \<noteq> module_id_of d n) (tags d)"
    and pfs: "filter (\<lambda>p. p_tag_id p \<notin> set (tag_ids_of d n)) (protofiles d') =
               filter (\<lambda>p. p_tag_id p \<notin> set (tag_ids_of d n)) (protofiles d)"
  shows "others n d d'"
  unfolding others_def
proof (intro allI impI)
  fix n' assume ne: "n' \<noteq> n"
  show "contents d' n' = contents d n'"
  proof (cases "module_id_of d n'")
    case None
    then show ?thesis using mods [OF ne] by (simp add: contents_def)
  next
    case (Some mid)
    then have diff: "Some mid \<noteq> module_id_of d n" using module_id_of_inj [OF ok, of n' mid n] ne by metis
    then have tag_filter: "filter (\<lambda>t. Some (t_module_id t) = Some mid \<and> t_tag t = tag) xs =
        filter (\<lambda>t. Some (t_module_id t) = Some mid \<and> t_tag t = tag)
          (filter (\<lambda>t. Some (t_module_id t) \<noteq> module_id_of d n) xs)" for tag and xs :: "'b tag_row list"
      unfolding filter_filter by (intro filter_cong [OF refl]) auto
    have tag': "tag_at d' n' tag = tag_at d n' tag" for tag
      unfolding tag_at_def mods [OF ne] Some
      by (subst (1 2) tag_filter) (simp only: tgs)
    have "tag_files d' i = tag_files d i" if at: "tag_at d n' tag = Some i" for tag i
    proof -
      obtain r where r: "r \<in> set (tags d)" "t_module_id r = mid" "t_id r = i"
        using at Some tag_at_iff [OF ok, of n' tag i] by (metis option.inject)
      then have "i \<notin> set (tag_ids_of d n)"
        using diff unfolding tag_ids_of_def by (auto dest: schema_uniqueD(3) [OF ok])
      then have split: "filter (\<lambda>p. p_tag_id p = i) xs =
          filter (\<lambda>p. p_tag_id p = i) (filter (\<lambda>p. p_tag_id p \<notin> set (tag_ids_of d n)) xs)"
        for xs :: "'a protofile_row list" unfolding filter_filter by (intro filter_cong [OF refl]) auto
      have "filter (\<lambda>p. p_tag_id p = i) (protofiles d') = filter (\<lambda>p. p_tag_id p = i) (protofiles d)"
        by (subst (1 2) split) (simp only: pfs)
      then show ?thesis by (simp only: tag_files_def)
    qed
    then have "map_option (tag_files d') (tag_at d' n' tag) = map_option (tag_files d) (tag_at d n' tag)" for tag
      by (cases "tag_at d n' tag") (auto simp: tag')
    then show ?thesis using mods [OF ne] Some by (simp add: contents_def)
  qed
qed

section \<open>The invariant\<close>

lemma inv_called [simp]: "reg_inv (called w) = reg_inv w"
  by (simp add: reg_inv_def uuids_ok_def)

lemma fresh_uuid:
  assumes "uuids_ok w"
  shows "uuid_gen w (uuid_next w) \<notin> db_ids (store w)" and "uuid_gen w (uuid_next w) \<noteq> []"
  using assms unfolding uuids_ok_def by (auto dest: injD)

lemma uuids_ok_step:
  assumes "uuids_ok w" and "db_ids d \<subseteq> insert (uuid_gen w (uuid_next w)) (db_ids (store w))"
  shows "uuids_ok (w\<lparr>uuid_next := Suc (uuid_next w), store := d\<rparr>)"
  using assms unfolding uuids_ok_def by (auto simp: lessThan_Suc)

lemma uuids_ok_shrink:
  "uuids_ok w \<Longrightarrow> db_ids d \<subseteq> db_ids (store w) \<Longrightarrow> uuids_ok (w\<lparr>store := d\<rparr>)"
  unfolding uuids_ok_def by auto

lemma uuids_ok_next [simp]: "uuids_ok w \<Longrightarrow> uuids_ok (w\<lparr>uuid_next := Suc (uuid_next w)\<rparr>)"
  by (auto simp: uuids_ok_def)

lemma uuids_ok_called [simp]: "uuids_ok (called w) = uuids_ok w"
  by (simp add: uuids_ok_def)

text \<open>A computation that fails inside a transaction may still have used up identifiers.\<close>

definition later :: "('h, 't) world \<Rightarrow> ('h, 't) world \<Rightarrow> bool" where
  "later w w' \<longleftrightarrow> uuid_gen w' = uuid_gen w \<and> uuid_next w \<le> uuid_next w'"

lemma uuids_ok_later: "uuids_ok w \<Longrightarrow> later w w' \<Longrightarrow> uuids_ok (w'\<lparr>store := store w\<rparr>)"
  unfolding uuids_ok_def later_def by (auto; fastforce)

lemma inv_later: "reg_inv w \<Longrightarrow> later w w' \<Longrightarrow> store w' = store w \<Longrightarrow> reg_inv w'"
  using uuids_ok_later [of w w'] by (simp add: reg_inv_def uuids_ok_def)

lemma inv_reads:
  assumes "reads m" and "reg_inv w" and "m w = (r, w')"
  shows "reg_inv w' \<and> store w' = store w"
proof -
  have "w' = w\<lparr>faults := faults w'\<rparr>" using assms(1,3) unfolding reads_def by (metis snd_conv)
  then obtain fs where "w' = w\<lparr>faults := fs\<rparr>" by blast
  then show ?thesis using assms(2) by (simp add: reg_inv_def uuids_ok_def)
qed

lemma inv_tag_nonempty: "reg_inv w \<Longrightarrow> tag_at (store w) n t = Some i \<Longrightarrow> i \<noteq> []"
  unfolding reg_inv_def registry_ok_def uuids_ok_def
  by (auto simp: tag_at_iff db_ids_def)

section \<open>The reading methods\<close>

lemma GetModule_wp:
  assumes "\<And>e fs. Q (Inl e) (w\<lparr>faults := fs\<rparr>)"
    and "\<And>fs. module_id_of (store w) n = None \<Longrightarrow> Q (Inr None) (w\<lparr>faults := fs\<rparr>)"
    and "\<And>m fs. module_id_of (store w) n = Some (mod_Id m) \<Longrightarrow> mod_Name m = n \<Longrightarrow> Q (Inr (Some m)) (w\<lparr>faults := fs\<rparr>)"
  shows "wp (pg_GetModule n) Q w"
  unfolding pg_GetModule_def Let_def
  using assms
  by (auto simp: wp_simps called_def module_id_of_def filter_eq_Cons_iff split: list.splits sum.splits)

lemma GetModuleTagId_wp:
  assumes "\<And>e fs. Q (Inl e) (w\<lparr>faults := fs\<rparr>)"
    and "\<And>fs. tag_at (store w) n t = None \<Longrightarrow> Q (Inr []) (w\<lparr>faults := fs\<rparr>)"
    and "\<And>i fs. tag_at (store w) n t = Some i \<Longrightarrow> Q (Inr i) (w\<lparr>faults := fs\<rparr>)"
  shows "wp (pg_GetModuleTagId n t) Q w"
  unfolding pg_GetModuleTagId_def using assms
  by (auto simp: wp_simps called_def tag_at_def split: list.splits sum.splits)

section \<open>Pushing\<close>

text \<open>The rows a push adds, with the identifiers the supply hands out in turn.\<close>

fun file_rows :: "'h \<Rightarrow> (nat \<Rightarrow> uuid) \<Rightarrow> nat \<Rightarrow> uuid \<Rightarrow> ProtoFile list \<Rightarrow> 'h protofile_row list" where
  "file_rows h gen n tid [] = []"
| "file_rows h gen n tid (f # fs) =
     \<lparr>p_id = gen n, p_tag_id = tid, p_filename = pf_Filename f, p_content = pf_Content f, p_content_hash = h\<rparr>
     # file_rows h gen (Suc n) tid fs"

definition push_file :: "'h \<Rightarrow> uuid \<Rightarrow> ProtoFile \<Rightarrow> (('h, 't) world, unit) go" where
  "push_file h tagId f =
     bindE newUUID (\<lambda>pid.
     wrapE ''could not insert protofile into database''
       (exec (insert_protofile \<lparr>p_id = pid, p_tag_id = tagId, p_filename = pf_Filename f,
          p_content = pf_Content f, p_content_hash = h\<rparr>)))"

lemma push_file_eqs: "pg_push_file = push_file None" "lite_push_file = push_file []"
  by (intro ext; simp only: pg_push_file_def lite_push_file_def push_file_def)+

lemma file_rows_snoc:
  "file_rows h gen n tid (fs @ [f]) = file_rows h gen n tid fs @
     [\<lparr>p_id = gen (n + length fs), p_tag_id = tid, p_filename = pf_Filename f, p_content = pf_Content f, p_content_hash = h\<rparr>]"
  by (induction fs arbitrary: n) simp_all

lemma file_rows_props:
  "p \<in> set (file_rows h gen n tid fs) \<Longrightarrow> p_tag_id p = tid"
  "map (\<lambda>p. (p_filename p, p_content p)) (file_rows h gen n tid fs) = map (\<lambda>f. (pf_Filename f, pf_Content f)) fs"
  "map p_filename (file_rows h gen n tid fs) = map pf_Filename fs"
  "p_id ` set (file_rows h gen n tid fs) = gen ` {n..<n + length fs}"
proof -
  show "p \<in> set (file_rows h gen n tid fs) \<Longrightarrow> p_tag_id p = tid"
    by (induction fs arbitrary: n) auto
  show "map (\<lambda>p. (p_filename p, p_content p)) (file_rows h gen n tid fs) = map (\<lambda>f. (pf_Filename f, pf_Content f)) fs"
    by (induction fs arbitrary: n) auto
  show "map p_filename (file_rows h gen n tid fs) = map pf_Filename fs"
    by (induction fs arbitrary: n) auto
  have "{n..<n + Suc k} = insert n {Suc n..<Suc n + k}" for n k by auto
  then show "p_id ` set (file_rows h gen n tid fs) = gen ` {n..<n + length fs}"
    by (induction fs arbitrary: n) auto
qed

text \<open>The loop over the files: all rows are there when it succeeds, and file names do not repeat.\<close>

lemma push_files_wp:
  assumes err: "\<And>e w'. later w w' \<Longrightarrow> Q (Inl e) w'"
    and fin: "\<And>w'. later w w' \<Longrightarrow> uuid_next w' = uuid_next w + length fs \<Longrightarrow> distinct (map pf_Filename fs) \<Longrightarrow>
       store w' = (store w)\<lparr>protofiles := protofiles (store w) @ file_rows h (uuid_gen w) (uuid_next w) tid fs\<rparr> \<Longrightarrow>
       schema_ok (store w) \<longrightarrow> schema_ok (store w') \<Longrightarrow> Q (Inr ()) w'"
  shows "wp (forE fs (push_file h tid)) Q w"
proof (rule wp_forE [where J = "\<lambda>pre w'. later w w' \<and> uuid_next w' = uuid_next w + length pre \<and>
     distinct (map pf_Filename pre) \<and> (schema_ok (store w) \<longrightarrow> schema_ok (store w')) \<and>
     store w' = (store w)\<lparr>protofiles := protofiles (store w) @ file_rows h (uuid_gen w) (uuid_next w) tid pre\<rparr>"],
     goal_cases)
  case 1
  then show ?case by (cases w) (simp add: later_def)
next
  case (2 pre f v)
  let ?p = "\<lparr>p_id = uuid_gen v (uuid_next v), p_tag_id = tid, p_filename = pf_Filename f,
          p_content = pf_Content f, p_content_hash = h\<rparr>"
  have later: "later w (called v\<lparr>uuid_next := Suc (uuid_next v)\<rparr>)" "later w (called (v\<lparr>uuid_next := Suc (uuid_next v)\<rparr>))"
    using 2 by (simp_all add: later_def)
  have names: "pf_Filename f \<notin> set (map pf_Filename pre)" if "\<not> clash (\<lambda>x. (p_tag_id x, p_filename x)) ?p (protofiles (store v))"
  proof
    assume "pf_Filename f \<in> set (map pf_Filename pre)"
    then obtain q where "q \<in> set (file_rows h (uuid_gen w) (uuid_next w) tid pre)" "p_filename q = pf_Filename f"
      by (metis (no_types, lifting) file_rows_props(3) imageE list.set_map)
    with that 2 show False by (auto dest: file_rows_props(1))
  qed
  show ?case
  proof (cases "insert_protofile ?p (store v)")
    case (Inl e)
    then show ?thesis using later err by (simp add: push_file_def wp_simps)
  next
    case (Inr y)
    then obtain d' where ins: "insert_protofile ?p (store v) = Inr ((), d')" by (cases y) auto
    then have d': "d' = (store v)\<lparr>protofiles := protofiles (store v) @ [?p]\<rparr>"
      and nc: "\<not> clash (\<lambda>x. (p_tag_id x, p_filename x)) ?p (protofiles (store v))"
      by (auto simp: insert_protofile_def split: if_splits)
    have "uuid_gen v = uuid_gen w" using 2 by (simp add: later_def)
    then show ?thesis using later err ins 2 names [OF nc] keeps_execD [OF keeps_schema_inserts(3) _ ins]
      by (auto simp: push_file_def wp_simps later_def d' file_rows_snoc)
  qed
next
  case (3 v)
  then show ?case using fin by blast
qed

definition new_tag :: "'t \<Rightarrow> ('h, 't) world \<Rightarrow> uuid \<Rightarrow> string \<Rightarrow> 't tag_row" where
  "new_tag ts w mid t = \<lparr>t_id = uuid_gen w (uuid_next w), t_module_id = mid, t_tag = t, t_updated_at = ts, t_is_processed = False\<rparr>"

definition pushed :: "'h \<Rightarrow> 't \<Rightarrow> ('h, 't) world \<Rightarrow> uuid \<Rightarrow> string \<Rightarrow> ProtoFile list \<Rightarrow> ('h, 't) db" where
  "pushed h ts w mid t fs = (store w)\<lparr>tags := tags (store w) @ [new_tag ts w mid t],
     protofiles := protofiles (store w) @ file_rows h (uuid_gen w) (Suc (uuid_next w)) (uuid_gen w (uuid_next w)) fs\<rparr>"

text \<open>What a push guarantees: nothing happened, or the tag was new and it and its files are there.\<close>

definition push_result :: "'h \<Rightarrow> 't \<Rightarrow> ('h, 't) world \<Rightarrow> string \<Rightarrow> string \<Rightarrow> ProtoFile list \<Rightarrow> error + Module \<Rightarrow> ('h, 't) world \<Rightarrow> bool" where
  "push_result h ts w n t fs r w' \<longleftrightarrow> later w w' \<and> (case r of
       Inl e \<Rightarrow> store w' = store w
     | Inr m \<Rightarrow> \<exists>mid. module_id_of (store w) n = Some mid \<and>
         (mid, t) \<notin> (\<lambda>x. (t_module_id x, t_tag x)) ` set (tags (store w)) \<and>
         distinct (map pf_Filename fs) \<and> store w' = pushed h ts w mid t fs \<and>
         uuid_next w' = Suc (uuid_next w + length fs) \<and>
         (schema_ok (store w) \<longrightarrow> schema_ok (store w')))"

lemma push_result_faults [simp]: "push_result h ts (w\<lparr>faults := f\<rparr>) = push_result h ts w"
  by (intro ext) (simp add: push_result_def later_def pushed_def new_tag_def split: sum.splits)

text \<open>The transaction both backends run, with the \<open>SELECT\<close> that only one of them makes left open.\<close>

lemma push_tx_wp:
  assumes mid: "module_id_of (store w) n = Some mid"
    and rest: "\<And>v. later w v \<Longrightarrow> faults v = tl (tl (faults w)) \<Longrightarrow> uuid_next v = Suc (uuid_next w) \<Longrightarrow>
       store v = (store w)\<lparr>tags := tags (store w) @ [new_tag (stamp (clock w)) w mid t]\<rparr> \<Longrightarrow>
       (mid, t) \<notin> (\<lambda>x. (t_module_id x, t_tag x)) ` set (tags (store w)) \<Longrightarrow>
       wp (body (uuid_gen w (uuid_next w))) (\<lambda>r w'. later v w' \<and> (case r of Inl e \<Rightarrow> True | Inr _ \<Rightarrow>
         distinct (map pf_Filename fs) \<and> uuid_next w' = uuid_next v + length fs \<and>
         store w' = (store v)\<lparr>protofiles := protofiles (store v) @ file_rows h (uuid_gen v) (uuid_next v) (uuid_gen w (uuid_next w)) fs\<rparr> \<and>
         (schema_ok (store v) \<longrightarrow> schema_ok (store w')))) v"
  shows "wp (bindE (inTx eb ec (bindE newUUID (\<lambda>newId. bindE now (\<lambda>ts.
       bindE (wrapE msg (exec (insert_tag \<lparr>t_id = newId, t_module_id = mid, t_tag = t, t_updated_at = stamp ts, t_is_processed = False\<rparr>)))
         (\<lambda>_. body newId))))) (\<lambda>_. ret m)) (push_result h (stamp (clock w)) w n t fs) w"
proof (cases "insert_tag (new_tag (stamp (clock w)) w mid t) (store w)")
  case (Inl e)
  then show ?thesis
    by (auto simp: wp_simps push_result_def later_def new_tag_def)
next
  case (Inr y)
  then have ins: "insert_tag (new_tag (stamp (clock w)) w mid t) (store w) = Inr ((), (store w)\<lparr>tags := tags (store w) @ [new_tag (stamp (clock w)) w mid t]\<rparr>)"
    and new: "(mid, t) \<notin> (\<lambda>x. (t_module_id x, t_tag x)) ` set (tags (store w))"
    by (auto simp: insert_tag_def new_tag_def split: if_splits)
  let ?v = "(called (called w\<lparr>uuid_next := Suc (uuid_next w)\<rparr>))\<lparr>store := (store w)\<lparr>tags := tags (store w) @ [new_tag (stamp (clock w)) w mid t]\<rparr>\<rparr>"
  have "schema_ok (store w) \<Longrightarrow> schema_ok (store ?v)"
    using keeps_execD [OF keeps_schema_inserts(2) _ ins] by simp
  then show ?thesis using rest [of ?v] ins new mid
    by (auto simp: wp_simps push_result_def later_def pushed_def new_tag_def elim!: wp_mono split: sum.splits)
qed

lemma pg_PushModule_wp: "wp (pg_PushModule n t fs) (push_result None (clock w) w n t fs) w"
  unfolding pg_PushModule_def wp_bindE wp_wrapE
proof (rule GetModule_wp, goal_cases)
  case (3 m f)
  have tx: "wp (bindE (inTx eb ec (bindE newUUID (\<lambda>newId. bindE now (\<lambda>ts.
        bindE (wrapE msg (exec (insert_tag \<lparr>t_id = newId, t_module_id = mod_Id m, t_tag = t, t_updated_at = ts, t_is_processed = False\<rparr>)))
         (\<lambda>_. bindE (wrapE msg' (queryRow (\<lambda>d. map t_id (filter (\<lambda>x. t_module_id x = mod_Id m \<and> t_tag x = t) (tags d)))))
           (\<lambda>tagId. forE fs (pg_push_file tagId)))))))
      (\<lambda>_. ret m')) (push_result None (clock (w\<lparr>faults := f\<rparr>)) (w\<lparr>faults := f\<rparr>) n t fs) (w\<lparr>faults := f\<rparr>)" for eb ec msg msg' m'
  proof (rule push_tx_wp [where stamp = "\<lambda>x. x"], goal_cases)
    case (2 v)
    let ?i = "uuid_gen w (uuid_next w)"
    have "filter (\<lambda>x. t_module_id x = mod_Id m \<and> t_tag x = t) (tags (store w)) = []"
      using 2(5) by (auto simp: filter_empty_conv image_iff)
    then have sel: "map t_id (filter (\<lambda>x. t_module_id x = mod_Id m \<and> t_tag x = t) (tags (store v))) = [?i]"
      using 2(4) by (simp add: new_tag_def)
    have trans: "later (called v) w' \<Longrightarrow> later v w'" for w' by (simp add: later_def)
    show ?case unfolding wp_bindE wp_wrapE wp_queryRow sel push_file_eqs
      by (auto simp: later_def intro!: push_files_wp [where w = "called v"] dest: trans)
  qed (use 3 in simp)
  show ?case using tx by (auto simp: wp_if wp_basic push_result_faults) (simp add: push_result_def later_def)
qed (auto simp: wp_simps push_result_def later_def)

lemma lite_PushModule_wp: "wp (lite_PushModule n t fs) (push_result [] (datetime (clock w)) w n t fs) w"
  unfolding lite_PushModule_def wp_bindE wp_wrapE lite_reads_eqs
proof (rule GetModule_wp, goal_cases)
  case (3 m f)
  have tx: "wp (bindE (inTx eb ec (bindE newUUID (\<lambda>newId. bindE now (\<lambda>ts.
        bindE (wrapE msg (exec (insert_tag \<lparr>t_id = newId, t_module_id = mod_Id m, t_tag = t, t_updated_at = datetime ts, t_is_processed = False\<rparr>)))
         (\<lambda>_. forE fs (lite_push_file newId))))))
      (\<lambda>_. ret m')) (push_result [] (datetime (clock (w\<lparr>faults := f\<rparr>))) (w\<lparr>faults := f\<rparr>) n t fs) (w\<lparr>faults := f\<rparr>)" for eb ec msg m'
    unfolding push_file_eqs
    by (rule push_tx_wp [where stamp = datetime]) (use 3 in \<open>auto simp: later_def intro!: push_files_wp\<close>)
  show ?case using tx by (auto simp: wp_if wp_basic push_result_faults) (simp add: push_result_def later_def)
qed (auto simp: wp_simps push_result_def later_def)

text \<open>What a push makes of the abstract registry.\<close>

lemma db_ids_pushed:
  "db_ids (pushed h ts w mid t fs) \<subseteq> db_ids (store w) \<union> uuid_gen w ` {uuid_next w..<Suc (uuid_next w + length fs)}"
  by (auto simp: db_ids_def pushed_def new_tag_def image_Un file_rows_props(4))

lemma push_result_law:
  assumes ok: "reg_inv w" and res: "push_result h ts w n t fs r w'"
  shows "reg_inv w' \<and> (case r of Inl e \<Rightarrow> contents (store w') = contents (store w)
        | Inr m \<Rightarrow> \<exists>tgs. contents (store w) n = Some tgs \<and> tgs t = None \<and> distinct (map pf_Filename fs) \<and>
                        contents (store w') = (contents (store w))(n \<mapsto> tgs(t \<mapsto> files_map fs)))"
proof (cases r)
  case (Inl e)
  with res inv_later [OF ok] show ?thesis by (simp add: push_result_def)
next
  case (Inr m)
  let ?i = "uuid_gen w (uuid_next w)"
  from Inr res obtain mid where mid: "module_id_of (store w) n = Some mid"
    and new: "(mid, t) \<notin> (\<lambda>x. (t_module_id x, t_tag x)) ` set (tags (store w))"
    and names: "distinct (map pf_Filename fs)" and st: "store w' = pushed h ts w mid t fs"
    and nxt: "uuid_next w' = Suc (uuid_next w + length fs)" and later: "later w w'"
    and schema': "schema_ok (store w) \<Longrightarrow> schema_ok (store w')"
    by (auto simp: push_result_def)
  have reg: "registry_ok (store w)" and schema: "schema_ok (store w)" and uu: "uuids_ok w"
    using ok by (simp_all add: reg_inv_def registry_ok_def)
  have fresh: "?i \<notin> t_id ` set (tags (store w))"
    using fresh_uuid(1) [OF uu] by (auto simp: db_ids_def)
  have none: "tag_at (store w) n t = None"
    unfolding tag_at_None [OF schema] mid using new by (auto simp: image_iff)
  have cont: "contents (store w') = (contents (store w))(n \<mapsto> (the (contents (store w) n))(t \<mapsto> files_map fs))"
    unfolding st pushed_def
    by (rule contents_insert_tag [OF reg mid none])
       (use fresh in \<open>auto simp: new_tag_def file_rows_props(2) dest: file_rows_props(1)\<close>)
  have "mid \<in> m_id ` set (modules (store w))" using mid unfolding module_id_of_iff [OF schema] by auto
  moreover have "p_tag_id ` set (file_rows h (uuid_gen w) (Suc (uuid_next w)) ?i fs) \<subseteq> {?i}"
    using file_rows_props(1) by fastforce
  ultimately have refs: "refs_ok (store w')"
    using reg unfolding st registry_ok_def refs_ok_def by (auto simp: pushed_def new_tag_def image_Un)
  have "db_ids (store w') \<subseteq> uuid_gen w ` ({..<uuid_next w} \<union> {uuid_next w..<uuid_next w'})"
    using db_ids_pushed [of h ts w mid t fs] uu unfolding uuids_ok_def st nxt image_Un by blast
  also have "{..<uuid_next w} \<union> {uuid_next w..<uuid_next w'} = {..<uuid_next w'}" using nxt by auto
  finally have "uuids_ok w'" using uu later by (simp add: uuids_ok_def later_def)
  then have "reg_inv w'" using schema' [OF schema] refs by (simp add: reg_inv_def registry_ok_def)
  then show ?thesis using Inr cont names none mid by (auto simp: contents_def)
qed

section \<open>Registering and pulling\<close>

lemma register_law:
  assumes ok: "reg_inv w" and run: "pg_RegisterModule n w = (r, w')"
  shows "reg_inv w' \<and> (case r of Inl e \<Rightarrow> contents (store w') = contents (store w)
    | Inr _ \<Rightarrow> contents (store w') =
        (if contents (store w) n = None then (contents (store w))(n \<mapsto> Map.empty) else contents (store w)))"
proof -
  let ?i = "uuid_gen w (uuid_next w)"
  let ?m = "\<lparr>m_id = ?i, m_name = n\<rparr>"
  let ?d = "(store w)\<lparr>modules := modules (store w) @ [?m]\<rparr>"
  have reg: "registry_ok (store w)" and uu: "uuids_ok w" using ok by (simp_all add: reg_inv_def)
  have fresh: "?i \<notin> m_id ` set (modules (store w))" using fresh_uuid(1) [OF uu] by (auto simp: db_ids_def)
  have new: "registry_ok ?d \<and> uuids_ok (w\<lparr>uuid_next := Suc (uuid_next w), store := ?d\<rparr>) \<and>
      contents ?d = (contents (store w))(n \<mapsto> Map.empty)" if "n \<notin> m_name ` set (modules (store w))"
  proof (intro conjI)
    have "insert_module ?m (store w) = Inr ((), ?d)"
      using that fresh by (auto simp: insert_module_def image_iff)
    from keeps_execD [OF keeps_schema_inserts(1) _ this] reg
    show "registry_ok ?d" by (auto simp: registry_ok_def refs_ok_def)
    show "uuids_ok (w\<lparr>uuid_next := Suc (uuid_next w), store := ?d\<rparr>)"
      by (rule uuids_ok_step [OF uu]) (auto simp: db_ids_def)
    show "contents ?d = (contents (store w))(n \<mapsto> Map.empty)"
      by (rule contents_insert_module [OF reg that fresh])
  qed
  have "wp (pg_RegisterModule n) (\<lambda>r w'. reg_inv w' \<and> (case r of Inl e \<Rightarrow> contents (store w') = contents (store w)
    | Inr _ \<Rightarrow> contents (store w') =
        (if contents (store w) n = None then (contents (store w))(n \<mapsto> Map.empty) else contents (store w)))) w"
  proof (cases "n \<in> m_name ` set (modules (store w))")
    case True
    then have "insert_module ?m (store w) = Inr ((), store w)" by (auto simp: insert_module_def)
    then show ?thesis using True ok
      by (auto simp: pg_RegisterModule_def wp_simps reg_inv_def contents_None module_id_of_None uuids_ok_def)
  next
    case False
    then have "insert_module ?m (store w) = Inr ((), ?d)"
      using fresh by (auto simp: insert_module_def image_iff)
    then show ?thesis using new [OF False] False reg uu
      by (auto simp: pg_RegisterModule_def wp_simps reg_inv_def contents_None module_id_of_None uuids_ok_def)
  qed
  from wpD [OF this run] show ?thesis .
qed

lemma pull_law:
  assumes ok: "reg_inv w" and run: "pg_PullModule n t w = (r, w')"
  shows "reg_inv w' \<and> contents (store w') = contents (store w) \<and>
     (case r of Inl e \<Rightarrow> True
      | Inr (m, fs) \<Rightarrow> \<exists>ts x. contents (store w) n = Some ts \<and> ts t = Some x \<and> files_map fs \<subseteq>\<^sub>m x)"
proof -
  have "reads (pg_PullModule n t)" unfolding pg_PullModule_def by (intro reads_rules)
  from inv_reads [OF this ok run] have frame: "reg_inv w' \<and> contents (store w') = contents (store w)" by simp
  have "wp (pg_PullModule n t) (\<lambda>r w'. case r of Inl e \<Rightarrow> True
      | Inr (m, fs) \<Rightarrow> \<exists>ts x. contents (store w) n = Some ts \<and> ts t = Some x \<and> files_map fs \<subseteq>\<^sub>m x) w"
    unfolding pg_PullModule_def wp_bindE wp_wrapE
  proof (rule GetModule_wp, goal_cases)
    case (3 m f)
    show ?case unfolding sum.case option.case wp_bindE wp_wrapE
    proof (rule GetModuleTagId_wp, goal_cases)
      case (3 i f)
      then show ?case using \<open>module_id_of (store w) n = _\<close>
        by (auto simp: wp_simps contents_def tag_files_def files_map_def comp_def cut_map intro: map_of_cut)
    qed (auto simp: wp_simps)
  qed (auto simp: wp_simps)
  from wpD [OF this run] frame show ?thesis by blast
qed

section \<open>The methods that leave the abstract registry alone\<close>

lemma reads_bfs [reads_rules]: "reads (pg_bfs queue visited result)"
  unfolding reads_def
proof
  fix w :: "('a, 'b) world"
  show "snd (pg_bfs queue visited result w) = w\<lparr>faults := faults (snd (pg_bfs queue visited result w))\<rparr>"
  proof (induction queue visited result w rule: pg_bfs.induct)
    case (2 current queue visited result w)
    have "snd (pg_GetModuleDependencies (dep_Name current) (dep_Tag current) w) =
        w\<lparr>faults := faults (snd (pg_GetModuleDependencies (dep_Name current) (dep_Tag current) w))\<rparr>"
      using reads_GetModuleDependencies unfolding reads_def by blast
    then obtain f r where run: "pg_GetModuleDependencies (dep_Name current) (dep_Tag current) w = (r, w\<lparr>faults := f\<rparr>)"
      by (metis prod.collapse)
    show ?case
    proof (cases r)
      case (Inl e)
      with 2(1) run show ?thesis by (auto simp: run)
    next
      case (Inr ds)
      obtain v' r' q' where "visit_all ds (visited, result, queue) = (v', r', q')"
        by (cases "visit_all ds (visited, result, queue)")
      with 2(2) run Inr show ?thesis by (auto simp: run)
    qed
  qed simp
qed

lemma reads_methods [reads_rules]:
  "reads (pg_PullModule n t)" "reads (pg_PullDraftModule js n t)" "reads (pg_GetTransitiveDependencies n t)"
  unfolding pg_PullModule_def pg_PullDraftModule_def pg_GetTransitiveDependencies_def by (intro reads_rules)+

text \<open>A safe token makes the listing a plain \<open>SELECT\<close>.\<close>

lemma reads_ListModules:
  assumes "safe_token token"
  shows "reads (pg_ListModules engine k token)" and "reads (lite_ListModules engine' k token)"
proof -
  have sel: "\<not> has_quote decoded" if "decode_token token = Inr decoded" for decoded
    using assms that by (simp add: safe_token_def)
  have one: "reads (bindE (liftR r) f)" if "\<And>x. r = Inr x \<Longrightarrow> reads (f x)" for r and f :: "_ \<Rightarrow> (('a, 'b) world, _) go"
    using that by (cases r) (simp_all add: reads_def bindE_def)
  have two: "reads (bindE (liftR r) f)" if "\<And>x. r = Inr x \<Longrightarrow> reads (f x)" for r and f :: "_ \<Rightarrow> (('c, 'd) world, _) go"
    using that by (cases r) (simp_all add: reads_def bindE_def)
  show "reads (pg_ListModules engine k token)" unfolding pg_ListModules_def
    by (rule one) (auto dest!: sel intro!: reads_rules reads_execRows split: if_splits)
  show "reads (lite_ListModules engine' k token)" unfolding lite_ListModules_def
    by (rule two) (auto dest!: sel intro!: reads_rules reads_execRows split: if_splits)
qed

text \<open>An insert of a fresh row or a delete outside modules, tags and files.\<close>

definition aside :: "('h, 't) world \<Rightarrow> ('h, 't) world \<Rightarrow> bool" where
  "aside w w' \<longleftrightarrow> reg_inv w' \<and> contents (store w') = contents (store w) \<and> tags (store w') = tags (store w)"

lemma aside_refl [simp]: "reg_inv w \<Longrightarrow> aside w w"
  by (simp add: aside_def)

lemma asideI:
  assumes "reg_inv w" "schema_ok d" "refs_ok d" "modules d = modules (store w)" "tags d = tags (store w)"
    "protofiles d = protofiles (store w)" "db_ids d \<subseteq> insert (uuid_gen w (uuid_next w)) (db_ids (store w))"
  shows "aside w (w\<lparr>uuid_next := Suc (uuid_next w), store := d\<rparr>)"
  using assms uuids_ok_step [of w d] contents_cong [of d "store w"] by (simp add: aside_def reg_inv_def registry_ok_def)

lemma aside_called [simp]:
  "aside w (called w') = aside w w'" "aside (called w) w' = aside w w'"
  "aside w (called w'\<lparr>uuid_next := k\<rparr>) = aside w (w'\<lparr>uuid_next := k\<rparr>)"
  "aside w (called w'\<lparr>store := d\<rparr>) = aside w (w'\<lparr>store := d\<rparr>)"
  "aside w (called w'\<lparr>uuid_next := k, store := d\<rparr>) = aside w (w'\<lparr>uuid_next := k, store := d\<rparr>)"
  by (simp_all add: aside_def reg_inv_def uuids_ok_def)

lemma aside_faults [simp]: "aside (w\<lparr>faults := f\<rparr>) = aside w" "reg_inv (w\<lparr>faults := f\<rparr>) = reg_inv w"
  by (simp_all add: aside_def fun_eq_iff reg_inv_def uuids_ok_def)

lemma aside_faulted [simp]: "reg_inv w \<Longrightarrow> aside w (w\<lparr>faults := f\<rparr>)"
  by (simp add: aside_def)

lemma aside_next: "reg_inv w \<Longrightarrow> aside w (w\<lparr>uuid_next := Suc (uuid_next w)\<rparr>)"
  by (simp add: aside_def reg_inv_def)

lemma refs_ok_drafts:
  assumes "refs_ok d" and "modules d' = modules d" "tags d' = tags d" "protofiles d' = protofiles d"
    "dependencies d' = dependencies d"
    and sub: "dt_module_id ` set (draft_tags d') \<subseteq> insert i (dt_module_id ` set (draft_tags d))"
    and i: "i \<in> m_id ` set (modules d)"
  shows "refs_ok d'"
proof -
  have "insert i (dt_module_id ` set (draft_tags d)) \<subseteq> m_id ` set (modules d)"
    using assms(1) i by (simp add: refs_ok_def)
  from order_trans [OF sub this] assms(1-5) show ?thesis by (simp add: refs_ok_def)
qed

lemma upsert_draft_aside:
  assumes ok: "reg_inv w" and mid: "dt_module_id r \<in> m_id ` set (modules (store w))"
    and id: "dt_id r = uuid_gen w (uuid_next w)" and run: "upsert_draft r (store w) = Inr ((), d)"
  shows "aside w (w\<lparr>uuid_next := Suc (uuid_next w), store := d\<rparr>)"
proof (rule asideI [OF ok])
  show "schema_ok d" using keeps_execD [OF keeps_schema_upsert_draft _ run] ok by (simp add: reg_inv_def registry_ok_def)
  have "refs_ok (store w)" using ok by (simp add: reg_inv_def registry_ok_def)
  moreover have "dt_module_id ` set (draft_tags d) \<subseteq> insert (dt_module_id r) (dt_module_id ` set (draft_tags (store w)))"
    "modules d = modules (store w)" "tags d = tags (store w)" "protofiles d = protofiles (store w)"
    "dependencies d = dependencies (store w)"
    using run by (auto simp: upsert_draft_def split: if_splits)
  ultimately show "refs_ok d" using mid by - (rule refs_ok_drafts [of "store w"], assumption+)
  show "db_ids d \<subseteq> insert (uuid_gen w (uuid_next w)) (db_ids (store w))"
    using run id by (auto simp: upsert_draft_def db_ids_def split: if_splits)
qed (use run in \<open>auto simp: upsert_draft_def split: if_splits\<close>)

lemma draft_insert_wp:
  assumes ok: "reg_inv w" and mid: "module_id_of (store w) n = Some mid"
  shows "wp (bindE newUUID (\<lambda>newId. bindE now (\<lambda>ts. bindE (wrapE msg (exec (upsert_draft
       \<lparr>dt_id = newId, dt_module_id = mid, dt_tag = t, dt_proto_files = fj, dt_dependencies = dj, dt_updated_at = stamp ts\<rparr>)))
       (\<lambda>_. ret x)))) (\<lambda>r w'. aside w w') w"
proof -
  let ?r = "\<lparr>dt_id = uuid_gen w (uuid_next w), dt_module_id = mid, dt_tag = t, dt_proto_files = fj,
     dt_dependencies = dj, dt_updated_at = stamp (clock w)\<rparr>"
  have "mid \<in> m_id ` set (modules (store w))"
    using mid ok unfolding reg_inv_def registry_ok_def by (auto simp: module_id_of_iff)
  then have "upsert_draft ?r (store w) = Inr ((), d) \<Longrightarrow> aside w (w\<lparr>uuid_next := Suc (uuid_next w), store := d\<rparr>)" for d
    using upsert_draft_aside [of w ?r d] ok by simp
  then show ?thesis using aside_next [OF ok] by (auto simp: wp_simps split: sum.splits)
qed

lemma pg_push_draft_law:
  assumes ok: "reg_inv w"
  shows "wp (pg_PushDraftModule js n t fs ds) (\<lambda>r w'. aside w w') w"
  unfolding pg_PushDraftModule_def wp_bindE wp_wrapE
proof (rule GetModule_wp, goal_cases)
  case (3 m f)
  then show ?case using ok draft_insert_wp [of "w\<lparr>faults := f\<rparr>" n "mod_Id m", where stamp = "\<lambda>x. x"]
    by (auto simp: wp_liftR wp_bindE [of "wrapE _ (liftR _)"] wp_wrapE [of _ "liftR _"] split: sum.splits)
qed (use ok in \<open>auto simp: wp_simps\<close>)

lemma lite_push_draft_law:
  assumes ok: "reg_inv w"
  shows "wp (lite_PushDraftModule js n t fs ds) (\<lambda>r w'. aside w w') w"
  unfolding lite_PushDraftModule_def wp_bindE wp_wrapE lite_reads_eqs
proof (rule GetModule_wp, goal_cases)
  case (3 m f)
  then show ?case using ok draft_insert_wp [of "w\<lparr>faults := f\<rparr>" n "mod_Id m", where stamp = datetime]
    by (auto simp: wp_liftR wp_bindE [of "wrapE _ (liftR _)"] wp_wrapE [of _ "liftR _"] split: sum.splits)
qed (use ok in \<open>auto simp: wp_simps\<close>)

lemma delete_drafts_aside:
  assumes "reg_inv w"
  shows "aside w (w\<lparr>store := (store w)\<lparr>draft_tags := filter P (draft_tags (store w))\<rparr>\<rparr>)"
proof -
  let ?d = "(store w)\<lparr>draft_tags := filter P (draft_tags (store w))\<rparr>"
  have sub: "dt_module_id ` set (filter P (draft_tags (store w))) \<subseteq> dt_module_id ` set (draft_tags (store w))" by auto
  have ok: "schema_ok (store w)" "refs_ok (store w)" using assms by (simp_all add: reg_inv_def registry_ok_def)
  have "refs_ok ?d" unfolding refs_ok_def
    using ok(2) subset_trans [OF sub, of "m_id ` set (modules (store w))"] by (simp add: refs_ok_def)
  then have "registry_ok ?d" using ok(1) by (simp add: registry_ok_def schema_ok_def)
  moreover have "db_ids ?d \<subseteq> db_ids (store w)" by (auto simp: db_ids_def)
  then have "uuids_ok (w\<lparr>store := ?d\<rparr>)" using assms by (simp add: reg_inv_def uuids_ok_shrink)
  moreover have "contents ?d = contents (store w)" by (rule contents_cong) simp_all
  ultimately show ?thesis by (simp add: aside_def reg_inv_def)
qed

lemma obsolete_law:
  "reg_inv w \<Longrightarrow> wp pg_DeleteObsoleteDraftTags (\<lambda>r w'. aside w w') w"
  "reg_inv v \<Longrightarrow> wp lite_DeleteObsoleteDraftTags (\<lambda>r v'. aside v v') v"
  by (simp_all add: pg_DeleteObsoleteDraftTags_def lite_DeleteObsoleteDraftTags_def wp_simps delete_drafts_def
      delete_drafts_aside)

lemma insert_dependency_aside:
  assumes ok: "reg_inv w" and tid: "d_tag_id r \<in> t_id ` set (tags (store w))"
    and id: "d_id r = uuid_gen w (uuid_next w)" and run: "insert_dependency r (store w) = Inr ((), d)"
  shows "aside w (w\<lparr>uuid_next := Suc (uuid_next w), store := d\<rparr>)"
proof (rule asideI [OF ok])
  show "schema_ok d" using keeps_execD [OF keeps_schema_inserts(4) _ run] ok by (simp add: reg_inv_def registry_ok_def)
  have "refs_ok (store w)" using ok by (simp add: reg_inv_def registry_ok_def)
  moreover have "d = (store w)\<lparr>dependencies := dependencies (store w) @ [r]\<rparr>"
    using run by (simp add: insert_dependency_def split: if_splits)
  ultimately show "refs_ok d" using tid by (simp add: refs_ok_def)
  show "db_ids d \<subseteq> insert (uuid_gen w (uuid_next w)) (db_ids (store w))"
    using run id by (auto simp: insert_dependency_def db_ids_def split: if_splits)
qed (use run in \<open>auto simp: insert_dependency_def split: if_splits\<close>)

lemma aside_trans: "aside w v \<Longrightarrow> aside v u \<Longrightarrow> aside w u"
  by (simp add: aside_def)

lemma add_deps_law:
  assumes ok: "reg_inv w"
  shows "wp (pg_AddModuleDependencies n t ds) (\<lambda>r w'. aside w w') w"
  unfolding pg_AddModuleDependencies_def wp_bindE wp_wrapE
proof (rule GetModuleTagId_wp, goal_cases)
  case (3 i f)
  have schema: "schema_ok (store w)" using ok by (simp add: reg_inv_def registry_ok_def)
  have tid: "i \<in> t_id ` set (tags (store w))" using 3 unfolding tag_at_iff [OF schema] by auto
  have body: "wp (forE ds g) (\<lambda>r w'. aside w w') (w\<lparr>faults := f\<rparr>)"
    if g: "\<And>dep v. aside w v \<Longrightarrow> wp (g dep) (\<lambda>r w'. aside w w') v" for g
    by (rule wp_forE [where J = "\<lambda>_ v. aside w v"]) (use ok g in \<open>auto elim!: wp_mono split: sum.splits\<close>)
  show ?case unfolding sum.case wp_if
  proof (split if_split, intro conjI impI body, goal_cases)
    case (2 dep v)
    then have v: "reg_inv v" "i \<in> t_id ` set (tags (store v))" using tid by (simp_all add: aside_def)
    have ins: "insert_dependency \<lparr>d_id = uuid_gen v (uuid_next v), d_tag_id = i, d_dependency_tag_id = j\<rparr> (store v) = Inr ((), d) \<Longrightarrow>
        aside w (v\<lparr>uuid_next := Suc (uuid_next v), store := d\<rparr>)" for j d
      by (rule aside_trans [OF 2(2) insert_dependency_aside [OF v(1)]]) (use v in simp_all)
    have next': "aside w (v\<lparr>uuid_next := Suc (uuid_next v)\<rparr>)"
      by (rule aside_trans [OF 2(2) aside_next [OF v(1)]])
    show ?case using 2 ins next' by (auto simp: wp_simps split: sum.splits list.splits)
  qed (use ok in \<open>simp add: wp_simps\<close>)
qed (use ok in \<open>auto simp: wp_simps\<close>)

section \<open>Deleting\<close>

lemma refs_ok_alt: "refs_ok d \<longleftrightarrow>
    (\<forall>t\<in>set (tags d). t_module_id t \<in> m_id ` set (modules d)) \<and>
    (\<forall>t\<in>set (draft_tags d). dt_module_id t \<in> m_id ` set (modules d)) \<and>
    (\<forall>p\<in>set (protofiles d). p_tag_id p \<in> t_id ` set (tags d)) \<and>
    (\<forall>x\<in>set (dependencies d). d_tag_id x \<in> t_id ` set (tags d))"
  by (simp add: refs_ok_def image_subset_iff)

lemma in_image_filter: "k \<in> f ` set xs \<Longrightarrow> (\<And>x. x \<in> set xs \<Longrightarrow> f x = k \<Longrightarrow> P x) \<Longrightarrow> k \<in> f ` set (filter P xs)"
  by auto

text \<open>Every table is filtered, and the rows that are kept refer to rows that are kept.\<close>

definition thinner :: "('h, 't) db \<Rightarrow> ('h, 't) db \<Rightarrow> bool" where
  "thinner d d' \<longleftrightarrow> schema_ok d' \<and> db_ids d' \<subseteq> db_ids d"

lemma reg_inv_thinner:
  "reg_inv (w\<lparr>store := d\<rparr>) \<Longrightarrow> thinner d d' \<Longrightarrow> refs_ok d' \<Longrightarrow> reg_inv (w\<lparr>store := d'\<rparr>)"
  using uuids_ok_shrink [of "w\<lparr>store := d\<rparr>" d'] by (simp add: reg_inv_def registry_ok_def thinner_def)

lemma reg_inv_called_store [simp]: "reg_inv (called w\<lparr>store := d\<rparr>) = reg_inv (w\<lparr>store := d\<rparr>)"
  by (simp add: reg_inv_def uuids_ok_def)

lemma thinner_deletes:
  assumes "schema_ok d"
  shows "delete_protofiles P1 d = Inr (k, d') \<Longrightarrow> thinner d d'"
    "delete_dependencies P2 d = Inr (k, d') \<Longrightarrow> thinner d d'"
    "delete_drafts P3 d = Inr (k, d') \<Longrightarrow> thinner d d'"
    "delete_tags fk P4 d = Inr (k, d') \<Longrightarrow> thinner d d'"
    "delete_modules fk P5 d = Inr (k, d') \<Longrightarrow> thinner d d'"
proof -
  have ids: "db_ids (d\<lparr>protofiles := filter Q1 (protofiles d)\<rparr>) \<subseteq> db_ids d"
    "db_ids (d\<lparr>dependencies := filter Q2 (dependencies d)\<rparr>) \<subseteq> db_ids d"
    "db_ids (d\<lparr>draft_tags := filter Q3 (draft_tags d)\<rparr>) \<subseteq> db_ids d"
    "db_ids (d\<lparr>tags := filter Q4 (tags d), drift_events := filter Q6 (drift_events d)\<rparr>) \<subseteq> db_ids d"
    "db_ids (d\<lparr>modules := filter Q5 (modules d), drift_events := filter Q6 (drift_events d)\<rparr>) \<subseteq> db_ids d"
    for Q1 Q2 Q3 Q4 Q5 Q6 unfolding db_ids_def by auto
  note kept = keeps_schema_deletes [THEN keeps_execD, OF assms]
  show "delete_protofiles P1 d = Inr (k, d') \<Longrightarrow> thinner d d'"
    using kept(1) ids(1) unfolding thinner_def delete_protofiles_def by blast
  show "delete_dependencies P2 d = Inr (k, d') \<Longrightarrow> thinner d d'"
    using kept(2) ids(2) unfolding thinner_def delete_dependencies_def by blast
  show "delete_drafts P3 d = Inr (k, d') \<Longrightarrow> thinner d d'"
    using kept(3) ids(3) unfolding thinner_def delete_drafts_def by blast
  show "delete_tags fk P4 d = Inr (k, d') \<Longrightarrow> thinner d d'"
    using kept(4) ids(4) unfolding thinner_def delete_tags_def by blast
  show "delete_modules fk P5 d = Inr (k, d') \<Longrightarrow> thinner d d'"
    using kept(5) ids(5) unfolding thinner_def delete_modules_def by blast
qed

definition delete_tag_result :: "('h, 't) world \<Rightarrow> string \<Rightarrow> string \<Rightarrow> error + unit \<Rightarrow> ('h, 't) world \<Rightarrow> bool" where
  "delete_tag_result w n t r w' \<longleftrightarrow> reg_inv w' \<and> (case r of
       Inl e \<Rightarrow> contents (store w') = contents (store w) \<or>
         (\<exists>ts. contents (store w) n = Some ts \<and> ts t \<noteq> None \<and>
            contents (store w') = (contents (store w))(n \<mapsto> ts(t \<mapsto> Map.empty)))
     | Inr _ \<Rightarrow> \<exists>ts. contents (store w) n = Some ts \<and> ts t \<noteq> None \<and>
            contents (store w') = (contents (store w))(n \<mapsto> ts(t := None)))"

definition delete_tag_rows :: "bool \<Rightarrow> uuid \<Rightarrow> (('h, 't) world, unit) go" where
  "delete_tag_rows fk tagId =
       bindE (wrapE ''could not delete protofiles from database''
         (exec (delete_protofiles (\<lambda>p. p_tag_id p = tagId)))) (\<lambda>_.
       bindE (wrapE ''could not delete dependencies from database''
         (exec (delete_dependencies (\<lambda>x. d_tag_id x = tagId \<or> d_dependency_tag_id x = tagId)))) (\<lambda>_.
       bindE (wrapE ''could not delete tag from database''
         (exec (delete_tags fk (\<lambda>t. t_id t = tagId)))) (\<lambda>n.
       if 0 < n then ret () else throw ErrTagNotFound)))"

lemma delete_tag_rows_wp:
  assumes ok: "reg_inv w" and tid: "tag_at (store w) n t = Some i"
  shows "wp (delete_tag_rows fk i) (delete_tag_result w n t) w"
proof -
  let ?d = "store w"
  have schema: "schema_ok ?d" and refs: "refs_ok ?d" using ok by (simp_all add: reg_inv_def registry_ok_def)
  obtain k1 d1 where r1: "delete_protofiles (\<lambda>p. p_tag_id p = i) ?d = Inr (k1, d1)"
    and d1: "modules d1 = modules ?d" "tags d1 = tags ?d" "draft_tags d1 = draft_tags ?d"
      "protofiles d1 = filter (\<lambda>p. p_tag_id p \<noteq> i) (protofiles ?d)" "dependencies d1 = dependencies ?d"
    by (auto simp: stmt_defs)
  obtain k2 d2 where r2: "delete_dependencies (\<lambda>x. d_tag_id x = i \<or> d_dependency_tag_id x = i) d1 = Inr (k2, d2)"
    and d2: "modules d2 = modules d1" "tags d2 = tags d1" "draft_tags d2 = draft_tags d1" "protofiles d2 = protofiles d1"
      "dependencies d2 = filter (\<lambda>x. d_tag_id x \<noteq> i \<and> d_dependency_tag_id x \<noteq> i) (dependencies d1)"
    by (auto simp: stmt_defs)
  obtain d3 where r3: "delete_tags fk (\<lambda>r. t_id r = i) d2 = Inr (length (filter (\<lambda>r. t_id r = i) (tags d2)), d3)"
    and d3: "modules d3 = modules d2" "tags d3 = filter (\<lambda>r. t_id r \<noteq> i) (tags d2)" "draft_tags d3 = draft_tags d2"
      "protofiles d3 = protofiles d2" "dependencies d3 = dependencies d2"
    by (auto simp: stmt_defs)
  have i1: "reg_inv (w\<lparr>store := d1\<rparr>)"
    by (rule reg_inv_thinner [OF _ thinner_deletes(1) [OF schema r1]]) (use ok refs d1 in \<open>auto simp: refs_ok_alt\<close>)
  then have s1: "schema_ok d1" and f1: "refs_ok d1" by (simp_all add: reg_inv_def registry_ok_def)
  have i2: "reg_inv (w\<lparr>store := d2\<rparr>)"
    by (rule reg_inv_thinner [OF i1 thinner_deletes(2) [OF s1 r2]]) (use f1 d2 in \<open>auto simp: refs_ok_alt\<close>)
  then have s2: "schema_ok d2" and f2: "refs_ok d2" by (simp_all add: reg_inv_def registry_ok_def)
  have "refs_ok d3" unfolding refs_ok_alt d3
    using f2 d1 d2 by (auto simp: refs_ok_alt intro!: in_image_filter)
  then have i3: "reg_inv (w\<lparr>store := d3\<rparr>)"
    by (rule reg_inv_thinner [OF i2 thinner_deletes(4) [OF s2 r3]])
  let ?ts = "the (contents ?d n)"
  obtain r where "r \<in> set (tags ?d)" "t_id r = i" using tid unfolding tag_at_iff [OF schema] by blast
  then have some: "filter (\<lambda>r. t_id r = i) (tags d2) \<noteq> []" by (auto simp: filter_empty_conv d1 d2)
  have "module_id_of ?d n \<noteq> None" using tid unfolding tag_at_iff [OF schema] by (metis option.distinct(1))
  then have ts: "contents ?d n = Some ?ts" "?ts t \<noteq> None" using tid by (auto simp: contents_def)
  have c: "contents d1 = (contents ?d)(n \<mapsto> ?ts(t \<mapsto> Map.empty))" "contents d2 = (contents ?d)(n \<mapsto> ?ts(t \<mapsto> Map.empty))"
    "contents d3 = (contents ?d)(n \<mapsto> ?ts(t := None))"
    using contents_delete_tag [OF schema tid, of d1 False] contents_delete_tag [OF schema tid, of d2 False]
      contents_delete_tag [OF schema tid, of d3 True] d1 d2 d3 by simp_all
  show ?thesis unfolding delete_tag_rows_def
    using ok i1 i2 i3 ts c some by (auto simp: wp_simps r1 r2 r3 delete_tag_result_def)
qed

lemma delete_tag_law:
  assumes ok: "reg_inv w"
  shows "wp (pg_DeleteModuleTag n t) (delete_tag_result w n t) w"
    and "wp (lite_DeleteModuleTag n t) (delete_tag_result w n t) w"
proof -
  have res: "delete_tag_result (w\<lparr>faults := f\<rparr>) n t = delete_tag_result w n t" for f
    by (intro ext) (simp add: delete_tag_result_def split: sum.splits)
  have none: "wp (throw e) (delete_tag_result w n t) (w\<lparr>faults := f\<rparr>)" for e f
    using ok by (simp add: wp_simps delete_tag_result_def)
  have rows: "wp (delete_tag_rows fk i) (delete_tag_result w n t) (w\<lparr>faults := f\<rparr>)"
    if "tag_at (store w) n t = Some i" for fk i f
    using delete_tag_rows_wp [of "w\<lparr>faults := f\<rparr>" n t i] ok that by (simp add: res)
  show "wp (pg_DeleteModuleTag n t) (delete_tag_result w n t) w"
    unfolding pg_DeleteModuleTag_def wp_bindE [of "wrapE _ (pg_GetModuleTagId _ _)"] wp_wrapE [of _ "pg_GetModuleTagId _ _"]
      delete_tag_rows_def [symmetric]
    by (rule GetModuleTagId_wp) (use none rows in \<open>auto simp: wp_basic\<close>)
  show "wp (lite_DeleteModuleTag n t) (delete_tag_result w n t) w"
    unfolding lite_DeleteModuleTag_def wp_bindE [of foreign_keys] wp_world sum.case lite_reads_eqs
      wp_bindE [of "wrapE _ (pg_GetModuleTagId _ _)"] wp_wrapE [of _ "pg_GetModuleTagId _ _"]
      delete_tag_rows_def [symmetric]
    by (rule GetModuleTagId_wp) (use none rows in \<open>auto simp: wp_basic\<close>)
qed

definition delete_module_rows :: "bool \<Rightarrow> string \<Rightarrow> (('h, 't) world, unit) go" where
  "delete_module_rows fk name =
     bindE (wrapE ''could not delete protofiles from database''
       (exec (\<lambda>d. delete_protofiles (\<lambda>p. p_tag_id p \<in> set (tag_ids_of d name)) d))) (\<lambda>_.
     bindE (wrapE ''could not delete module dependencies from database''
       (exec (\<lambda>d. delete_dependencies (\<lambda>x. d_tag_id x \<in> set (tag_ids_of d name)) d))) (\<lambda>_.
     bindE (wrapE ''could not delete module tags from database''
       (exec (\<lambda>d. delete_tags fk (\<lambda>t. Some (t_module_id t) = module_id_of d name) d))) (\<lambda>_.
     bindE (wrapE ''could not delete module draft tags from database''
       (exec (\<lambda>d. delete_drafts (\<lambda>t. Some (dt_module_id t) = module_id_of d name) d))) (\<lambda>_.
     bindE (wrapE ''could not delete module from database''
       (exec (delete_modules fk (\<lambda>m. m_name m = name)))) (\<lambda>n.
     if 0 < n then ret () else throw (ErrorString ''module not found''))))))"

lemma delete_module_eqs:
  "pg_DeleteModule n = delete_module_rows True n"
  "lite_DeleteModule n = bindE foreign_keys (\<lambda>fk. delete_module_rows fk n)"
  by (simp_all only: pg_DeleteModule_def lite_DeleteModule_def delete_module_rows_def)

lemma tag_ids_of_cong: "modules d' = modules d \<Longrightarrow> tags d' = tags d \<Longrightarrow> tag_ids_of d' = tag_ids_of d"
  by (intro ext) (simp add: tag_ids_of_def module_id_of_def)

lemma module_id_of_cong: "modules d' = modules d \<Longrightarrow> module_id_of d' = module_id_of d"
  by (intro ext) (simp add: module_id_of_def)

definition delete_result :: "('h, 't) world \<Rightarrow> string \<Rightarrow> error + unit \<Rightarrow> ('h, 't) world \<Rightarrow> bool" where
  "delete_result w n r w' \<longleftrightarrow> reg_inv w' \<and> others n (store w) (store w') \<and>
     (case r of Inl e \<Rightarrow> True | Inr _ \<Rightarrow> contents (store w) n \<noteq> None \<and> contents (store w') n = None)"

text \<open>The tables after each of the five statements of a deletion.\<close>

definition module_stages :: "bool \<Rightarrow> string \<Rightarrow> ('h, 't) db \<Rightarrow> ('h, 't) db \<Rightarrow> ('h, 't) db \<Rightarrow> ('h, 't) db \<Rightarrow> ('h, 't) db \<Rightarrow> ('h, 't) db \<Rightarrow> bool" where
  "module_stages fk n d d1 d2 d3 d4 d5 \<longleftrightarrow>
     (\<exists>k. delete_protofiles (\<lambda>p. p_tag_id p \<in> set (tag_ids_of d n)) d = Inr (k, d1)) \<and>
     (\<exists>k. delete_dependencies (\<lambda>x. d_tag_id x \<in> set (tag_ids_of d n)) d1 = Inr (k, d2)) \<and>
     (\<exists>k. delete_tags fk (\<lambda>t. Some (t_module_id t) = module_id_of d n) d2 = Inr (k, d3)) \<and>
     (\<exists>k. delete_drafts (\<lambda>t. Some (dt_module_id t) = module_id_of d n) d3 = Inr (k, d4)) \<and>
     delete_modules fk (\<lambda>m. m_name m = n) d4 = Inr (length (filter (\<lambda>m. m_name m = n) (modules d)), d5)"

lemma delete_frames:
  "delete_protofiles P1 d = Inr (k, d') \<Longrightarrow> modules d' = modules d \<and> tags d' = tags d \<and> draft_tags d' = draft_tags d \<and>
     dependencies d' = dependencies d \<and> protofiles d' = filter (\<lambda>p. \<not> P1 p) (protofiles d)"
  "delete_dependencies P2 d = Inr (k, d') \<Longrightarrow> modules d' = modules d \<and> tags d' = tags d \<and> draft_tags d' = draft_tags d \<and>
     protofiles d' = protofiles d \<and> dependencies d' = filter (\<lambda>x. \<not> P2 x) (dependencies d)"
  "delete_drafts P3 d = Inr (k, d') \<Longrightarrow> modules d' = modules d \<and> tags d' = tags d \<and> protofiles d' = protofiles d \<and>
     dependencies d' = dependencies d \<and> draft_tags d' = filter (\<lambda>x. \<not> P3 x) (draft_tags d)"
  "delete_tags fk P4 d = Inr (k, d') \<Longrightarrow> modules d' = modules d \<and> draft_tags d' = draft_tags d \<and> protofiles d' = protofiles d \<and>
     dependencies d' = dependencies d \<and> tags d' = filter (\<lambda>t. \<not> P4 t) (tags d)"
  "delete_modules fk P5 d = Inr (k, d') \<Longrightarrow> tags d' = tags d \<and> draft_tags d' = draft_tags d \<and> protofiles d' = protofiles d \<and>
     dependencies d' = dependencies d \<and> modules d' = filter (\<lambda>m. \<not> P5 m) (modules d)"
  by (auto simp: stmt_defs)

lemma module_stages_tables:
  assumes "module_stages fk n d d1 d2 d3 d4 d5"
  shows "modules d1 = modules d" "tags d1 = tags d" "draft_tags d1 = draft_tags d" "dependencies d1 = dependencies d"
      "protofiles d1 = filter (\<lambda>p. p_tag_id p \<notin> set (tag_ids_of d n)) (protofiles d)"
    and "modules d2 = modules d" "tags d2 = tags d" "draft_tags d2 = draft_tags d" "protofiles d2 = protofiles d1"
      "dependencies d2 = filter (\<lambda>x. d_tag_id x \<notin> set (tag_ids_of d n)) (dependencies d)"
    and "modules d3 = modules d" "tags d3 = filter (\<lambda>t. Some (t_module_id t) \<noteq> module_id_of d n) (tags d)"
      "draft_tags d3 = draft_tags d" "protofiles d3 = protofiles d1" "dependencies d3 = dependencies d2"
    and "modules d4 = modules d" "tags d4 = tags d3" "protofiles d4 = protofiles d1" "dependencies d4 = dependencies d2"
      "draft_tags d4 = filter (\<lambda>t. Some (dt_module_id t) \<noteq> module_id_of d n) (draft_tags d)"
    and "modules d5 = filter (\<lambda>m. m_name m \<noteq> n) (modules d)" "tags d5 = tags d3" "protofiles d5 = protofiles d1"
      "dependencies d5 = dependencies d2" "draft_tags d5 = draft_tags d4"
  using assms unfolding module_stages_def by (auto dest!: delete_frames)

lemma module_stages_exist: "\<exists>d1 d2 d3 d4 d5. module_stages fk n d d1 d2 d3 d4 d5"
proof -
  obtain k1 d1 where "delete_protofiles (\<lambda>p. p_tag_id p \<in> set (tag_ids_of d n)) d = Inr (k1, d1)" "modules d1 = modules d"
    by (auto simp: stmt_defs)
  moreover obtain k2 d2 where "delete_dependencies (\<lambda>x. d_tag_id x \<in> set (tag_ids_of d n)) d1 = Inr (k2, d2)" "modules d2 = modules d1"
    by (auto simp: stmt_defs)
  moreover obtain k3 d3 where "delete_tags fk (\<lambda>t. Some (t_module_id t) = module_id_of d n) d2 = Inr (k3, d3)" "modules d3 = modules d2"
    by (auto simp: stmt_defs)
  moreover obtain k4 d4 where "delete_drafts (\<lambda>t. Some (dt_module_id t) = module_id_of d n) d3 = Inr (k4, d4)" "modules d4 = modules d3"
    by (auto simp: stmt_defs)
  moreover obtain d5 where "delete_modules fk (\<lambda>m. m_name m = n) d4 = Inr (length (filter (\<lambda>m. m_name m = n) (modules d4)), d5)"
    by (auto simp: stmt_defs)
  ultimately show ?thesis unfolding module_stages_def by metis
qed

lemma module_stages_inv:
  assumes "reg_inv w" and st: "module_stages fk n (store w) d1 d2 d3 d4 d5"
  shows "reg_inv (w\<lparr>store := d1\<rparr>)" "reg_inv (w\<lparr>store := d2\<rparr>)" "reg_inv (w\<lparr>store := d3\<rparr>)" "reg_inv (w\<lparr>store := d4\<rparr>)" "reg_inv (w\<lparr>store := d5\<rparr>)"
proof -
  let ?d = "store w"
  note t = module_stages_tables [OF st]
  obtain k1 k2 k3 k4 where r1: "delete_protofiles (\<lambda>p. p_tag_id p \<in> set (tag_ids_of ?d n)) ?d = Inr (k1, d1)"
    and r2: "delete_dependencies (\<lambda>x. d_tag_id x \<in> set (tag_ids_of ?d n)) d1 = Inr (k2, d2)"
    and r3: "delete_tags fk (\<lambda>t. Some (t_module_id t) = module_id_of ?d n) d2 = Inr (k3, d3)"
    and r4: "delete_drafts (\<lambda>t. Some (dt_module_id t) = module_id_of ?d n) d3 = Inr (k4, d4)"
    and r5: "delete_modules fk (\<lambda>m. m_name m = n) d4 = Inr (length (filter (\<lambda>m. m_name m = n) (modules ?d)), d5)"
    using st unfolding module_stages_def by blast
  have refs: "refs_ok ?d" and schema: "schema_ok ?d" using assms(1) by (simp_all add: reg_inv_def registry_ok_def)
  have kept: "i \<in> t_id ` set (tags ?d) \<Longrightarrow> i \<notin> set (tag_ids_of ?d n) \<Longrightarrow> i \<in> t_id ` set (tags d3)" for i
    unfolding t by (auto simp: tag_ids_of_def)
  have other: "i \<in> m_id ` set (modules ?d) \<Longrightarrow> Some i \<noteq> module_id_of ?d n \<Longrightarrow> i \<in> m_id ` set (modules d5)" for i
    unfolding t by (auto simp: module_id_of_iff [OF schema] eq_commute [of "Some _"])
  have f1: "refs_ok d1" and f2: "refs_ok d2" using refs unfolding refs_ok_alt t by auto
  have f3: "refs_ok d3" using f2 kept unfolding refs_ok_alt t by auto
  have f4: "refs_ok d4" using f3 unfolding refs_ok_alt t by auto
  have f5: "refs_ok d5" using f4 other unfolding refs_ok_alt t by auto
  have step: "reg_inv (w\<lparr>store := e'\<rparr>)" if "reg_inv (w\<lparr>store := e\<rparr>)" "schema_ok e \<Longrightarrow> thinner e e'" "refs_ok e'" for e e'
  proof (rule reg_inv_thinner [OF that(1) that(2) that(3)])
    show "schema_ok e" using that(1) by (simp add: reg_inv_def registry_ok_def)
  qed
  show i1: "reg_inv (w\<lparr>store := d1\<rparr>)" by (rule step [OF _ thinner_deletes(1) [OF _ r1] f1]) (use assms(1) in simp_all)
  show i2: "reg_inv (w\<lparr>store := d2\<rparr>)" by (rule step [OF i1 thinner_deletes(2) [OF _ r2] f2])
  show i3: "reg_inv (w\<lparr>store := d3\<rparr>)" by (rule step [OF i2 thinner_deletes(4) [OF _ r3] f3])
  show i4: "reg_inv (w\<lparr>store := d4\<rparr>)" by (rule step [OF i3 thinner_deletes(3) [OF _ r4] f4])
  show "reg_inv (w\<lparr>store := d5\<rparr>)" by (rule step [OF i4 thinner_deletes(5) [OF _ r5] f5])
qed

lemma delete_module_rows_wp:
  assumes ok: "reg_inv w"
  shows "wp (delete_module_rows fk n) (delete_result w n) w"
proof -
  let ?d = "store w"
  obtain d1 d2 d3 d4 d5 where st: "module_stages fk n ?d d1 d2 d3 d4 d5" using module_stages_exist by blast
  note t = module_stages_tables [OF st]
  have schema: "schema_ok ?d" using ok by (simp add: reg_inv_def registry_ok_def)
  have same: "module_id_of d1 = module_id_of ?d" "module_id_of d2 = module_id_of ?d" "module_id_of d3 = module_id_of ?d"
      "module_id_of d4 = module_id_of ?d" "tag_ids_of d1 = tag_ids_of ?d"
    by (intro module_id_of_cong tag_ids_of_cong t)+
  have id5: "n' \<noteq> n \<Longrightarrow> module_id_of d5 n' = module_id_of ?d n'" for n'
    by (simp add: module_id_of_def t conj_commute cong: conj_cong)
  have "others n ?d d1" "others n ?d d2" "others n ?d d3" "others n ?d d4" "others n ?d d5"
    by (rule othersI [OF schema]; simp add: t id5 same)+
  moreover have "contents d5 n = None" by (auto simp: contents_None module_id_of_None t)
  moreover have "filter (\<lambda>m. m_name m = n) (modules ?d) \<noteq> [] \<Longrightarrow> contents ?d n \<noteq> None"
    by (auto simp: contents_None module_id_of_None filter_empty_conv)
  moreover note module_stages_inv [OF ok st]
  moreover obtain k1 k2 k3 k4 where
    "delete_protofiles (\<lambda>p. p_tag_id p \<in> set (tag_ids_of ?d n)) ?d = Inr (k1, d1)"
    "delete_dependencies (\<lambda>x. d_tag_id x \<in> set (tag_ids_of ?d n)) d1 = Inr (k2, d2)"
    "delete_tags fk (\<lambda>t. Some (t_module_id t) = module_id_of ?d n) d2 = Inr (k3, d3)"
    "delete_drafts (\<lambda>t. Some (dt_module_id t) = module_id_of ?d n) d3 = Inr (k4, d4)"
    "delete_modules fk (\<lambda>m. m_name m = n) d4 = Inr (length (filter (\<lambda>m. m_name m = n) (modules ?d)), d5)"
    using st unfolding module_stages_def by blast
  ultimately show ?thesis unfolding delete_module_rows_def
    using ok by (auto simp: wp_simps same delete_result_def others_def [of n ?d ?d])
qed

lemma delete_law:
  assumes "reg_inv w"
  shows "wp (pg_DeleteModule n) (delete_result w n) w" and "wp (lite_DeleteModule n) (delete_result w n) w"
  using delete_module_rows_wp [OF assms] by (simp_all add: delete_module_eqs wp_bindE [of foreign_keys] wp_world)

section \<open>The interpretations\<close>

abbreviation registry_of :: "('h, 't) world \<Rightarrow> registry" where
  "registry_of w \<equiv> contents (store w)"

lemma delete_tag_resultD:
  "delete_tag_result w n t r w' \<Longrightarrow> reg_inv w' \<and> (case r of
       Inl e \<Rightarrow> registry_of w' = registry_of w \<or> (\<exists>ts. registry_of w n = Some ts \<and> ts t \<noteq> None \<and>
            registry_of w' = (registry_of w)(n \<mapsto> ts(t \<mapsto> Map.empty)))
     | Inr _ \<Rightarrow> \<exists>ts. registry_of w n = Some ts \<and> ts t \<noteq> None \<and> registry_of w' = (registry_of w)(n \<mapsto> ts(t := None)))"
  by (simp only: delete_tag_result_def)

lemma delete_resultD:
  assumes "delete_result w n r w'"
  shows "reg_inv w' \<and> (case r of Inl e \<Rightarrow> \<exists>x. registry_of w' = (registry_of w)(n := x)
        | Inr _ \<Rightarrow> registry_of w n \<noteq> None \<and> registry_of w' = (registry_of w)(n := None))"
proof -
  have "registry_of w' = (registry_of w)(n := registry_of w' n)"
    using assms by (auto simp: delete_result_def others_def fun_eq_iff)
  then show ?thesis using assms by (auto simp: delete_result_def split: sum.splits)
qed

lemma asideD: "aside w w' \<Longrightarrow> reg_inv w' \<and> registry_of w' = registry_of w"
  by (simp add: aside_def)

lemma reads_frame: "reads m \<Longrightarrow> reg_inv w \<Longrightarrow> m w = (r, w') \<Longrightarrow> reg_inv w' \<and> registry_of w' = registry_of w"
  using inv_reads by metis

text \<open>Between calls time passes, and the calls that will fail and the connection in use may change.\<close>

definition env_step :: "('h, 't) world \<Rightarrow> ('h, 't) world \<Rightarrow> bool" where
  "env_step w w' \<longleftrightarrow> (\<exists>fs t fk. w' = w\<lparr>faults := fs, clock := t, fk_enforced := fk\<rparr>)"

lemma env_step_frame: "reg_inv w \<Longrightarrow> env_step w w' \<Longrightarrow> reg_inv w' \<and> registry_of w' = registry_of w"
  by (auto simp: env_step_def reg_inv_def uuids_ok_def)

interpretation pg: registry_repository "NewRegistryRepository js engine" reg_inv registry_of env_step
  for js engine
proof (unfold_locales, goal_cases)
  case 1 then show ?case unfolding NewRegistryRepository_sel by (rule register_law)
next
  case 2 then show ?case unfolding NewRegistryRepository_sel by (rule push_result_law [OF _ wpD [OF pg_PushModule_wp]])
next
  case 3 then show ?case unfolding NewRegistryRepository_sel by (rule pull_law)
next
  case 4 then show ?case unfolding NewRegistryRepository_sel
    by (intro delete_tag_resultD [OF wpD [OF delete_tag_law(1)]])
next
  case 5 then show ?case unfolding NewRegistryRepository_sel by (intro delete_resultD [OF wpD [OF delete_law(1)]])
next
  case 6 then show ?case unfolding NewRegistryRepository_sel by (rule reads_frame [OF reads_GetModule])
next
  case (7 w tok) then show ?case unfolding NewRegistryRepository_sel using reads_frame [OF reads_ListModules(1)] by blast
next
  case 8 then show ?case unfolding NewRegistryRepository_sel by (intro asideD [OF wpD [OF pg_push_draft_law]])
next
  case 11 then show ?case unfolding NewRegistryRepository_sel by (intro asideD [OF wpD [OF add_deps_law]])
next
  case 14 then show ?case unfolding NewRegistryRepository_sel by (intro asideD [OF wpD [OF obsolete_law(1)]])
next
  case 15 then show ?case by (rule env_step_frame)
qed (simp only: NewRegistryRepository_sel, erule (1) reads_frame [rotated], rule reads_rules)+

interpretation lite: registry_repository "lite_NewRegistryRepository js engine" reg_inv registry_of env_step
  for js engine
proof (unfold_locales, goal_cases)
  case 1 then show ?case unfolding lite_NewRegistryRepository_sel lite_same_code by (rule register_law)
next
  case 2 then show ?case unfolding lite_NewRegistryRepository_sel
    by (rule push_result_law [OF _ wpD [OF lite_PushModule_wp]])
next
  case 3 then show ?case unfolding lite_NewRegistryRepository_sel lite_same_code by (rule pull_law)
next
  case 4 then show ?case unfolding lite_NewRegistryRepository_sel
    by (intro delete_tag_resultD [OF wpD [OF delete_tag_law(2)]])
next
  case 5 then show ?case unfolding lite_NewRegistryRepository_sel by (intro delete_resultD [OF wpD [OF delete_law(2)]])
next
  case (7 w tok) then show ?case unfolding lite_NewRegistryRepository_sel
    using reads_frame [OF reads_ListModules(2)] by blast
next
  case 8 then show ?case unfolding lite_NewRegistryRepository_sel by (intro asideD [OF wpD [OF lite_push_draft_law]])
next
  case 11 then show ?case unfolding lite_NewRegistryRepository_sel lite_same_code
    by (intro asideD [OF wpD [OF add_deps_law]])
next
  case 14 then show ?case unfolding lite_NewRegistryRepository_sel by (intro asideD [OF wpD [OF obsolete_law(2)]])
next
  case 15 then show ?case by (rule env_step_frame)
qed (simp only: lite_NewRegistryRepository_sel lite_same_code lite_reads_eqs, erule (1) reads_frame [rotated], rule reads_rules)+

end
