(* ===== verification/RegistryLive.thy ===== *)
theory RegistryLive
  imports RegistryLaws
begin

text \<open>
  The methods of the registry when the database answers every call: what they return, in closed
  form, and that both backends keep the contract of \<open>live_registry_repository\<close>.
\<close>

section \<open>Reading\<close>

text \<open>The module \<open>GetModule\<close> builds: its ten latest tags and draft tags.\<close>

definition module_view :: "('h, 't::linorder) db \<Rightarrow> string \<Rightarrow> Module option" where
  "module_view d name =
     (case filter (\<lambda>m. m_name m = name) (modules d) of
        [] \<Rightarrow> None
      | m # _ \<Rightarrow> Some \<lparr>mod_Id = m_id m, mod_Name = m_name m,
           mod_Tags = map t_tag (take 10 (sort_desc t_updated_at (filter (\<lambda>t. t_module_id t = m_id m) (tags d)))),
           mod_DraftTags = map dt_tag (take 10 (sort_desc dt_updated_at (filter (\<lambda>t. dt_module_id t = m_id m) (draft_tags d)))),
           mod_Packages = []\<rparr>)"

lemma GetModule_ok [go_simps]:
  assumes "faults w = []"
  shows "pg_GetModule n w = (Inr (module_view (store w) n), w)"
  using assms unfolding pg_GetModule_def Let_def module_view_def
  by (cases "filter (\<lambda>m. m_name m = n) (modules (store w))") (simp_all add: queryRow_ok)

lemma GetModuleTagId_ok [go_simps]:
  assumes "faults w = []"
  shows "pg_GetModuleTagId n t w = (Inr (case tag_at (store w) n t of None \<Rightarrow> [] | Some i \<Rightarrow> i), w)"
  using assms unfolding pg_GetModuleTagId_def tag_at_def
  by (cases "filter (\<lambda>r. Some (t_module_id r) = module_id_of (store w) n \<and> t_tag r = t) (tags (store w))")
     (simp_all add: queryRow_ok)

lemma module_view_None: "module_view d n = None \<longleftrightarrow> contents d n = None"
  by (simp add: module_view_def contents_None module_id_of_def split: list.splits)

lemma module_view_Some:
  assumes "module_view d n = Some m"
  shows "module_id_of d n = Some (mod_Id m)" and "mod_Name m = n"
    and "t \<in> set (mod_Tags m) \<Longrightarrow> tag_at d n t \<noteq> None"
proof -
  from assms obtain r rs where f: "filter (\<lambda>m. m_name m = n) (modules d) = r # rs"
    and m: "mod_Id m = m_id r" "mod_Name m = m_name r"
      "mod_Tags m = map t_tag (take 10 (sort_desc t_updated_at (filter (\<lambda>t. t_module_id t = m_id r) (tags d))))"
    by (auto simp: module_view_def split: list.splits)
  show id: "module_id_of d n = Some (mod_Id m)" by (simp add: module_id_of_def f m)
  show "mod_Name m = n" using f m by (auto simp: filter_eq_Cons_iff)
  assume "t \<in> set (mod_Tags m)"
  then obtain x where "x \<in> set (tags d)" "t_module_id x = m_id r" "t_tag x = t"
    unfolding m by (auto dest!: in_set_takeD)
  then have "filter (\<lambda>t'. Some (t_module_id t') = module_id_of d n \<and> t_tag t' = t) (tags d) \<noteq> []"
    unfolding filter_empty_conv id m(1) by auto
  then show "tag_at d n t \<noteq> None" by (simp add: tag_at_def split: list.splits)
qed

lemma pull_ok:
  assumes "reg_inv w" and "faults w = []" and "tag_at (store w) n t = Some i"
  shows "\<exists>m. module_view (store w) n = Some m \<and> pg_PullModule n t w = (Inr (m,
     map (\<lambda>p. \<lparr>pf_Filename = p_filename p, pf_Content = p_content p\<rparr>)
       (filter (\<lambda>p. p_tag_id p = i) (protofiles (store w)))), w)"
proof -
  have schema: "schema_ok (store w)" using assms(1) by (simp add: reg_inv_def registry_ok_def)
  have "module_id_of (store w) n \<noteq> None"
    using assms(3) unfolding tag_at_iff [OF schema] by (metis option.distinct(1))
  then obtain m where m: "module_view (store w) n = Some m"
    using module_view_None [of "store w" n] by (auto simp: contents_None)
  have "i \<noteq> []" using inv_tag_nonempty [OF assms(1,3)] .
  with m assms show ?thesis unfolding pg_PullModule_def
    by (simp add: GetModule_ok GetModuleTagId_ok)
qed

section \<open>Pushing\<close>

lemma push_files_ok:
  assumes healthy: "faults w = []" and names: "distinct (map pf_Filename fs)"
    and fresh: "\<forall>p\<in>set (protofiles (store w)). p_tag_id p \<noteq> tid"
    and ids: "inj (uuid_gen w)" "p_id ` set (protofiles (store w)) \<subseteq> uuid_gen w ` {..<uuid_next w}"
  shows "wp (forE fs (push_file h tid)) (\<lambda>r w'. r = Inr () \<and> faults w' = []) w"
proof (rule wp_forE_prefix [where J = "\<lambda>pre v. faults v = [] \<and> uuid_gen v = uuid_gen w \<and>
     uuid_next v = uuid_next w + length pre \<and>
     protofiles (store v) = protofiles (store w) @ file_rows h (uuid_gen w) (uuid_next w) tid pre"], goal_cases)
  case (2 pre f post v)
  let ?p = "\<lparr>p_id = uuid_gen v (uuid_next v), p_tag_id = tid, p_filename = pf_Filename f,
          p_content = pf_Content f, p_content_hash = h\<rparr>"
  have "uuid_gen w (uuid_next w + length pre) \<notin> uuid_gen w ` {..<uuid_next w + length pre}"
    using ids(1) by (auto dest: injD)
  moreover have "p_id ` set (protofiles (store v)) \<subseteq> uuid_gen w ` {..<uuid_next w + length pre}"
    using 2(2) ids(2) by (auto simp: image_Un file_rows_props(4))
  ultimately have "p_id ?p \<notin> p_id ` set (protofiles (store v))" using 2(2) by auto
  moreover have "(tid, pf_Filename f) \<notin> (\<lambda>p. (p_tag_id p, p_filename p)) ` set (protofiles (store v))"
  proof
    assume "(tid, pf_Filename f) \<in> (\<lambda>p. (p_tag_id p, p_filename p)) ` set (protofiles (store v))"
    then have "pf_Filename f \<in> p_filename ` set (file_rows h (uuid_gen w) (uuid_next w) tid pre)"
      using 2(2) fresh by auto
    then have "pf_Filename f \<in> set (map pf_Filename pre)" by (metis file_rows_props(3) list.set_map)
    then show False using names 2(1) by auto
  qed
  ultimately have "insert_protofile ?p (store v) = Inr ((), (store v)\<lparr>protofiles := protofiles (store v) @ [?p]\<rparr>)"
    by (auto simp: insert_protofile_def image_iff)
  then show ?case using 2(2) by (auto simp: push_file_def wp_simps file_rows_snoc)
qed (use healthy in auto)

lemma push_ready:
  assumes "reg_inv w" and "contents (store w) n = Some ts" and "ts t = None"
  obtains m where "module_view (store w) n = Some m" and "t \<notin> set (mod_Tags m)"
    and "\<forall>stamp. insert_tag (new_tag stamp w (mod_Id m) t) (store w) =
        Inr ((), (store w)\<lparr>tags := tags (store w) @ [new_tag stamp w (mod_Id m) t]\<rparr>)"
    and "(mod_Id m, t) \<notin> (\<lambda>x. (t_module_id x, t_tag x)) ` set (tags (store w))"
    and "\<forall>p\<in>set (protofiles (store w)). p_tag_id p \<noteq> uuid_gen w (uuid_next w)"
    and "p_id ` set (protofiles (store w)) \<subseteq> uuid_gen w ` {..<Suc (uuid_next w)}"
proof -
  have schema: "schema_ok (store w)" and refs: "refs_ok (store w)" and uu: "uuids_ok w"
    using assms(1) by (simp_all add: reg_inv_def registry_ok_def)
  obtain m where m: "module_view (store w) n = Some m"
    using module_view_None [of "store w" n] assms(2) by (cases "module_view (store w) n") auto
  note mid = module_view_Some(1) [OF m]
  have none: "tag_at (store w) n t = None" using assms(2,3) by (auto simp: contents_Some)
  then have new: "(mod_Id m, t) \<notin> (\<lambda>x. (t_module_id x, t_tag x)) ` set (tags (store w))"
    unfolding tag_at_None [OF schema] mid by auto
  have fresh: "uuid_gen w (uuid_next w) \<notin> t_id ` set (tags (store w))"
    using fresh_uuid(1) [OF uu] by (auto simp: db_ids_def)
  have ins: "insert_tag (new_tag stamp w (mod_Id m) t) (store w) =
        Inr ((), (store w)\<lparr>tags := tags (store w) @ [new_tag stamp w (mod_Id m) t]\<rparr>)" for stamp
    using new fresh by (auto simp: insert_tag_def new_tag_def image_iff)
  have "\<forall>p\<in>set (protofiles (store w)). p_tag_id p \<noteq> uuid_gen w (uuid_next w)"
    using refs fresh unfolding refs_ok_alt by metis
  moreover have "p_id ` set (protofiles (store w)) \<subseteq> uuid_gen w ` {..<Suc (uuid_next w)}"
    using uu unfolding uuids_ok_def db_ids_def by (auto simp: lessThan_Suc)
  ultimately show thesis using that m ins new module_view_Some(3) [OF m, of t] none by blast
qed

lemma pg_push_live:
  assumes ok: "reg_inv w" and healthy: "faults w = []" and free: "contents (store w) n = Some ts" "ts t = None"
    and names: "distinct (map pf_Filename fs)"
  shows "wp (pg_PushModule n t fs) (\<lambda>r w'. (\<exists>m. r = Inr m) \<and> faults w' = []) w"
proof -
  obtain m where m: "module_view (store w) n = Some m" "t \<notin> set (mod_Tags m)"
    and ins: "\<forall>stamp. insert_tag (new_tag stamp w (mod_Id m) t) (store w) =
        Inr ((), (store w)\<lparr>tags := tags (store w) @ [new_tag stamp w (mod_Id m) t]\<rparr>)"
    and new: "(mod_Id m, t) \<notin> (\<lambda>x. (t_module_id x, t_tag x)) ` set (tags (store w))"
    and fresh: "\<forall>p\<in>set (protofiles (store w)). p_tag_id p \<noteq> uuid_gen w (uuid_next w)"
    and ids: "p_id ` set (protofiles (store w)) \<subseteq> uuid_gen w ` {..<Suc (uuid_next w)}"
    using push_ready [OF ok free] by blast
  let ?v = "w\<lparr>uuid_next := Suc (uuid_next w), store := (store w)\<lparr>tags := tags (store w) @ [new_tag (clock w) w (mod_Id m) t]\<rparr>\<rparr>"
  have "filter (\<lambda>x. t_module_id x = mod_Id m \<and> t_tag x = t) (tags (store w)) = []"
    using new by (auto simp: filter_empty_conv image_iff)
  then have sel: "map t_id (filter (\<lambda>x. t_module_id x = mod_Id m \<and> t_tag x = t) (tags (store ?v))) = [uuid_gen w (uuid_next w)]"
    by (simp add: new_tag_def)
  have "wp (forE fs (push_file None (uuid_gen w (uuid_next w)))) (\<lambda>r w'. r = Inr () \<and> faults w' = []) ?v"
    by (rule push_files_ok) (use healthy names fresh ids ok in \<open>auto simp: reg_inv_def uuids_ok_def\<close>)
  then show ?thesis using m healthy ins [rule_format, of "clock w"] sel
    unfolding pg_PushModule_def push_file_eqs
    by (auto simp: wp_simps wp_def [of "pg_GetModule n"] GetModule_ok new_tag_def elim!: wp_mono)
qed

lemma lite_push_live:
  assumes ok: "reg_inv w" and healthy: "faults w = []" and free: "contents (store w) n = Some ts" "ts t = None"
    and names: "distinct (map pf_Filename fs)"
  shows "wp (lite_PushModule n t fs) (\<lambda>r w'. (\<exists>m. r = Inr m) \<and> faults w' = []) w"
proof -
  obtain m where m: "module_view (store w) n = Some m" "t \<notin> set (mod_Tags m)"
    and ins: "\<forall>stamp. insert_tag (new_tag stamp w (mod_Id m) t) (store w) =
        Inr ((), (store w)\<lparr>tags := tags (store w) @ [new_tag stamp w (mod_Id m) t]\<rparr>)"
    and new: "(mod_Id m, t) \<notin> (\<lambda>x. (t_module_id x, t_tag x)) ` set (tags (store w))"
    and fresh: "\<forall>p\<in>set (protofiles (store w)). p_tag_id p \<noteq> uuid_gen w (uuid_next w)"
    and ids: "p_id ` set (protofiles (store w)) \<subseteq> uuid_gen w ` {..<Suc (uuid_next w)}"
    using push_ready [OF ok free] by blast
  let ?v = "w\<lparr>uuid_next := Suc (uuid_next w), store := (store w)\<lparr>tags := tags (store w) @ [new_tag (datetime (clock w)) w (mod_Id m) t]\<rparr>\<rparr>"
  have "wp (forE fs (push_file [] (uuid_gen w (uuid_next w)))) (\<lambda>r w'. r = Inr () \<and> faults w' = []) ?v"
    by (rule push_files_ok) (use healthy names fresh ids ok in \<open>auto simp: reg_inv_def uuids_ok_def\<close>)
  then show ?thesis using m healthy ins [rule_format, of "datetime (clock w)"]
    unfolding lite_PushModule_def push_file_eqs lite_reads_eqs
    by (auto simp: wp_simps wp_def [of "pg_GetModule n"] GetModule_ok new_tag_def elim!: wp_mono)
qed

section \<open>The interpretations\<close>

abbreviation healthy :: "('h, 't) world \<Rightarrow> bool" where
  "healthy w \<equiv> faults w = []"

lemma pull_live:
  assumes "reg_inv w" and "healthy w" and "contents (store w) n = Some ts" and "ts t = Some x"
  shows "\<exists>m fs w'. pg_PullModule n t w = (Inr (m, fs), w') \<and> files_map fs = x \<and> healthy w'"
proof -
  obtain i where i: "tag_at (store w) n t = Some i" "x = tag_files (store w) i" using assms(3,4) by (auto simp: contents_Some)
  from pull_ok [OF assms(1,2) i(1)] assms(2) show ?thesis by (auto simp: i(2) files_map_def tag_files_def comp_def)
qed

lemma wp_returns: "wp m (\<lambda>r w'. (\<exists>x. r = Inr x) \<and> P w') w \<Longrightarrow> \<exists>x w'. m w = (Inr x, w') \<and> P w'"
  by (cases "m w") (auto simp: wp_def)

lemma register_live:
  assumes "reg_inv w" and "healthy w"
  shows "\<exists>w'. pg_RegisterModule n w = (Inr (), w') \<and> healthy w'"
proof -
  have "uuid_gen w (uuid_next w) \<notin> m_id ` set (modules (store w))"
    using fresh_uuid(1) [of w] assms(1) by (auto simp: reg_inv_def db_ids_def)
  then have "wp (pg_RegisterModule n) (\<lambda>r w'. (\<exists>x. r = Inr x) \<and> healthy w') w"
    using assms(2) by (auto simp: pg_RegisterModule_def wp_simps insert_module_def image_iff)
  from wp_returns [OF this] show ?thesis by simp
qed

interpretation pg: live_registry_repository "NewRegistryRepository js engine" reg_inv registry_of env_step healthy
  for js engine
  by unfold_locales
    (simp_all only: NewRegistryRepository_sel pull_live register_live wp_returns [OF pg_push_live])

interpretation lite: live_registry_repository "lite_NewRegistryRepository js engine" reg_inv registry_of env_step healthy
  for js engine
  by unfold_locales
    (simp_all only: lite_NewRegistryRepository_sel lite_same_code pull_live register_live wp_returns [OF lite_push_live])

end
