(* ===== verification/RegistryProps.thy ===== *)
theory RegistryProps
  imports RegistryLive
begin

text \<open>
  The properties of the registry repositories.  A property with hypotheses is followed by its
  instance on a concrete world, which starts from an empty database.
\<close>

section \<open>Concrete worlds\<close>

definition start_world :: "('h, 't) world" where
  "start_world = \<lparr>store = empty_db, faults = [], uuid_gen = (\<lambda>n. replicate (Suc n) CHR ''a''), uuid_next = 0,
     clock = ((2024, 3, 10), (12, 30, 0), 0), fk_enforced = True\<rparr>"

definition f1 :: ProtoFile where
  "f1 = \<lparr>pf_Filename = ''a.proto'', pf_Content = ''syntax''\<rparr>"

definition demo_pg :: "(string option, instant) world" where
  "demo_pg = snd (pg_RegisterModule ''m'' start_world)"

definition demo_lite :: "(string, string) world" where
  "demo_lite = snd (lite_RegisterModule ''m'' start_world)"

lemma reg_inv_start: "reg_inv start_world"
proof -
  have "inj (\<lambda>n. replicate (Suc n) CHR ''a'')" by (rule injI) simp
  then show ?thesis
    by (simp add: start_world_def reg_inv_def registry_ok_def schema_ok_def refs_ok_def uuids_ok_def db_ids_def empty_db_def)
qed

lemma demo_pg_inv: "reg_inv demo_pg"
  unfolding demo_pg_def using register_law [OF reg_inv_start, of "''m''"] by (metis prod.collapse)

lemma demo_lite_inv: "reg_inv demo_lite"
  unfolding demo_lite_def lite_same_code using register_law [OF reg_inv_start, of "''m''"] by (metis prod.collapse)

lemma demo_push: "\<exists>m w1. pg_PushModule ''m'' ''v1'' [f1] demo_pg = (Inr m, w1) \<and> faults w1 = []"
proof -
  let ?p = "pg_PushModule ''m'' ''v1'' [f1] demo_pg"
  have "\<not> isl (fst ?p)" "faults (snd ?p) = []" by code_simp+
  then show ?thesis by (metis isl_def prod.collapse sum.exhaust)
qed

lemma demo_lite_push: "\<exists>m w1. lite_PushModule ''m'' ''v1'' [f1] demo_lite = (Inr m, w1) \<and> faults w1 = []"
proof -
  let ?p = "lite_PushModule ''m'' ''v1'' [f1] demo_lite"
  have "\<not> isl (fst ?p)" "faults (snd ?p) = []" by code_simp+
  then show ?thesis by (metis isl_def prod.collapse sum.exhaust)
qed

section \<open>Immutable tags\<close>



text \<open>Tags are immutable in the SQLite backend too.\<close>

lemma lite_tag_immutable:
  assumes "reg_inv w" and "lite_PushModule n t fs w = (Inr m, w1)"
    and "registry_run (lite_NewRegistryRepository js engine) env_step cs w1 w2"
    and "\<forall>c\<in>set cs. \<not> deletes c n t"
  shows "(\<forall>m' gs w3. lite_PullModule n t w2 = (Inr (m', gs), w3) \<longrightarrow> files_map gs \<subseteq>\<^sub>m files_map fs) \<and>
    (faults w2 = [] \<longrightarrow> (\<exists>m' gs w3. lite_PullModule n t w2 = (Inr (m', gs), w3) \<and> files_map gs = files_map fs))"
  using lite.pull_after_run [where js = js and engine = engine] lite.healthy_pull_after_run [where js = js and engine = engine] assms
  by fastforce

lemma lite_tag_immutable_witness:
  "\<exists>m w1 m' gs w2. lite_PushModule ''m'' ''v1'' [f1] demo_lite = (Inr m, w1) \<and>
     lite_PullModule ''m'' ''v1'' w1 = (Inr (m', gs), w2) \<and> files_map gs = files_map [f1]"
proof -
  obtain m w1 where push: "lite_PushModule ''m'' ''v1'' [f1] demo_lite = (Inr m, w1)" "faults w1 = []" using demo_lite_push by blast
  with lite_tag_immutable [OF demo_lite_inv push(1) run_Nil] show ?thesis by auto
qed

section \<open>Pushing\<close>



end
