(* ===== verification/RegistryRefinement.thy ===== *)
theory RegistryRefinement
  imports RegistryLive
begin

text \<open>
  The registry as an abstract state machine over maps, and the simulation: every call of a
  repository that keeps the contract, failing or not, is a step of that machine.
\<close>

section \<open>The abstract machine\<close>

text \<open>
  A call that fails may do nothing (\<open>spec_stutter\<close>).  Deletes are not atomic: a delete of a tag
  that fails between its statements leaves the tag without files, and a delete of a module that
  fails leaves the module's tags in any state, but touches no other module.
\<close>

inductive spec_step :: "registry_call \<Rightarrow> registry \<Rightarrow> registry \<Rightarrow> bool" where
  spec_register: "R n = None \<Longrightarrow> spec_step (CallRegister n) R (R(n \<mapsto> Map.empty))"
| spec_push: "R n = Some ts \<Longrightarrow> ts t = None \<Longrightarrow> distinct (map pf_Filename fs) \<Longrightarrow>
    spec_step (CallPush n t fs) R (R(n \<mapsto> ts(t \<mapsto> files_map fs)))"
| spec_delete_tag: "R n = Some ts \<Longrightarrow> ts t = Some x \<Longrightarrow> spec_step (CallDeleteTag n t) R (R(n \<mapsto> ts(t := None)))"
| spec_empty_tag: "R n = Some ts \<Longrightarrow> ts t = Some x \<Longrightarrow> spec_step (CallDeleteTag n t) R (R(n \<mapsto> ts(t \<mapsto> Map.empty)))"
| spec_delete: "spec_step (CallDelete n) R (R(n := x))"
| spec_stutter: "spec_step c R R"

inductive spec_run :: "registry_call list \<Rightarrow> registry \<Rightarrow> registry \<Rightarrow> bool" where
  spec_Nil: "spec_run [] R R"
| spec_Cons: "spec_step c R R1 \<Longrightarrow> spec_run cs R1 R2 \<Longrightarrow> spec_run (c # cs) R R2"

inductive_cases spec_push_cases: "spec_step (CallPush n t fs) R R'"

section \<open>The simulation\<close>

context registry_repository
begin

lemma step_refines:
  assumes "registry_step repo env c w w'" and "ok w"
  shows "spec_step c (cont w) (cont w')"
  using assms
proof (induction rule: registry_step.induct)
  case (do_register n w r w')
  with register [of w n r w'] show ?case by (auto split: sum.splits if_splits intro: spec_step.intros)
next
  case (do_push n t fs w r w')
  with push [of w n t fs r w'] show ?case
    by (cases r) (auto simp del: fun_upd_apply intro: spec_stutter spec_push)
next
  case (do_pull n t w r w')
  with pull [of w n t r w'] show ?case by (auto intro: spec_stutter)
next
  case (do_delete_tag n t w r w')
  with delete_tag [of w n t r w'] show ?case
    by (cases r) (auto simp del: fun_upd_apply intro: spec_stutter spec_delete_tag spec_empty_tag)
next
  case (do_delete n w r w')
  with delete [of w n r w'] show ?case by (cases r) (auto simp del: fun_upd_apply intro: spec_delete)
next
  case (do_list tok k w r w')
  with frame(2) [of w tok k r w'] show ?case by (auto intro: spec_stutter)
qed (drule (1) frame, simp add: spec_stutter)+

lemma run_refines: "registry_run repo env cs w w' \<Longrightarrow> ok w \<Longrightarrow> ok w' \<and> spec_run cs (cont w) (cont w')"
proof (induction rule: registry_run.induct)
  case (run_Cons c w w1 cs w2)
  then show ?case using step_refines [OF run_Cons.hyps(1)] step_ok [OF run_Cons.hyps(1)] by (auto intro: spec_Cons)
qed (simp add: spec_Nil)

end

section \<open>Drafts\<close>

text \<open>What a draft tag holds: the row of a module and tag.\<close>

definition draft_at :: "('h, 't) db \<Rightarrow> string \<Rightarrow> string \<Rightarrow> string option" where
  "draft_at d name tag =
     (case module_id_of d name of
        None \<Rightarrow> None
      | Some mid \<Rightarrow> (case filter (\<lambda>x. dt_module_id x = mid \<and> dt_tag x = tag) (draft_tags d) of
          [] \<Rightarrow> None | x # _ \<Rightarrow> Some (dt_proto_files x)))"

lemma filter_map_same: "(\<And>x. P (g x) = P x) \<Longrightarrow> filter P (map g xs) = map g (filter P xs)"
  by (induction xs) auto

lemma upsert_draft_rows:
  assumes "upsert_draft r d = Inr (x, d')"
  shows "map dt_proto_files (filter (\<lambda>x. dt_module_id x = dt_module_id r \<and> dt_tag x = dt_tag r) (draft_tags d')) \<noteq> []"
    and "hd (map dt_proto_files (filter (\<lambda>x. dt_module_id x = dt_module_id r \<and> dt_tag x = dt_tag r) (draft_tags d'))) = dt_proto_files r"
    and "modules d' = modules d"
proof -
  let ?P = "\<lambda>x. dt_module_id x = dt_module_id r \<and> dt_tag x = dt_tag r"
  let ?g = "\<lambda>x. if ?P x then x\<lparr>dt_proto_files := dt_proto_files r, dt_dependencies := dt_dependencies r,
                     dt_updated_at := dt_updated_at r\<rparr> else x"
  show "modules d' = modules d" using assms by (auto simp: upsert_draft_def split: if_splits)
  have "\<exists>y ys. filter ?P (draft_tags d') = y # ys \<and> dt_proto_files y = dt_proto_files r"
  proof (cases "filter ?P (draft_tags d)")
    case Nil
    then have "\<not> clash (\<lambda>x. (dt_module_id x, dt_tag x)) r (draft_tags d)" by (auto simp: filter_empty_conv)
    with assms Nil show ?thesis by (auto simp: upsert_draft_def split: if_splits)
  next
    case (Cons y ys)
    then have y: "y \<in> set (draft_tags d)" "?P y" by (auto simp: filter_eq_Cons_iff)
    then have "clash (\<lambda>x. (dt_module_id x, dt_tag x)) r (draft_tags d)" by (auto simp: clash_iff)
    then have "draft_tags d' = map ?g (draft_tags d)" using assms by (auto simp: upsert_draft_def simp del: clash_iff)
    then have "filter ?P (draft_tags d') = map ?g (y # ys)" using filter_map_same [of ?P ?g "draft_tags d"] Cons by simp
    with y show ?thesis by simp
  qed
  then show "map dt_proto_files (filter ?P (draft_tags d')) \<noteq> []"
    and "hd (map dt_proto_files (filter ?P (draft_tags d'))) = dt_proto_files r" by auto
qed

text \<open>With a database that answers, a draft that is pushed is what a pull of the draft reads.\<close>

lemma module_view_id: "module_view d n = Some m \<Longrightarrow> module_id_of d n = Some (mod_Id m)"
  by (auto simp: module_view_def module_id_of_def split: list.splits)

lemma wp_run: "m w = (r, w') \<Longrightarrow> wp m Q w = Q r w'"
  by (simp add: wp_def)

lemma draft_at_upsert:
  assumes "module_view (store w) n = Some m" and "upsert_draft r (store w) = Inr (x, d')" and "dt_module_id r = mod_Id m"
  shows "draft_at d' n (dt_tag r) = Some (dt_proto_files r)"
  using upsert_draft_rows [OF assms(2)] module_view_id [OF assms(1)] assms(3)
  by (auto simp: draft_at_def module_id_of_def split: list.splits)

lemma pg_push_draft_row:
  assumes "faults w = []" and "pg_PushDraftModule js n t fs ds w = (Inr m, w')"
  shows "faults w' = [] \<and> (\<exists>j. json_marshal_files js fs = Inr j \<and> draft_at (store w') n t = Some j)"
proof -
  have "wp (pg_PushDraftModule js n t fs ds) (\<lambda>r w'. \<forall>m. r = Inr m \<longrightarrow>
      faults w' = [] \<and> (\<exists>j. json_marshal_files js fs = Inr j \<and> draft_at (store w') n t = Some j)) w"
    unfolding pg_PushDraftModule_def
    using assms(1)
    by (auto simp: wp_simps wp_run [OF GetModule_ok] split: option.splits sum.splits dest: draft_at_upsert)
  from wpD [OF this assms(2)] show ?thesis by simp
qed

lemma lite_push_draft_row:
  assumes "faults w = []" and "lite_PushDraftModule js n t fs ds w = (Inr m, w')"
  shows "faults w' = [] \<and> (\<exists>j. json_marshal_files js fs = Inr j \<and> draft_at (store w') n t = Some j)"
proof -
  have "wp (lite_PushDraftModule js n t fs ds) (\<lambda>r w'. \<forall>m. r = Inr m \<longrightarrow>
      faults w' = [] \<and> (\<exists>j. json_marshal_files js fs = Inr j \<and> draft_at (store w') n t = Some j)) w"
    unfolding lite_PushDraftModule_def lite_reads_eqs
    using assms(1)
    by (auto simp: wp_simps wp_run [OF GetModule_ok] split: option.splits sum.splits dest: draft_at_upsert)
  from wpD [OF this assms(2)] show ?thesis by simp
qed

lemma pg_pull_draft_ok:
  assumes "faults w = []" and "draft_at (store w) n t = Some j"
  shows "\<exists>m. pg_PullDraftModule js n t w = (case json_unmarshal_files js j of
    Inl e \<Rightarrow> (Inl (Wrapped ''could not unmarshal protofiles'' e), w) | Inr fs \<Rightarrow> (Inr (m, fs), w))"
proof -
  from assms(2) obtain m where m: "module_view (store w) n = Some m"
    by (auto simp: draft_at_def module_id_of_def module_view_def split: list.splits option.splits)
  with module_view_id [OF m] assms show ?thesis
    by (auto simp: pg_PullDraftModule_def bindE_def wrapE_def attempt_def GetModule_ok queryRow_ok draft_at_def split: list.splits sum.splits)
qed

end
