(* ===== verification/RegistryPaging.thy ===== *)
theory RegistryPaging
  imports RegistryRefinement
begin

text \<open>
  Listing modules page by page: what one page holds, and that a client that follows the tokens
  gets every module once, in the order of their names.
\<close>

section \<open>One page\<close>

definition module_entry :: "module_row \<Rightarrow> Module" where
  "module_entry m = \<lparr>mod_Id = m_id m, mod_Name = m_name m, mod_Tags = [], mod_DraftTags = [], mod_Packages = []\<rparr>"

lemma page_loop_spec:
  "page_loop k c rows mods next = (mods @ map module_entry (take (nat (k - c)) rows),
     if length rows \<le> nat (k - c) then next else EncodeToString (m_name (last rows)))"
proof (induction k c rows mods "next" rule: page_loop.induct)
  case (2 k c m rows mods "next")
  show ?case
  proof (cases "c < k")
    case True
    then have "nat (k - c) = Suc (nat (k - (c + 1)))" by simp
    with True 2 show ?thesis by (auto simp: module_entry_def)
  next
    case False
    with 2 show ?thesis by auto
  qed
qed simp

text \<open>The modules in the order of the listing, and the page that starts at the \<open>i\<close>-th of them.\<close>

definition by_name :: "('h, 't) db \<Rightarrow> module_row list" where
  "by_name d = sort_key m_name (modules d)"

definition page_token :: "('h, 't) db \<Rightarrow> nat \<Rightarrow> string" where
  "page_token d i = (if i = 0 \<or> length (modules d) \<le> i then [] else EncodeToString (m_name (by_name d ! i)))"

lemma filter_from_nth:
  assumes "sorted (map f xs)" and "distinct (map f xs)" and "i < length xs"
  shows "filter (\<lambda>x. f (xs ! i) \<le> f x) xs = drop i xs"
proof -
  have lt: "f (xs ! j) < f (xs ! i)" if "j < i" for j
  proof -
    have "f (xs ! j) \<le> f (xs ! i)" using assms(1,3) that by (simp add: sorted_iff_nth_mono)
    moreover have "f (xs ! j) \<noteq> f (xs ! i)" using assms(2,3) that by (auto simp: distinct_conv_nth)
    ultimately show ?thesis by simp
  qed
  have "filter (\<lambda>x. f (xs ! i) \<le> f x) (take i xs) = []"
    using assms(3) by (auto simp: filter_empty_conv in_set_conv_nth not_le lt)
  moreover have "filter (\<lambda>x. f (xs ! i) \<le> f x) (drop i xs) = drop i xs"
    using assms(1,3) by (auto simp: filter_id_conv in_set_conv_nth sorted_iff_nth_mono)
  ultimately show ?thesis by (metis append_take_drop_id filter_append self_append_conv2)
qed

text \<open>Names that the query text and the tokens can carry.\<close>

definition plain_names :: "('h, 't) db \<Rightarrow> bool" where
  "plain_names d \<longleftrightarrow> distinct (map m_name (modules d)) \<and> (\<forall>m\<in>set (modules d). m_name m \<noteq> [] \<and> CHR 0x27 \<notin> set (m_name m))"

lemma listing_at:
  assumes "plain_names d" and "i \<le> length (modules d)" and "i < length (modules d) \<or> i = 0"
  shows "\<exists>decoded. decode_token (page_token d i) = Inr decoded \<and> \<not> has_quote decoded \<and> module_listing decoded d = drop i (by_name d)"
proof (cases "i = 0 \<or> length (modules d) \<le> i")
  case True
  with assms(3) have "i = 0" by auto
  then show ?thesis by (simp add: page_token_def decode_token_def has_quote_def module_listing_def by_name_def)
next
  case False
  then have i: "i < length (by_name d)" by (simp add: by_name_def)
  then have mem: "by_name d ! i \<in> set (modules d)" using nth_mem [OF i] by (simp add: by_name_def)
  have ord: "sorted (map m_name (by_name d))" "distinct (map m_name (by_name d))"
    using assms(1) by (simp_all add: by_name_def plain_names_def distinct_map)
  have "module_listing (Some (m_name (by_name d ! i))) d = drop i (by_name d)"
    using filter_from_nth [OF ord i] by (simp add: module_listing_def by_name_def filter_sort)
  with mem False assms(1) show ?thesis
    by (auto simp: page_token_def decode_token_def has_quote_def plain_names_def)
qed

lemma page_at:
  assumes "plain_names (store w)" and "faults w = []" and "0 < k" and "i < length (modules (store w)) \<or> i = 0"
  shows "pg_ListModules engine k (page_token (store w) i) w =
      (Inr (map module_entry (take (nat k) (drop i (by_name (store w)))), page_token (store w) (i + nat k)), w)"
    and "lite_ListModules engine' k (page_token (store w) i) w =
      (Inr (map module_entry (take (nat k) (drop i (by_name (store w)))), page_token (store w) (i + nat k)), w)"
proof -
  let ?L = "by_name (store w)"
  obtain decoded where d: "decode_token (page_token (store w) i) = Inr decoded" "\<not> has_quote decoded"
    "module_listing decoded (store w) = drop i ?L"
    using listing_at [OF assms(1), of i] assms(4) by auto
  have len: "length ?L = length (modules (store w))" by (simp add: by_name_def)
  have rows: "page_loop k 0 (take (nat (k + 1)) (drop i ?L)) [] [] =
      (map module_entry (take (nat k) (drop i ?L)), page_token (store w) (i + nat k))"
  proof (cases "length ?L \<le> i + nat k")
    case True
    then have "length (take (nat (k + 1)) (drop i ?L)) \<le> nat k" using assms(3) by auto
    with True len show ?thesis using assms(3) by (auto simp: page_loop_spec page_token_def min_def)
  next
    case False
    then have "take (nat (k + 1)) (drop i ?L) = take (nat k) (drop i ?L) @ [?L ! (i + nat k)]"
      using assms(3) take_Suc_conv_app_nth [of "nat k" "drop i ?L"] by (simp add: nat_add_distrib)
    then show ?thesis using False len assms(3) by (simp add: page_loop_spec page_token_def)
  qed
  have "store (w\<lparr>store := store w\<rparr>) = store w" "w\<lparr>store := store w\<rparr> = w" by simp_all
  with d rows assms(2,3) show "pg_ListModules engine k (page_token (store w) i) w =
      (Inr (map module_entry (take (nat k) (drop i ?L)), page_token (store w) (i + nat k)), w)"
    and "lite_ListModules engine' k (page_token (store w) i) w =
      (Inr (map module_entry (take (nat k) (drop i ?L)), page_token (store w) (i + nat k)), w)"
    by (simp_all add: pg_ListModules_def lite_ListModules_def execRows_ok bindE_def wrapE_def)
qed

section \<open>All pages\<close>

text \<open>A client that asks for page after page until the token is empty; \<open>n\<close> bounds the requests.\<close>

fun list_pages :: "nat \<Rightarrow> (string \<Rightarrow> ('w, Module list \<times> string) go) \<Rightarrow> string \<Rightarrow> ('w, Module list) go" where
  "list_pages 0 page token = throw (ErrorString ''too many pages'')"
| "list_pages (Suc n) page token = bindE (page token) (\<lambda>(mods, next).
     if next = [] then ret mods else bindE (list_pages n page next) (\<lambda>rest. ret (mods @ rest)))"

lemma list_pages_from:
  assumes "plain_names d" and "0 < k" and "length (modules d) \<le> n * nat k + i" and "i < length (modules d) \<or> i = 0" and "0 < n"
    and page: "\<And>i. i < length (modules d) \<or> i = 0 \<Longrightarrow>
      page (page_token d i) w = (Inr (map module_entry (take (nat k) (drop i (by_name d))), page_token d (i + nat k)), w)"
  shows "list_pages n page (page_token d i) w = (Inr (map module_entry (drop i (by_name d))), w)"
  using assms(3-5)
proof (induction n arbitrary: i)
  case (Suc n)
  let ?L = "by_name d"
  have len: "length ?L = length (modules d)" by (simp add: by_name_def)
  show ?case
  proof (cases "length (modules d) \<le> i + nat k")
    case True
    then show ?thesis using page [OF Suc.prems(2)] len by (simp add: page_token_def bindE_def)
  next
    case False
    let ?i = "i + nat k"
    have "?L ! ?i \<in> set (modules d)" using False len nth_mem [of ?i ?L] by (simp add: by_name_def)
    then have tok: "page_token d ?i \<noteq> []" using False assms(1,2) by (auto simp: page_token_def plain_names_def)
    have "0 < n" using Suc.prems(1) False assms(2) by (cases n) auto
    moreover have "length (modules d) \<le> n * nat k + ?i" using Suc.prems(1) by simp
    ultimately have rest: "list_pages n page (page_token d ?i) w = (Inr (map module_entry (drop ?i ?L)), w)"
      using Suc.IH [of ?i] False by simp
    have "take (nat k) (drop i ?L) @ drop ?i ?L = drop i ?L"
      by (metis append_take_drop_id drop_drop add.commute)
    then show ?thesis using page [OF Suc.prems(2)] tok rest
      by (simp add: bindE_def) (metis map_append)
  qed
qed simp

end
