(* ===== verification/RegistrySearch.thy ===== *)
theory RegistrySearch
  imports RegistryRefinement
begin

text \<open>
  The transitive dependencies of a tag: the breadth-first search of \<open>GetTransitiveDependencies\<close>
  finds exactly the tags reachable over the dependency relation.
\<close>

section \<open>A database that answers keeps answering\<close>

lemma keeps_healthy_exec [hoare_rules]: "keeps (\<lambda>w. faults w = []) (exec s)"
  by (rule hoareI) (simp add: exec_ok split: sum.splits prod.splits)

lemma keeps_healthy_query [hoare_rules]: "keeps (\<lambda>w. faults w = []) (query f)"
  unfolding query_def by (rule keeps_healthy_exec)

lemma keeps_healthy_queryRow [hoare_rules]: "keeps (\<lambda>w. faults w = []) (queryRow f)"
  unfolding queryRow_def by (rule keeps_healthy_exec)

lemma keeps_healthy_queryRows [hoare_rules]: "keeps (\<lambda>w. faults w = []) (queryRows f)"
  by (rule hoareI) simp

lemma reads_healthy:
  assumes "reads m" and "keeps (\<lambda>w. faults w = []) m" and "faults w = []"
  shows "snd (m w) = w"
proof -
  have "snd (m w) = w\<lparr>faults := faults (snd (m w))\<rparr>" using assms(1) by (simp add: reads_def)
  with keepsD [OF assms(2,3)] assms(3) show ?thesis by simp
qed

lemma GetModuleDependencies_healthy: "faults w = [] \<Longrightarrow> snd (pg_GetModuleDependencies n t w) = w"
proof (rule reads_healthy [OF reads_GetModuleDependencies])
  show "keeps (\<lambda>w. faults w = []) (pg_GetModuleDependencies n t)"
    unfolding pg_GetModuleDependencies_def pg_GetModuleTagId_def dependency_at_def by (intro hoare_rules)
qed

section \<open>The dependency relation\<close>

text \<open>What a lookup of the dependencies of a module and tag returns; one that fails has none.\<close>

definition succs :: "('h, 't::linorder) world \<Rightarrow> depKey \<Rightarrow> depKey set" where
  "succs w k = (case fst (pg_GetModuleDependencies (fst k) (snd k) w) of Inl _ \<Rightarrow> {} | Inr deps \<Rightarrow> key_of ` set deps)"

definition depends :: "('h, 't::linorder) world \<Rightarrow> depKey rel" where
  "depends w = {(k, k'). k' \<in> succs w k}"

lemma depends_closed:
  assumes "\<forall>v\<in>V. succs w v \<subseteq> V" and "(u, v) \<in> (depends w)\<^sup>*" and "u \<in> V"
  shows "v \<in> V"
  using assms(2,3,1) by (induction rule: rtrancl_induct) (auto simp: depends_def)

lemma rtrancl_Image_mono: "A \<subseteq> R\<^sup>* `` B \<Longrightarrow> R\<^sup>* `` A \<subseteq> R\<^sup>* `` B"
  by (blast intro: rtrancl_trans)

section \<open>The search\<close>

text \<open>A round of the search keeps what is visited and no longer queued closed under dependencies.\<close>

lemma visit_closed:
  assumes "\<forall>v\<in>visited - key_of ` set (current # queue). succs w v \<subseteq> visited" and "succs w (key_of current) = key_of ` set deps"
    and "q' = queue @ new" and "v' = visited \<union> key_of ` set deps" and "key_of ` set new = key_of ` set deps - visited"
    and v: "v \<in> v' - key_of ` set q'"
  shows "succs w v \<subseteq> v'"
proof (cases "v = key_of current")
  case True
  then show ?thesis using assms(2,4) by auto
next
  case False
  have "v \<notin> key_of ` set new" "v \<notin> key_of ` set queue" using v assms(3) by auto
  then have "v \<in> visited - key_of ` set (current # queue)" using v False assms(4,5) by auto
  then show ?thesis using assms(1,4) by blast
qed

lemma bfs_closure:
  assumes "faults w = []" and "key_of ` set queue \<subseteq> visited" and "\<forall>v\<in>visited - key_of ` set queue. succs w v \<subseteq> visited"
  shows "\<exists>new. pg_bfs queue visited result w = (Inr (result @ map (mark ''transitive'') new), w) \<and>
    (\<forall>v\<in>visited \<union> key_of ` set new. succs w v \<subseteq> visited \<union> key_of ` set new) \<and>
    key_of ` set new \<subseteq> (depends w)\<^sup>* `` (key_of ` set queue) \<and> distinct (map key_of new) \<and> key_of ` set new \<inter> visited = {}"
  using assms
proof (induction queue visited result w rule: pg_bfs.induct)
  case (1 visited result w)
  then show ?case by (intro exI [of _ "[]"]) simp
next
  case (2 current queue visited result w)
  let ?k = "key_of current"
  obtain r where r: "pg_GetModuleDependencies (dep_Name current) (dep_Tag current) w = (r, w)"
    using GetModuleDependencies_healthy [OF 2(3)] by (metis prod.collapse)
  then have succ: "succs w ?k = (case r of Inl _ \<Rightarrow> {} | Inr deps \<Rightarrow> key_of ` set deps)"
    by (simp add: succs_def key_of_def)
  have mono: "(depends w)\<^sup>* `` (key_of ` set queue) \<subseteq> (depends w)\<^sup>* `` (key_of ` set (current # queue))" by auto
  show ?case
  proof (cases r)
    case (Inl e)
    have "succs w v \<subseteq> visited" if "v \<in> visited - key_of ` set queue" for v
      using that 2(5) succ Inl by (cases "v = ?k") auto
    then obtain new where new: "pg_bfs queue visited result w = (Inr (result @ map (mark ''transitive'') new), w)"
      "\<forall>v\<in>visited \<union> key_of ` set new. succs w v \<subseteq> visited \<union> key_of ` set new"
      "key_of ` set new \<subseteq> (depends w)\<^sup>* `` (key_of ` set queue)" "distinct (map key_of new)" "key_of ` set new \<inter> visited = {}"
      using 2(1) [OF r [symmetric] Inl 2(3)] 2(4) by auto
    from new(3) mono have "key_of ` set new \<subseteq> (depends w)\<^sup>* `` (key_of ` set (current # queue))" by (rule subset_trans)
    with r Inl new show ?thesis by (intro exI [of _ new]) simp
  next
    case (Inr deps)
    obtain v' r' q' where visit: "visit_all deps (visited, result, queue) = (v', r', q')" by (cases "visit_all deps (visited, result, queue)")
    obtain new1 where new1: "q' = queue @ new1" "r' = result @ map (mark ''transitive'') new1"
      "v' = visited \<union> key_of ` set deps" "key_of ` set new1 = key_of ` set deps - visited" "distinct (map key_of new1)"
      using visit_all_spec [OF visit] by blast
    have "key_of ` set q' \<subseteq> v'" using 2(4) new1 by auto
    moreover have "succs w v \<subseteq> v'" if "v \<in> v' - key_of ` set q'" for v
      by (rule visit_closed [OF 2(5) _ new1(1,3,4) that]) (simp add: succ Inr)
    ultimately obtain new2 where new2: "pg_bfs q' v' r' w = (Inr (r' @ map (mark ''transitive'') new2), w)"
      "\<forall>v\<in>v' \<union> key_of ` set new2. succs w v \<subseteq> v' \<union> key_of ` set new2"
      "key_of ` set new2 \<subseteq> (depends w)\<^sup>* `` (key_of ` set q')" "distinct (map key_of new2)" "key_of ` set new2 \<inter> v' = {}"
      using 2(2) [OF r [symmetric] Inr visit [symmetric] refl 2(3)] by blast
    let ?new = "new1 @ new2"
    have "visited \<union> key_of ` set ?new = v' \<union> key_of ` set new2" using new1(3,4) by auto
    then have closed: "\<forall>v\<in>visited \<union> key_of ` set ?new. succs w v \<subseteq> visited \<union> key_of ` set ?new" using new2(2) by simp
    let ?T = "(depends w)\<^sup>* `` (key_of ` set (current # queue))"
    have "key_of ` set deps \<subseteq> ?T" using succ Inr by (auto simp: depends_def)
    then have T: "key_of ` set new1 \<subseteq> ?T" unfolding new1(4) by (rule subset_trans [OF Diff_subset])
    moreover have "key_of ` set queue \<subseteq> ?T" by auto
    ultimately have "key_of ` set q' \<subseteq> ?T" by (simp add: new1(1) image_Un)
    then have "key_of ` set new2 \<subseteq> ?T" by (rule subset_trans [OF new2(3) rtrancl_Image_mono])
    with T have reach: "key_of ` set ?new \<subseteq> ?T" by (simp add: image_Un)
    have "distinct (map key_of ?new)" "key_of ` set ?new \<inter> visited = {}" using new1(3-5) new2(4,5) by auto
    with r Inr visit new1(2) new2(1) closed reach show ?thesis by (intro exI [of _ ?new]) simp
  qed
qed

section \<open>The whole method\<close>

lemma trancl_from_succs: "(depends w)\<^sup>+ `` {k} = (depends w)\<^sup>* `` succs w k"
  by (auto simp: depends_def elim: converse_tranclE dest: tranclD rtrancl_into_trancl2)
     (metis (mono_tags, lifting) case_prodI mem_Collect_eq rtrancl_into_trancl2 tranclD)+

lemma transitive_dependencies:
  assumes "faults w = []" and "fst (pg_GetModuleDependencies n t w) = Inr direct"
  shows "\<exists>new. pg_GetTransitiveDependencies n t w = (Inr (map (mark ''direct'') direct @ map (mark ''transitive'') new), w) \<and>
    key_of ` set new = (depends w)\<^sup>+ `` {(n, t)} - insert (n, t) (key_of ` set direct) \<and> distinct (map key_of new)"
proof -
  let ?V = "insert (n, t) (key_of ` set direct)"
  have run: "pg_GetModuleDependencies n t w = (Inr direct, w)"
    using assms GetModuleDependencies_healthy [OF assms(1)] by (metis prod.collapse)
  have root: "succs w (n, t) = key_of ` set direct" using assms(2) by (simp add: succs_def)
  have closed: "\<forall>v\<in>?V - key_of ` set direct. succs w v \<subseteq> ?V" using root by auto
  obtain new where new: "pg_bfs direct ?V (map (mark ''direct'') direct) w = (Inr (map (mark ''direct'') direct @ map (mark ''transitive'') new), w)"
    "\<forall>v\<in>?V \<union> key_of ` set new. succs w v \<subseteq> ?V \<union> key_of ` set new"
    "key_of ` set new \<subseteq> (depends w)\<^sup>* `` (key_of ` set direct)" "distinct (map key_of new)" "key_of ` set new \<inter> ?V = {}"
    using bfs_closure [OF assms(1) _ closed] by blast
  have "(depends w)\<^sup>+ `` {(n, t)} \<subseteq> ?V \<union> key_of ` set new"
  proof
    fix k assume "k \<in> (depends w)\<^sup>+ `` {(n, t)}"
    then have "((n, t), k) \<in> (depends w)\<^sup>*" by (simp add: trancl_into_rtrancl)
    from depends_closed [OF new(2) this] show "k \<in> ?V \<union> key_of ` set new" by simp
  qed
  moreover have "key_of ` set new \<subseteq> (depends w)\<^sup>+ `` {(n, t)}" using new(3) by (simp add: trancl_from_succs root)
  ultimately have "key_of ` set new = (depends w)\<^sup>+ `` {(n, t)} - ?V" using new(5) by blast
  with run new(1,4) show ?thesis
    by (intro exI [of _ new]) (simp add: pg_GetTransitiveDependencies_def bindE_def wrapE_def)
qed

section \<open>The relation in the tables\<close>

text \<open>A tag depends on another when a row of the table of dependencies joins them.\<close>

definition dependency_edges :: "('h, 't) db \<Rightarrow> depKey rel" where
  "dependency_edges d = {((n, t), (n', t')). \<exists>x\<in>set (dependencies d).
     tag_at d n t = Some (d_tag_id x) \<and> tag_at d n' t' = Some (d_dependency_tag_id x)}"

text \<open>No dangling dependencies, and no tag whose name is empty (an empty name asks for the latest tag).\<close>

definition deps_complete :: "('h, 't) db \<Rightarrow> bool" where
  "deps_complete d \<longleftrightarrow> d_dependency_tag_id ` set (dependencies d) \<subseteq> t_id ` set (tags d) \<and> (\<forall>r\<in>set (tags d). t_tag r \<noteq> [])"

lemma module_and_tag_keys:
  assumes "registry_ok d"
  shows "set (module_and_tag d i) = {(n, t). tag_at d n t = Some i}" and "i \<in> t_id ` set (tags d) \<Longrightarrow> module_and_tag d i \<noteq> []"
proof -
  from assms have ok: "schema_ok d" and refs: "t_module_id ` set (tags d) \<subseteq> m_id ` set (modules d)"
    by (auto simp: registry_ok_def refs_ok_def)
  show eq: "set (module_and_tag d i) = {(n, t). tag_at d n t = Some i}"
    unfolding set_module_and_tag by (auto simp: tag_at_iff [OF ok] module_id_of_iff [OF ok] eq_commute [of "Some _"])
  assume "i \<in> t_id ` set (tags d)"
  then obtain r m where "r \<in> set (tags d)" "t_id r = i" "m \<in> set (modules d)" "m_id m = t_module_id r" using refs by force
  then have "(m_name m, t_tag r) \<in> set (module_and_tag d i)" unfolding set_module_and_tag by blast
  then show "module_and_tag d i \<noteq> []" by auto
qed

lemma dependency_at_ok:
  assumes "registry_ok (store w)" and "faults w = []" and "i \<in> t_id ` set (tags (store w))"
  shows "\<exists>dep. dependency_at i w = (Inr dep, w) \<and> tag_at (store w) (dep_Name dep) (dep_Tag dep) = Some i"
proof -
  obtain n t ks where ks: "module_and_tag (store w) i = (n, t) # ks"
    using module_and_tag_keys(2) [OF assms(1,3)] by (metis list.exhaust surj_pair)
  then have "tag_at (store w) n t = Some i" using module_and_tag_keys(1) [OF assms(1), of i] by auto
  with ks assms(2) show ?thesis by (simp add: dependency_at_def bindE_def wrapE_def queryRow_ok)
qed

lemma dependencies_at_ok:
  assumes "registry_ok (store w)" and "faults w = []" and "set ids \<subseteq> t_id ` set (tags (store w))"
  shows "\<exists>deps. mapE ids dependency_at w = (Inr deps, w) \<and>
    map (\<lambda>dep. tag_at (store w) (dep_Name dep) (dep_Tag dep)) deps = map Some ids"
  using assms(3)
proof (induction ids)
  case (Cons i ids)
  then obtain deps where deps: "mapE ids dependency_at w = (Inr deps, w)"
    "map (\<lambda>dep. tag_at (store w) (dep_Name dep) (dep_Tag dep)) deps = map Some ids" by auto
  obtain dep where "dependency_at i w = (Inr dep, w)" "tag_at (store w) (dep_Name dep) (dep_Tag dep) = Some i"
    using dependency_at_ok [OF assms(1,2)] Cons.prems by auto
  with deps show ?case by (intro exI [of _ "dep # deps"]) simp
qed simp

lemma tag_at_inj:
  assumes "schema_ok d" and "tag_at d n t = Some i" and "tag_at d n' t' = Some i"
  shows "(n', t') = (n, t)"
proof -
  from assms obtain r r' where r: "r \<in> set (tags d)" "Some (t_module_id r) = module_id_of d n" "t_tag r = t" "t_id r = i"
    "r' \<in> set (tags d)" "Some (t_module_id r') = module_id_of d n'" "t_tag r' = t'" "t_id r' = i"
    by (auto simp: tag_at_iff [OF assms(1)])
  then have "r' = r" using schema_uniqueD(3) [OF assms(1)] by blast
  with r show ?thesis using module_id_of_inj [OF assms(1), of n "t_module_id r" n'] by metis
qed

lemma GetModuleDependencies_edges:
  assumes "reg_inv w" and "faults w = []" and "deps_complete (store w)" and "tag_at (store w) n t = Some i"
  shows "\<exists>deps. pg_GetModuleDependencies n t w = (Inr deps, w) \<and>
    key_of ` set deps = dependency_edges (store w) `` {(n, t)} \<and> distinct (map key_of deps)"
proof -
  let ?d = "store w"
  let ?at = "\<lambda>dep. tag_at ?d (dep_Name dep) (dep_Tag dep)"
  from assms(1) have reg: "registry_ok ?d" and ok: "schema_ok ?d" by (auto simp: reg_inv_def registry_ok_def)
  let ?ids = "map d_dependency_tag_id (filter (\<lambda>x. d_tag_id x = i) (dependencies ?d))"
  have "t \<noteq> []" using assms(3,4) by (auto simp: deps_complete_def tag_at_iff [OF ok])
  moreover have "i \<noteq> []" using assms(1,4) by (rule inv_tag_nonempty)
  moreover obtain deps where deps: "mapE ?ids dependency_at w = (Inr deps, w)" "map ?at deps = map Some ?ids"
    using dependencies_at_ok [OF reg assms(2), of ?ids] assms(3) by (auto simp: deps_complete_def)
  ultimately have "pg_GetModuleDependencies n t w = (Inr deps, w)"
    using assms(2,4) by (simp add: pg_GetModuleDependencies_def bindE_def wrapE_def GetModuleTagId_ok)
  moreover have "k \<in> key_of ` set deps \<longleftrightarrow> k \<in> dependency_edges ?d `` {(n, t)}" for k
  proof -
    have at: "tag_at ?d (fst k) (snd k) = ?at dep \<longleftrightarrow> k = key_of dep" if "dep \<in> set deps" for dep
    proof -
      have "?at dep \<in> set (map Some ?ids)" using that unfolding deps(2) [symmetric] by auto
      then obtain j where "?at dep = Some j" by auto
      then show ?thesis using tag_at_inj [OF ok, of "dep_Name dep" "dep_Tag dep" j "fst k" "snd k"]
        by (cases k) (auto simp: key_of_def)
    qed
    have "k \<in> dependency_edges ?d `` {(n, t)} \<longleftrightarrow> tag_at ?d (fst k) (snd k) \<in> set (map Some ?ids)"
      using assms(4) by (cases k) (auto simp: dependency_edges_def)
    also have "\<dots> \<longleftrightarrow> (\<exists>dep\<in>set deps. tag_at ?d (fst k) (snd k) = ?at dep)"
      unfolding deps(2) [symmetric] by (auto simp: image_iff)
    also have "\<dots> \<longleftrightarrow> k \<in> key_of ` set deps" using at by blast
    finally show ?thesis by simp
  qed
  moreover have "distinct (map key_of deps)"
  proof -
    have "distinct (map (\<lambda>x. (d_tag_id x, d_dependency_tag_id x)) (dependencies ?d))" using ok by (simp add: schema_ok_def)
    then have "distinct ?ids" by (auto simp: distinct_map inj_on_def)
    then have "distinct (map ?at deps)" unfolding deps(2) by (simp add: distinct_map comp_inj_on_iff [symmetric])
    then show ?thesis by (auto simp: distinct_map key_of_def inj_on_def)
  qed
  ultimately show ?thesis by blast
qed

lemma succs_edges:
  assumes "reg_inv w" and "faults w = []" and "deps_complete (store w)" and "snd k \<noteq> []"
  shows "succs w k = dependency_edges (store w) `` {k}"
proof (cases "tag_at (store w) (fst k) (snd k)")
  case None
  then have "succs w k = {}" using assms(2,4)
    by (simp add: succs_def pg_GetModuleDependencies_def bindE_def wrapE_def GetModuleTagId_ok)
  with None show ?thesis by (cases k) (simp add: dependency_edges_def)
next
  case (Some i)
  from GetModuleDependencies_edges [OF assms(1-3) this] show ?thesis by (cases k) (auto simp: succs_def)
qed

lemma edges_named: "registry_ok d \<Longrightarrow> deps_complete d \<Longrightarrow> (k, k') \<in> dependency_edges d \<Longrightarrow> snd k' \<noteq> []"
  by (auto simp: dependency_edges_def deps_complete_def registry_ok_def tag_at_iff)

lemma depends_trancl_edges:
  assumes "reg_inv w" and "faults w = []" and "deps_complete (store w)" and "snd k \<noteq> []"
  shows "(depends w)\<^sup>+ `` {k} = (dependency_edges (store w))\<^sup>+ `` {k}"
proof -
  let ?E = "dependency_edges (store w)"
  have reg: "registry_ok (store w)" using assms(1) by (simp add: reg_inv_def)
  have edge: "(a, b) \<in> depends w \<longleftrightarrow> (a, b) \<in> ?E" if "snd a \<noteq> []" for a b
    using succs_edges [OF assms(1-3) that] by (auto simp: depends_def)
  note named = edges_named [OF reg assms(3)]
  have "(k, k') \<in> ?E\<^sup>+ \<and> snd k' \<noteq> []" if "(k, k') \<in> (depends w)\<^sup>+" for k'
    using that by (induction rule: trancl_induct) (use edge named assms(4) in \<open>blast intro: trancl_into_trancl\<close>)+
  moreover have "(k, k') \<in> (depends w)\<^sup>+ \<and> snd k' \<noteq> []" if "(k, k') \<in> ?E\<^sup>+" for k'
    using that by (induction rule: trancl_induct) (use edge named assms(4) in \<open>blast intro: trancl_into_trancl\<close>)+
  ultimately show ?thesis by auto
qed

end
