(* ===== verification/Sha256.thy ===== *)
theory Sha256
  imports GoLib "HOL-Library.Word"
begin

text \<open>
  \<open>crypto/sha256\<close> and \<open>encoding/hex\<close> as the program uses them: \<open>sha256hex\<close> of
  internal/data/sqlite/db.go and \<open>computeHash\<close> of internal/background/driftdetection.go are the
  hexadecimal text of the SHA-256 digest (FIPS 180-4) of the bytes of a string.
\<close>

unbundle bit_operations_syntax

type_synonym u32 = "32 word"
type_synonym byte = "8 word"

definition rotr :: "nat \<Rightarrow> u32 \<Rightarrow> u32" where
  "rotr n x = drop_bit n x OR push_bit (32 - n) x"

definition big_sigma0 :: "u32 \<Rightarrow> u32" where "big_sigma0 x = rotr 2 x XOR rotr 13 x XOR rotr 22 x"
definition big_sigma1 :: "u32 \<Rightarrow> u32" where "big_sigma1 x = rotr 6 x XOR rotr 11 x XOR rotr 25 x"
definition small_sigma0 :: "u32 \<Rightarrow> u32" where "small_sigma0 x = rotr 7 x XOR rotr 18 x XOR drop_bit 3 x"
definition small_sigma1 :: "u32 \<Rightarrow> u32" where "small_sigma1 x = rotr 17 x XOR rotr 19 x XOR drop_bit 10 x"
definition ch :: "u32 \<Rightarrow> u32 \<Rightarrow> u32 \<Rightarrow> u32" where "ch x y z = (x AND y) XOR (NOT x AND z)"
definition maj :: "u32 \<Rightarrow> u32 \<Rightarrow> u32 \<Rightarrow> u32" where "maj x y z = (x AND y) XOR (x AND z) XOR (y AND z)"

text \<open>
  The constants are the first 32 bits of the fractional parts of roots of the first primes: cube
  roots for the rounds, square roots for the initial state.  \<open>root_search k n b acc\<close> sets the bits
  below \<open>b\<close> of the largest number whose \<open>k\<close>-th power is at most \<open>n\<close>.
\<close>

fun root_search :: "nat \<Rightarrow> int \<Rightarrow> nat \<Rightarrow> int \<Rightarrow> int" where
  "root_search k n 0 acc = acc"
| "root_search k n (Suc b) acc = root_search k n b (if (acc + 2 ^ b) ^ k \<le> n then acc + 2 ^ b else acc)"

definition primes_below :: "nat \<Rightarrow> nat list" where
  "primes_below m = filter (\<lambda>n. list_all (\<lambda>d. n mod d \<noteq> 0) [2..<n]) [2..<m]"

definition root_fraction :: "nat \<Rightarrow> nat \<Rightarrow> u32" where
  "root_fraction k p = of_int (root_search k (int p * 2 ^ (32 * k)) 37 0)"

definition round_constants :: "u32 list" where
  "round_constants = map (root_fraction 3) (primes_below 312)"

type_synonym sha_state = "u32 \<times> u32 \<times> u32 \<times> u32 \<times> u32 \<times> u32 \<times> u32 \<times> u32"

definition initial_state :: sha_state where
  "initial_state = (case map (root_fraction 2) (primes_below 20) of
     [a, b, c, d, e, f, g, h] \<Rightarrow> (a, b, c, d, e, f, g, h) | _ \<Rightarrow> (0, 0, 0, 0, 0, 0, 0, 0))"

text \<open>Padding: a one bit, zeros, and the length in bits as 64 bits, big-endian.\<close>

definition length_bytes :: "nat \<Rightarrow> byte list" where
  "length_bytes n = (let bits = (of_nat n :: 64 word) * 8 in
     map (\<lambda>k. ucast (drop_bit k bits)) [56, 48, 40, 32, 24, 16, 8, 0])"

definition sha_pad :: "byte list \<Rightarrow> byte list" where
  "sha_pad bs = bs @ [128] @ replicate ((119 - length bs mod 64) mod 64) 0 @ length_bytes (length bs)"

fun words_of :: "byte list \<Rightarrow> u32 list" where
  "words_of (a # b # c # d # bs) =
     (push_bit 24 (ucast a) OR push_bit 16 (ucast b) OR push_bit 8 (ucast c) OR ucast d) # words_of bs"
| "words_of _ = []"

text \<open>The message schedule, built as a reversed list.\<close>

fun extend_schedule :: "nat \<Rightarrow> u32 list \<Rightarrow> u32 list" where
  "extend_schedule 0 ws = ws"
| "extend_schedule (Suc k) ws =
     extend_schedule k ((small_sigma1 (ws ! 1) + ws ! 6 + small_sigma0 (ws ! 14) + ws ! 15) # ws)"

fun sha_round :: "u32 \<times> u32 \<Rightarrow> sha_state \<Rightarrow> sha_state" where
  "sha_round (k, w) (a, b, c, d, e, f, g, h) =
     (let t1 = h + big_sigma1 e + ch e f g + k + w;
          t2 = big_sigma0 a + maj a b c
      in (t1 + t2, a, b, c, d + t1, e, f, g))"

fun sha_add :: "sha_state \<Rightarrow> sha_state \<Rightarrow> sha_state" where
  "sha_add (a, b, c, d, e, f, g, h) (a', b', c', d', e', f', g', h') =
     (a + a', b + b', c + c', d + d', e + e', f + f', g + g', h + h')"

definition compress :: "sha_state \<Rightarrow> u32 list \<Rightarrow> sha_state" where
  "compress s block = sha_add s (fold sha_round (zip round_constants (rev (extend_schedule 48 (rev block)))) s)"

fun sha_blocks :: "sha_state \<Rightarrow> u32 list \<Rightarrow> sha_state" where
  "sha_blocks s ws = (if length ws < 16 then s else sha_blocks (compress s (take 16 ws)) (drop 16 ws))"

declare sha_blocks.simps [simp del]

definition word_bytes :: "u32 \<Rightarrow> byte list" where
  "word_bytes x = map (\<lambda>k. ucast (drop_bit k x)) [24, 16, 8, 0]"

fun state_bytes :: "sha_state \<Rightarrow> byte list" where
  "state_bytes (a, b, c, d, e, f, g, h) = concat (map word_bytes [a, b, c, d, e, f, g, h])"

definition Sum256 :: "byte list \<Rightarrow> byte list" where
  "Sum256 bs = state_bytes (sha_blocks initial_state (words_of (sha_pad bs)))"

definition hex_digit :: "byte \<Rightarrow> char" where
  "hex_digit n = ''0123456789abcdef'' ! unat n"

definition hex_EncodeToString :: "byte list \<Rightarrow> string" where
  "hex_EncodeToString bs = concat (map (\<lambda>b. [hex_digit (drop_bit 4 b), hex_digit (b AND 15)]) bs)"

definition sha256hex :: "string \<Rightarrow> string" where
  "sha256hex s = hex_EncodeToString (Sum256 (map of_char s))"

lemma length_state_bytes [simp]: "length (state_bytes s) = 32"
  by (cases s rule: state_bytes.cases) (simp add: word_bytes_def)

lemma length_hex [simp]: "length (hex_EncodeToString bs) = 2 * length bs"
  by (induction bs) (simp_all add: hex_EncodeToString_def)

text \<open>A digest is never the empty text and always has the same length.\<close>

lemma length_sha256hex [simp]: "length (sha256hex s) = 64"
  by (simp add: sha256hex_def Sum256_def)

lemma sha256hex_nonempty [simp]: "sha256hex s \<noteq> []"
  using length_sha256hex [of s] by (metis list.size(3) zero_neq_numeral)

end
