(* ===== verification/DriftRepo.thy ===== *)
theory DriftRepo
  imports RegistryPg Sha256
begin

text \<open>
  The drift repositories, internal/data/drift.go (\<open>pg_*\<close>) and internal/data/sqlite/drift.go
  (\<open>lite_*\<close>): content hashes of proto files, the previous tag of a tag, drift events and the
  drift status of dependencies.

  A Go map from file names to hashes is the list of its entries; the order of the list is one of
  the orders in which a \<open>range\<close> loop may visit the map, and the theorems about the events found do
  not depend on it.  In PostgreSQL a missing hash is \<open>NULL\<close>, in SQLite the empty text.
\<close>

section \<open>What is outside the repository\<close>

text \<open>How the PostgreSQL driver encodes a text for a column of type UUID.\<close>

record pgx_lib =
  pgx_uuid :: "string \<Rightarrow> uuid option"

section \<open>Hashes\<close>

definition computeHash :: "string \<Rightarrow> string" where
  "computeHash content = hex_EncodeToString (Sum256 (map of_char content))"

definition lite_computeHash :: "string \<Rightarrow> string" where
  "lite_computeHash content = hex_EncodeToString (Sum256 (map of_char content))"

definition set_hash :: "'h \<Rightarrow> uuid \<Rightarrow> ('h, 't, unit) stmt" where
  "set_hash h i d =
     Inr ((), d\<lparr>protofiles := map (\<lambda>p. if p_id p = i then p\<lparr>p_content_hash := h\<rparr> else p) (protofiles d)\<rparr>)"

text \<open>\<open>files[filename] = hash\<close> for every row.\<close>

fun map_update :: "string \<Rightarrow> 'v \<Rightarrow> (string \<times> 'v) list \<Rightarrow> (string \<times> 'v) list" where
  "map_update k v [] = [(k, v)]"
| "map_update k v ((k', v') # m) = (if k' = k then (k, v) # m else (k', v') # map_update k v m)"

definition file_map :: "(string \<times> 'v) list \<Rightarrow> (string \<times> 'v) list" where
  "file_map rows = fold (\<lambda>(k, v). map_update k v) rows []"

definition pg_GetTagsWithoutHashes :: "((string option, 't) world, string list) go" where
  "pg_GetTagsWithoutHashes =
     attempt (query (\<lambda>d. remdups (map p_tag_id (filter (\<lambda>p. p_content_hash p = None) (protofiles d))))) (\<lambda>r.
     case r of Inl err \<Rightarrow> if errors_Is err ErrNoRows then ret [] else throw err | Inr tagIDs \<Rightarrow> ret tagIDs)"

definition pg_ComputeAndStoreHashes :: "uuid \<Rightarrow> ((string option, 't) world, unit) go" where
  "pg_ComputeAndStoreHashes tagID =
     inTx (\<lambda>e. e) (\<lambda>e. e)
       (bindE (query (\<lambda>d. map (\<lambda>p. (p_id p, p_content p))
          (filter (\<lambda>p. p_tag_id p = tagID \<and> p_content_hash p = None) (protofiles d)))) (\<lambda>filesToHash.
        forE filesToHash (\<lambda>f. exec (set_hash (Some (computeHash (snd f))) (fst f)))))"

definition lite_GetTagsWithoutHashes :: "((string, 't) world, string list) go" where
  "lite_GetTagsWithoutHashes =
     attempt (query (\<lambda>d. remdups (map p_tag_id (filter (\<lambda>p. p_content_hash p = []) (protofiles d))))) (\<lambda>r.
     case r of Inl err \<Rightarrow> if errors_Is err ErrNoRows then ret [] else throw err | Inr tagIDs \<Rightarrow> ret tagIDs)"

definition lite_ComputeAndStoreHashes :: "uuid \<Rightarrow> ((string, 't) world, unit) go" where
  "lite_ComputeAndStoreHashes tagID =
     inTx (\<lambda>e. e) (\<lambda>e. e)
       (bindE (query (\<lambda>d. map (\<lambda>p. (p_id p, p_content p))
          (filter (\<lambda>p. p_tag_id p = tagID \<and> p_content_hash p = []) (protofiles d)))) (\<lambda>filesToHash.
        forE filesToHash (\<lambda>f. exec (set_hash (lite_computeHash (snd f)) (fst f)))))"

section \<open>Tags\<close>

definition pg_GetTagInfo :: "uuid \<Rightarrow> (('h, 't) world, string \<times> string) go" where
  "pg_GetTagInfo tagID = queryRow (\<lambda>d. map (\<lambda>t. (t_module_id t, t_tag t)) (filter (\<lambda>t. t_id t = tagID) (tags d)))"

definition lite_GetTagInfo :: "uuid \<Rightarrow> (('h, 't) world, string \<times> string) go" where
  "lite_GetTagInfo tagID = queryRow (\<lambda>d. map (\<lambda>t. (t_module_id t, t_tag t)) (filter (\<lambda>t. t_id t = tagID) (tags d)))"

definition pg_GetPreviousTagID :: "uuid \<Rightarrow> uuid \<Rightarrow> (('h, instant) world, string) go" where
  "pg_GetPreviousTagID moduleID currentTagID =
     bindE (queryRow (\<lambda>d. map t_updated_at (filter (\<lambda>t. t_id t = currentTagID) (tags d)))) (\<lambda>currentUpdatedAt.
     attempt (queryRow (\<lambda>d. map t_id (sort_desc t_updated_at
       (filter (\<lambda>t. t_module_id t = moduleID \<and> t_id t \<noteq> currentTagID \<and> t_updated_at t < currentUpdatedAt) (tags d))))) (\<lambda>r.
     case r of Inl err \<Rightarrow> if errors_Is err ErrNoRows then ret [] else throw err | Inr previousTagID \<Rightarrow> ret previousTagID))"

text \<open>The time is read back from its text and written again in another layout before it is compared.\<close>

definition lite_GetPreviousTagID :: "uuid \<Rightarrow> uuid \<Rightarrow> (('h, string) world, string) go" where
  "lite_GetPreviousTagID moduleID currentTagID =
     bindE (queryRow (\<lambda>d. map t_updated_at (filter (\<lambda>t. t_id t = currentTagID) (tags d)))) (\<lambda>currentUpdatedAtStr.
     let currentUpdatedAt = parseTime currentUpdatedAtStr in
     attempt (queryRow (\<lambda>d. map t_id (sort_desc t_updated_at
       (filter (\<lambda>t. t_module_id t = moduleID \<and> t_id t \<noteq> currentTagID \<and> t_updated_at t < fmtTime currentUpdatedAt) (tags d))))) (\<lambda>r.
     case r of Inl err \<Rightarrow> if errors_Is err ErrNoRows then ret [] else throw err | Inr previousTagID \<Rightarrow> ret previousTagID))"

definition pg_GetFileHashesForTag :: "uuid \<Rightarrow> ((string option, 't) world, (string \<times> string) list) go" where
  "pg_GetFileHashesForTag tagID =
     attempt (query (\<lambda>d. map (\<lambda>p. (p_filename p, the (p_content_hash p)))
       (filter (\<lambda>p. p_tag_id p = tagID \<and> p_content_hash p \<noteq> None) (protofiles d)))) (\<lambda>r.
     case r of Inl err \<Rightarrow> if errors_Is err ErrNoRows then ret [] else throw err | Inr rows \<Rightarrow> ret (file_map rows))"

definition lite_GetFileHashesForTag :: "uuid \<Rightarrow> ((string, 't) world, (string \<times> string) list) go" where
  "lite_GetFileHashesForTag tagID =
     attempt (query (\<lambda>d. map (\<lambda>p. (p_filename p, p_content_hash p))
       (filter (\<lambda>p. p_tag_id p = tagID \<and> p_content_hash p \<noteq> []) (protofiles d)))) (\<lambda>r.
     case r of Inl err \<Rightarrow> if errors_Is err ErrNoRows then ret [] else throw err | Inr rows \<Rightarrow> ret (file_map rows))"

definition pg_GetProtoFileContents :: "uuid \<Rightarrow> (('h, 't) world, (string \<times> string) list) go" where
  "pg_GetProtoFileContents tagID =
     attempt (query (\<lambda>d. map (\<lambda>p. (p_filename p, p_content p)) (filter (\<lambda>p. p_tag_id p = tagID) (protofiles d)))) (\<lambda>r.
     case r of Inl err \<Rightarrow> if errors_Is err ErrNoRows then ret [] else throw err | Inr rows \<Rightarrow> ret (file_map rows))"

definition lite_GetProtoFileContents :: "uuid \<Rightarrow> (('h, 't) world, (string \<times> string) list) go" where
  "lite_GetProtoFileContents tagID =
     attempt (query (\<lambda>d. map (\<lambda>p. (p_filename p, p_content p)) (filter (\<lambda>p. p_tag_id p = tagID) (protofiles d)))) (\<lambda>r.
     case r of Inl err \<Rightarrow> if errors_Is err ErrNoRows then ret [] else throw err | Inr rows \<Rightarrow> ret (file_map rows))"

section \<open>Drift events\<close>

definition event_type_ok :: "string \<Rightarrow> bool" where
  "event_type_ok s \<longleftrightarrow> s = DriftEventTypeAdded \<or> s = DriftEventTypeModified \<or> s = DriftEventTypeDeleted"

definition severity_ok :: "string \<Rightarrow> bool" where
  "severity_ok s \<longleftrightarrow> s = DriftSeverityInfo \<or> s = DriftSeverityWarning \<or> s = DriftSeverityCritical"

definition coalesce :: "string option \<Rightarrow> string" where
  "coalesce h = (case h of None \<Rightarrow> [] | Some s \<Rightarrow> s)"

text \<open>The columns of the unique index of drift_events.\<close>

definition event_key :: "('h \<Rightarrow> string) \<Rightarrow> ('h, 't) event_row \<Rightarrow> string \<times> string \<times> string \<times> string \<times> string" where
  "event_key hk e = (de_tag_id e, de_filename e, de_event_type e, hk (de_previous_hash e), hk (de_current_hash e))"

text \<open>\<open>INSERT INTO drift_events ... VALUES ... ON CONFLICT (...) DO NOTHING\<close>, row after row, all or nothing.\<close>

fun insert_events :: "('h \<Rightarrow> string) \<Rightarrow> bool \<Rightarrow> ('h, 't) event_row list \<Rightarrow> ('h, 't, unit) stmt" where
  "insert_events hk fk [] d = Inr ((), d)"
| "insert_events hk fk (e # es) d =
     (if \<not> event_type_ok (de_event_type e) \<or> \<not> severity_ok (de_severity e) \<or>
         (fk \<and> (de_module_id e \<notin> set (map m_id (modules d)) \<or> de_tag_id e \<notin> set (map t_id (tags d))))
      then Inl ErrConstraint
      else if clash (event_key hk) e (drift_events d) then insert_events hk fk es d
      else if clash de_id e (drift_events d) then Inl ErrConstraint
      else insert_events hk fk es (d\<lparr>drift_events := drift_events d @ [e]\<rparr>))"

definition event_row_of :: "(string \<Rightarrow> 'h) \<Rightarrow> (instant \<Rightarrow> 't) \<Rightarrow> DriftEvent \<Rightarrow> uuid \<Rightarrow> ('h, 't) event_row" where
  "event_row_of h tm event i = \<lparr>de_id = i, de_module_id = ev_ModuleID event, de_tag_id = ev_TagID event,
     de_filename = ev_Filename event, de_event_type = ev_EventType event, de_previous_hash = h (ev_PreviousHash event),
     de_current_hash = h (ev_CurrentHash event), de_severity = ev_Severity event, de_detected_at = tm (ev_DetectedAt event),
     de_acknowledged = False, de_acknowledged_at = None, de_acknowledged_by = None\<rparr>"

definition null_if_empty :: "string \<Rightarrow> string option" where
  "null_if_empty s = (if s = [] then None else Some s)"

definition new_row :: "(string \<Rightarrow> 'h) \<Rightarrow> (instant \<Rightarrow> 't) \<Rightarrow> DriftEvent \<Rightarrow> (('h, 't) world, ('h, 't) event_row) go" where
  "new_row h tm event = bindE newUUID (\<lambda>i. ret (event_row_of h tm event i))"

definition pg_SaveDriftEvents :: "DriftEvent list \<Rightarrow> ((string option, instant) world, unit) go" where
  "pg_SaveDriftEvents events =
     (if events = [] then ret ()
      else bindE (mapE events (new_row null_if_empty (\<lambda>t. t))) (\<lambda>rows. exec (insert_events coalesce True rows)))"

definition lite_SaveDriftEvents :: "DriftEvent list \<Rightarrow> ((string, string) world, unit) go" where
  "lite_SaveDriftEvents events =
     (if events = [] then ret ()
      else bindE foreign_keys (\<lambda>fk.
        bindE (mapE events (new_row (\<lambda>s. s) fmtTime)) (\<lambda>rows. exec (insert_events (\<lambda>s. s) fk rows))))"

text \<open>\<open>drift_events de JOIN modules m ON ... JOIN tags t ON ...\<close>\<close>

definition joined_events :: "('h, 't) db \<Rightarrow> (('h, 't) event_row \<times> module_row \<times> 't tag_row) list" where
  "joined_events d = concat (map (\<lambda>e. concat (map (\<lambda>m. map (\<lambda>t. (e, m, t))
     (filter (\<lambda>t. de_tag_id e = t_id t) (tags d))) (filter (\<lambda>m. de_module_id e = m_id m) (modules d)))) (drift_events d))"

definition event_of :: "('h \<Rightarrow> string) \<Rightarrow> ('t \<Rightarrow> instant) \<Rightarrow> ('h, 't) event_row \<times> module_row \<times> 't tag_row \<Rightarrow> DriftEvent" where
  "event_of hk tm x = (case x of (e, m, t) \<Rightarrow> \<lparr>ev_ID = de_id e, ev_ModuleID = de_module_id e, ev_ModuleName = m_name m,
     ev_TagID = de_tag_id e, ev_TagName = t_tag t, ev_Filename = de_filename e, ev_EventType = de_event_type e,
     ev_PreviousHash = hk (de_previous_hash e), ev_CurrentHash = hk (de_current_hash e), ev_Severity = de_severity e,
     ev_DetectedAt = tm (de_detected_at e), ev_Acknowledged = de_acknowledged e,
     ev_AcknowledgedAt = map_option tm (de_acknowledged_at e), ev_AcknowledgedBy = coalesce (de_acknowledged_by e)\<rparr>)"

text \<open>The listing of unacknowledged events does not select the columns of the acknowledgement.\<close>

definition unacknowledged :: "DriftEvent \<Rightarrow> DriftEvent" where
  "unacknowledged e = e\<lparr>ev_Acknowledged := False, ev_AcknowledgedAt := None, ev_AcknowledgedBy := []\<rparr>"

definition pg_GetUnacknowledgedDriftEvents :: "((string option, instant) world, DriftEvent list) go" where
  "pg_GetUnacknowledgedDriftEvents =
     attempt (query (\<lambda>d. sort_desc (de_detected_at \<circ> fst) (filter (\<lambda>x. \<not> de_acknowledged (fst x)) (joined_events d)))) (\<lambda>r.
     case r of Inl err \<Rightarrow> if errors_Is err ErrNoRows then ret [] else throw err
     | Inr rows \<Rightarrow> ret (map (\<lambda>x. unacknowledged (event_of coalesce (\<lambda>t. t) x)) rows))"

definition lite_GetUnacknowledgedDriftEvents :: "((string, string) world, DriftEvent list) go" where
  "lite_GetUnacknowledgedDriftEvents =
     attempt (query (\<lambda>d. sort_desc (de_detected_at \<circ> fst) (filter (\<lambda>x. \<not> de_acknowledged (fst x)) (joined_events d)))) (\<lambda>r.
     case r of Inl err \<Rightarrow> if errors_Is err ErrNoRows then ret [] else throw err
     | Inr rows \<Rightarrow> ret (map (\<lambda>x. unacknowledged (event_of (\<lambda>s. s) parseTime x)) rows))"

text \<open>The number of rows is not looked at: an unknown identifier is no error.\<close>

definition acknowledge :: "'t \<Rightarrow> string \<Rightarrow> uuid \<Rightarrow> ('h, 't, unit) stmt" where
  "acknowledge ts who i d =
     Inr ((), d\<lparr>drift_events := map (\<lambda>e. if de_id e = i
        then e\<lparr>de_acknowledged := True, de_acknowledged_at := Some ts, de_acknowledged_by := Some who\<rparr> else e) (drift_events d)\<rparr>)"

definition pg_AcknowledgeDriftEvent :: "pgx_lib \<Rightarrow> string \<Rightarrow> string \<Rightarrow> (('h, instant) world, unit) go" where
  "pg_AcknowledgeDriftEvent px eventID acknowledgedBy =
     bindE now (\<lambda>ts. exec (\<lambda>d. case pgx_uuid px eventID of None \<Rightarrow> Inl ErrDB | Some i \<Rightarrow> acknowledge ts acknowledgedBy i d))"

definition lite_AcknowledgeDriftEvent :: "string \<Rightarrow> string \<Rightarrow> (('h, string) world, unit) go" where
  "lite_AcknowledgeDriftEvent eventID acknowledgedBy =
     bindE now (\<lambda>ts. exec (acknowledge (datetime ts) acknowledgedBy eventID))"

definition module_events :: "string \<Rightarrow> string \<Rightarrow> ('h, 't::linorder) db \<Rightarrow> (('h, 't) event_row \<times> module_row \<times> 't tag_row) list" where
  "module_events moduleName tagName d =
     sort_desc (de_detected_at \<circ> fst) (filter (\<lambda>(e, m, t). m_name m = moduleName \<and> (tagName = [] \<or> t_tag t = tagName)) (joined_events d))"

definition pg_GetDriftEventsForModule :: "string \<Rightarrow> string \<Rightarrow> ((string option, instant) world, DriftEvent list) go" where
  "pg_GetDriftEventsForModule moduleName tagName =
     attempt (query (module_events moduleName tagName)) (\<lambda>r.
     case r of Inl err \<Rightarrow> if errors_Is err ErrNoRows then ret [] else throw err
     | Inr rows \<Rightarrow> ret (map (event_of coalesce (\<lambda>t. t)) rows))"

definition lite_GetDriftEventsForModule :: "string \<Rightarrow> string \<Rightarrow> ((string, string) world, DriftEvent list) go" where
  "lite_GetDriftEventsForModule moduleName tagName =
     attempt (query (module_events moduleName tagName)) (\<lambda>r.
     case r of Inl err \<Rightarrow> if errors_Is err ErrNoRows then ret [] else throw err
     | Inr rows \<Rightarrow> ret (map (event_of (\<lambda>s. s) parseTime) rows))"

section \<open>Drift of dependencies\<close>

definition severityRankToDriftSeverity :: "nat \<Rightarrow> DriftSeverity" where
  "severityRankToDriftSeverity rank =
     (if rank = 3 then DriftSeverityCritical else if rank = 2 then DriftSeverityWarning else DriftSeverityInfo)"

definition recommendationFromSeverity :: "DriftSeverity \<Rightarrow> DependencyDriftRecommendation" where
  "recommendationFromSeverity severity =
     (if severity = DriftSeverityCritical \<or> severity = DriftSeverityWarning
      then DependencyDriftRecommendationAlertReview else DependencyDriftRecommendationSuggestUpdate)"

text \<open>The \<open>CASE severity\<close> of the query and \<open>COALESCE(MAX(...), 0)\<close>.\<close>

definition severity_rank :: "string \<Rightarrow> nat" where
  "severity_rank s = (if s = ''critical'' then 3 else if s = ''warning'' then 2 else if s = ''info'' then 1 else 0)"

definition max_severity_rank :: "uuid \<Rightarrow> uuid \<Rightarrow> ('h, 't) db \<Rightarrow> nat" where
  "max_severity_rank moduleID tagID d =
     foldr max (map (\<lambda>e. severity_rank (de_severity e))
       (filter (\<lambda>e. de_module_id e = moduleID \<and> de_tag_id e = tagID) (drift_events d))) 0"

definition module_tags :: "string \<Rightarrow> ('h, 't) db \<Rightarrow> 't tag_row list" where
  "module_tags moduleName d = concat (map (\<lambda>t. map (\<lambda>m. t)
     (filter (\<lambda>m. t_module_id t = m_id m \<and> m_name m = moduleName) (modules d))) (tags d))"

text \<open>The struct \<open>dependencyRef\<close>: module ID, module name, tag ID, tag name.\<close>

type_synonym dependencyRef = "uuid \<times> string \<times> uuid \<times> string"

definition dependency_refs :: "uuid \<Rightarrow> ('h, 't) db \<Rightarrow> dependencyRef list" where
  "dependency_refs tagID d = concat (map (\<lambda>x. concat (map (\<lambda>t. map (\<lambda>m. (m_id m, m_name m, t_id t, t_tag t))
     (filter (\<lambda>m. t_module_id t = m_id m) (modules d))) (filter (\<lambda>t. d_dependency_tag_id x = t_id t) (tags d))))
     (filter (\<lambda>x. d_tag_id x = tagID) (dependencies d)))"

definition newer_tags :: "uuid \<Rightarrow> uuid \<Rightarrow> ('h, 't::linorder) db \<Rightarrow> (uuid \<times> string) list" where
  "newer_tags moduleID tagID d =
     (case filter (\<lambda>t. t_id t = tagID) (tags d) of
        [] \<Rightarrow> []
      | cur # _ \<Rightarrow> map (\<lambda>t. (t_id t, t_tag t))
          (sort_key t_updated_at (filter (\<lambda>t. t_module_id t = moduleID \<and> t_updated_at cur < t_updated_at t) (tags d))))"

definition newer_status :: "dependencyRef \<Rightarrow> uuid \<times> string \<Rightarrow> (('h, 't) world, DependencyDriftStatus list) go" where
  "newer_status dep newer =
     (case dep of (moduleID, name, tagID, tagName) \<Rightarrow>
      bindE (query (max_severity_rank moduleID (fst newer))) (\<lambda>maxSeverityRank.
      if maxSeverityRank = 0 then ret []
      else let severity = severityRankToDriftSeverity maxSeverityRank in
        ret [\<lparr>dds_DependencyName = name, dds_CurrentTag = tagName, dds_TargetTag = snd newer,
              dds_Severity = severity, dds_Recommendation = recommendationFromSeverity severity\<rparr>]))"

definition dependency_status :: "dependencyRef \<Rightarrow> (('h, 't::linorder) world, DependencyDriftStatus list) go" where
  "dependency_status dep =
     bindE (query (newer_tags (fst dep) (fst (snd (snd dep))))) (\<lambda>newerTags.
     bindE (mapE newerTags (newer_status dep)) (\<lambda>statuses. ret (concat statuses)))"

definition pg_GetModuleDependencyDriftStatuses ::
  "string \<Rightarrow> string \<Rightarrow> (('h, 't::linorder) world, DependencyDriftStatus list) go" where
  "pg_GetModuleDependencyDriftStatuses moduleName tagName =
     attempt (if tagName = []
        then queryRow (\<lambda>d. map t_id (sort_desc t_updated_at (module_tags moduleName d)))
        else queryRow (\<lambda>d. map t_id (filter (\<lambda>t. t_tag t = tagName) (module_tags moduleName d)))) (\<lambda>r.
     case r of
       Inl err \<Rightarrow> if errors_Is err ErrNoRows then (if tagName = [] then ret [] else throw ErrTagNotFound) else throw err
     | Inr moduleTagID \<Rightarrow>
         bindE (query (dependency_refs moduleTagID)) (\<lambda>dependencies.
         bindE (mapE dependencies dependency_status) (\<lambda>statuses. ret (concat statuses))))"

definition lite_GetModuleDependencyDriftStatuses ::
  "string \<Rightarrow> string \<Rightarrow> (('h, 't::linorder) world, DependencyDriftStatus list) go" where
  "lite_GetModuleDependencyDriftStatuses moduleName tagName =
     attempt (if tagName = []
        then queryRow (\<lambda>d. map t_id (sort_desc t_updated_at (module_tags moduleName d)))
        else queryRow (\<lambda>d. map t_id (filter (\<lambda>t. t_tag t = tagName) (module_tags moduleName d)))) (\<lambda>r.
     case r of
       Inl err \<Rightarrow> if errors_Is err ErrNoRows then (if tagName = [] then ret [] else throw ErrTagNotFound) else throw err
     | Inr moduleTagID \<Rightarrow>
         bindE (query (dependency_refs moduleTagID)) (\<lambda>dependencies.
         bindE (mapE dependencies dependency_status) (\<lambda>statuses. ret (concat statuses))))"

section \<open>The interface\<close>

record 'w DriftRepository =
  GetTagsWithoutHashes :: "('w, string list) go"
  ComputeAndStoreHashes :: "uuid \<Rightarrow> ('w, unit) go"
  GetTagInfo :: "uuid \<Rightarrow> ('w, string \<times> string) go"
  GetPreviousTagID :: "uuid \<Rightarrow> uuid \<Rightarrow> ('w, string) go"
  GetFileHashesForTag :: "uuid \<Rightarrow> ('w, (string \<times> string) list) go"
  GetProtoFileContents :: "uuid \<Rightarrow> ('w, (string \<times> string) list) go"
  SaveDriftEvents :: "DriftEvent list \<Rightarrow> ('w, unit) go"
  GetUnacknowledgedDriftEvents :: "('w, DriftEvent list) go"
  AcknowledgeDriftEvent :: "string \<Rightarrow> string \<Rightarrow> ('w, unit) go"
  GetDriftEventsForModule :: "string \<Rightarrow> string \<Rightarrow> ('w, DriftEvent list) go"
  GetModuleDependencyDriftStatuses :: "string \<Rightarrow> string \<Rightarrow> ('w, DependencyDriftStatus list) go"

definition NewDriftRepository :: "pgx_lib \<Rightarrow> (string option, instant) world DriftRepository" where
  "NewDriftRepository px = \<lparr>GetTagsWithoutHashes = pg_GetTagsWithoutHashes,
     ComputeAndStoreHashes = pg_ComputeAndStoreHashes, GetTagInfo = pg_GetTagInfo,
     GetPreviousTagID = pg_GetPreviousTagID, GetFileHashesForTag = pg_GetFileHashesForTag,
     GetProtoFileContents = pg_GetProtoFileContents, SaveDriftEvents = pg_SaveDriftEvents,
     GetUnacknowledgedDriftEvents = pg_GetUnacknowledgedDriftEvents, AcknowledgeDriftEvent = pg_AcknowledgeDriftEvent px,
     GetDriftEventsForModule = pg_GetDriftEventsForModule,
     GetModuleDependencyDriftStatuses = pg_GetModuleDependencyDriftStatuses\<rparr>"

definition lite_NewDriftRepository :: "(string, string) world DriftRepository" where
  "lite_NewDriftRepository = \<lparr>GetTagsWithoutHashes = lite_GetTagsWithoutHashes,
     ComputeAndStoreHashes = lite_ComputeAndStoreHashes, GetTagInfo = lite_GetTagInfo,
     GetPreviousTagID = lite_GetPreviousTagID, GetFileHashesForTag = lite_GetFileHashesForTag,
     GetProtoFileContents = lite_GetProtoFileContents, SaveDriftEvents = lite_SaveDriftEvents,
     GetUnacknowledgedDriftEvents = lite_GetUnacknowledgedDriftEvents, AcknowledgeDriftEvent = lite_AcknowledgeDriftEvent,
     GetDriftEventsForModule = lite_GetDriftEventsForModule,
     GetModuleDependencyDriftStatuses = lite_GetModuleDependencyDriftStatuses\<rparr>"

end
