(* ===== verification/ProtoTools.thy ===== *)
theory ProtoTools
  imports Entities
begin

text \<open>
  Parsed proto files and what internal/utils makes of them: \<open>ValidateProtoFiles\<close> (checkers.go),
  \<open>ParseProtoFilesContents\<close> (parsers.go), \<open>RetrieveMeta\<close> (meta.go) and \<open>ToMetadata\<close>
  (metadata.go).

  The datatypes are the structs of the go-protoparser library with the fields the program reads; a
  pointer is an \<open>option\<close>.  The parser itself and \<open>encoding/json\<close> on its result are the fields
  of the record \<open>proto_lib\<close>.  A function that dereferences a pointer returns an option: \<open>None\<close>
  is the panic of a nil dereference.
\<close>

section \<open>The structs of the parser\<close>

record pOption = opt_OptionName :: string

record pField =
  fld_IsRepeated :: bool
  fld_IsRequired :: bool
  fld_IsOptional :: bool
  fld_Type :: string
  fld_FieldName :: string
  fld_FieldNumber :: string
  fld_FieldOptions :: "pOption list"

record pMapField =
  map_KeyType :: string
  map_Type :: string
  map_MapName :: string
  map_FieldNumber :: string
  map_FieldOptions :: "pOption list"

record pOneofField =
  oof_Type :: string
  oof_FieldName :: string
  oof_FieldNumber :: string
  oof_FieldOptions :: "pOption list"

record pOneof =
  one_OneofName :: string
  one_OneofFields :: "pOneofField list"
  one_Options :: "pOption list"

record pEnumField =
  enf_Ident :: string
  enf_Number :: string

record pEnumBody =
  enb_Options :: "pOption list"
  enb_EnumFields :: "pEnumField list"

record pEnum =
  enm_EnumName :: string
  enm_EnumBody :: "pEnumBody option"

datatype pMessage = Message (MessageName: string) (MessageBody: "pMessageBody option")
  and pMessageBody = Body (mb_Fields: "pField list") (mb_Enums: "pEnum list") (mb_Messages: "pMessage list")
    (mb_Options: "pOption list") (mb_Oneofs: "pOneof list") (mb_Maps: "pMapField list")

record pRPCType =
  rty_MessageType :: string
  rty_IsStream :: bool

record pRPC =
  rpc_RPCName :: string
  rpc_RPCRequest :: "pRPCType option"
  rpc_RPCResponse :: "pRPCType option"
  rpc_Options :: "pOption list"

record pServiceBody =
  svb_Options :: "pOption list"
  svb_RPCs :: "pRPC list"

record pService =
  svc_ServiceName :: string
  svc_ServiceBody :: "pServiceBody option"

record pProtoBody =
  pb_Packages :: "string list"
  pb_Imports :: "string list"
  pb_Options :: "pOption list"
  pb_Messages :: "pMessage list"
  pb_Enums :: "pEnum list"
  pb_Services :: "pService list"

record Proto =
  pr_ProtoBody :: "pProtoBody option"

record 'p proto_lib =
  parser_Parse :: "string \<Rightarrow> error + 'p"
  InterpretProto :: "'p \<Rightarrow> error + Proto"
  json_marshal_proto :: "Proto \<Rightarrow> error + string"
  json_unmarshal_proto :: "string \<Rightarrow> error + Proto option"

section \<open>Validation and parsing\<close>

record ParsedProtoFile =
  ppf_Filename :: string
  ppf_Proto :: "Proto option"
  ppf_ProtoJson :: string

definition parseProtoFile :: "'p proto_lib \<Rightarrow> string \<Rightarrow> error + 'p" where
  "parseProtoFile pl content = (case parser_Parse pl content of Inl e \<Rightarrow> Inl e | Inr p \<Rightarrow> Inr p)"

fun ValidateProtoFiles :: "'p proto_lib \<Rightarrow> ProtoFile list \<Rightarrow> error option" where
  "ValidateProtoFiles pl [] = None"
| "ValidateProtoFiles pl (f # fs) =
     (if pf_Filename f = [] then Some (ErrorString ''filename cannot be empty'')
      else if pf_Content f = [] then Some (ErrorString (''content of '' @ pf_Filename f @ '' cannot be empty''))
      else case parseProtoFile pl (pf_Content f) of
             Inl err \<Rightarrow> Some (Wrapped (''invalid proto file '' @ pf_Filename f) err)
           | Inr _ \<Rightarrow> ValidateProtoFiles pl fs)"

fun ParseProtoFilesContents :: "'p proto_lib \<Rightarrow> ProtoFile list \<Rightarrow> error + ParsedProtoFile list" where
  "ParseProtoFilesContents pl [] = Inr []"
| "ParseProtoFilesContents pl (f # fs) =
     (if pf_Content f = [] then Inl (ErrorString (''content of '' @ pf_Filename f @ '' cannot be empty''))
      else case parseProtoFile pl (pf_Content f) of
        Inl err \<Rightarrow> Inl (Wrapped (''invalid proto file '' @ pf_Filename f) err)
      | Inr parsed \<Rightarrow> (case InterpretProto pl parsed of
          Inl err \<Rightarrow> Inl (Wrapped (''cannot interpret file '' @ pf_Filename f) err)
        | Inr proto \<Rightarrow> (case json_marshal_proto pl proto of
            Inl err \<Rightarrow> Inl (Wrapped (''cannot marshall '' @ pf_Filename f) err)
          | Inr jsonContent \<Rightarrow> (case ParseProtoFilesContents pl fs of
              Inl err \<Rightarrow> Inl err
            | Inr rest \<Rightarrow> Inr (\<lparr>ppf_Filename = pf_Filename f, ppf_Proto = Some proto, ppf_ProtoJson = jsonContent\<rparr> # rest)))))"

section \<open>Strings\<close>

text \<open>The UTF-8 encodings of the white space \<open>strings.TrimSpace\<close> removes.\<close>

definition space_seqs :: "string list" where
  "space_seqs = map (map char_of :: nat list \<Rightarrow> string)
     [[9], [10], [11], [12], [13], [32], [194, 133], [194, 160], [225, 154, 128],
      [226, 128, 128], [226, 128, 129], [226, 128, 130], [226, 128, 131], [226, 128, 132], [226, 128, 133],
      [226, 128, 134], [226, 128, 135], [226, 128, 136], [226, 128, 137], [226, 128, 138],
      [226, 128, 168], [226, 128, 169], [226, 128, 175], [226, 129, 159], [227, 128, 128]]"

definition space_prefix :: "string \<Rightarrow> nat" where
  "space_prefix s = (case filter (HasPrefix s) space_seqs of [] \<Rightarrow> 0 | p # _ \<Rightarrow> length p)"

function trim_left :: "string \<Rightarrow> string" where
  "trim_left s = (if space_prefix s = 0 \<or> s = [] then s else trim_left (drop (space_prefix s) s))"
  by pat_completeness auto
termination
  by (relation "measure length") auto

declare trim_left.simps [simp del]

definition space_suffix :: "string \<Rightarrow> nat" where
  "space_suffix s = (case filter (\<lambda>p. HasPrefix (rev s) (rev p)) space_seqs of [] \<Rightarrow> 0 | p # _ \<Rightarrow> length p)"

function trim_right :: "string \<Rightarrow> string" where
  "trim_right s = (if space_suffix s = 0 \<or> s = [] then s else trim_right (take (length s - space_suffix s) s))"
  by pat_completeness auto
termination
  by (relation "measure length") auto

declare trim_right.simps [simp del]

definition TrimSpace :: "string \<Rightarrow> string" where
  "TrimSpace s = trim_right (trim_left s)"

text \<open>\<open>strings.Trim(s, "\"")\<close>\<close>

definition trim_quotes :: "string \<Rightarrow> string" where
  "trim_quotes s = rev (dropWhile (\<lambda>c. c = CHR 0x22) (rev (dropWhile (\<lambda>c. c = CHR 0x22) s)))"

text \<open>\<open>maps.Keys\<close> of a set of strings, then \<open>sort.Strings\<close>.\<close>

definition sorted_keys :: "string list \<Rightarrow> string list" where
  "sorted_keys xs = sort (remdups xs)"

section \<open>Packages a file refers to\<close>

definition getRefPackageName :: "string \<Rightarrow> string" where
  "getRefPackageName name =
     (let name = (if HasPrefix name ''('' then strings_Split (strings_Split name CHR ''('' ! 1) CHR '')'' ! 0 else name)
      in if strings_Contains name ''.''
         then let split = strings_Split name CHR ''.'' in TrimSpace (strings_Join (take (length split - 1) split) ''.'')
         else '''')"

definition getRefPackagesFromOptions :: "pOption list \<Rightarrow> string list" where
  "getRefPackagesFromOptions options = map (\<lambda>option. getRefPackageName (opt_OptionName option)) options"

definition getRefPackagesFromFieldOptions :: "pOption list \<Rightarrow> string list" where
  "getRefPackagesFromFieldOptions options = map (\<lambda>option. getRefPackageName (opt_OptionName option)) options"

fun getRefPackagesForEnums :: "pEnum list \<Rightarrow> string list option" where
  "getRefPackagesForEnums [] = Some []"
| "getRefPackagesForEnums (enum # enums) =
     (case enm_EnumBody enum of
        None \<Rightarrow> None
      | Some body \<Rightarrow> map_option ((@) (getRefPackagesFromOptions (enb_Options body))) (getRefPackagesForEnums enums))"

definition getRefPackagesForFields :: "pField list \<Rightarrow> string list" where
  "getRefPackagesForFields flds = concat (map (\<lambda>field.
     getRefPackagesFromFieldOptions (fld_FieldOptions field) @ [getRefPackageName (fld_Type field)]) flds)"

definition getRefPackagesForMaps :: "pMapField list \<Rightarrow> string list" where
  "getRefPackagesForMaps flds = concat (map (\<lambda>field.
     getRefPackagesFromFieldOptions (map_FieldOptions field) @ [getRefPackageName (map_Type field)]) flds)"

definition getRefPackagesForOneOfs :: "pOneof list \<Rightarrow> string list" where
  "getRefPackagesForOneOfs oneofs = concat (map (\<lambda>oneof.
     getRefPackagesFromOptions (one_Options oneof) @
     concat (map (\<lambda>field. getRefPackagesFromFieldOptions (oof_FieldOptions field) @ [getRefPackageName (oof_Type field)])
       (one_OneofFields oneof))) oneofs)"

fun getRefPackagesForMessages :: "pMessage list \<Rightarrow> string list option" where
  "getRefPackagesForMessages [] = Some []"
| "getRefPackagesForMessages (Message name None # messages) = None"
| "getRefPackagesForMessages (Message name (Some (Body flds enums nested options oneofs mps)) # messages) =
     (case getRefPackagesForMessages nested of None \<Rightarrow> None
      | Some names1 \<Rightarrow> (case getRefPackagesForEnums enums of None \<Rightarrow> None
      | Some names2 \<Rightarrow> (case getRefPackagesForMessages messages of None \<Rightarrow> None
      | Some rest \<Rightarrow> Some (names1 @ getRefPackagesFromOptions options @ names2 @ getRefPackagesForFields flds @
          getRefPackagesForOneOfs oneofs @ getRefPackagesForMaps mps @ rest))))"

fun getRefPackagesForRPCs :: "pRPC list \<Rightarrow> string list option" where
  "getRefPackagesForRPCs [] = Some []"
| "getRefPackagesForRPCs (rpc # rpcs) =
     (case (rpc_RPCRequest rpc, rpc_RPCResponse rpc) of
        (Some req, Some resp) \<Rightarrow> map_option ((@) (getRefPackagesFromOptions (rpc_Options rpc) @
           [getRefPackageName (rty_MessageType req), getRefPackageName (rty_MessageType resp)])) (getRefPackagesForRPCs rpcs)
      | _ \<Rightarrow> None)"

fun getRefPackagesForServices :: "pService list \<Rightarrow> string list option" where
  "getRefPackagesForServices [] = Some []"
| "getRefPackagesForServices (service # services) =
     (case svc_ServiceBody service of None \<Rightarrow> None
      | Some body \<Rightarrow> (case getRefPackagesForRPCs (svb_RPCs body) of None \<Rightarrow> None
      | Some names \<Rightarrow> map_option ((@) (getRefPackagesFromOptions (svb_Options body) @ names)) (getRefPackagesForServices services)))"

record FileMeta =
  fm_Filename :: string
  fm_Packages :: "string list"
  fm_Imports :: "string list"
  fm_RefPackages :: "string list"

record TagMeta =
  tgm_Packages :: "string list"
  tgm_Imports :: "string list"
  tgm_RefPackages :: "string list"
  tgm_FilesMeta :: "FileMeta list"

text \<open>What one round of the loop collects: packages, imports and non-empty referenced packages.\<close>

definition file_names :: "ParsedProtoFile \<Rightarrow> (string list \<times> string list \<times> string list) option" where
  "file_names file =
     (case ppf_Proto file of None \<Rightarrow> None
      | Some proto \<Rightarrow> (case pr_ProtoBody proto of None \<Rightarrow> None
      | Some body \<Rightarrow> (case getRefPackagesForMessages (pb_Messages body) of None \<Rightarrow> None
      | Some names1 \<Rightarrow> (case getRefPackagesForEnums (pb_Enums body) of None \<Rightarrow> None
      | Some names2 \<Rightarrow> (case getRefPackagesForServices (pb_Services body) of None \<Rightarrow> None
      | Some names3 \<Rightarrow> Some (pb_Packages body, map trim_quotes (pb_Imports body),
          filter (\<lambda>p. p \<noteq> []) (getRefPackagesFromOptions (pb_Options body) @ names1 @ names2 @ names3)))))))"

definition file_meta :: "ParsedProtoFile \<Rightarrow> string list \<times> string list \<times> string list \<Rightarrow> FileMeta" where
  "file_meta file x = (case x of (ps, is, rs) \<Rightarrow>
     \<lparr>fm_Filename = ppf_Filename file, fm_Packages = sorted_keys ps, fm_Imports = sorted_keys is,
      fm_RefPackages = sorted_keys rs\<rparr>)"

definition RetrieveMeta :: "ParsedProtoFile list \<Rightarrow> TagMeta option" where
  "RetrieveMeta files =
     (if list_all (\<lambda>f. file_names f \<noteq> None) files
      then let xs = map (\<lambda>f. the (file_names f)) files in
        Some \<lparr>tgm_Packages = sorted_keys (concat (map fst xs)),
          tgm_Imports = sorted_keys (concat (map (fst \<circ> snd) xs)),
          tgm_RefPackages = sorted_keys (concat (map (snd \<circ> snd) xs)),
          tgm_FilesMeta = map2 file_meta files xs\<rparr>
      else None)"

section \<open>The metadata served to clients\<close>

record v1_Field =
  vf_Name :: string
  vf_MessageType :: string
  vf_Tag :: int
  vf_Repeated :: bool
  vf_Map :: bool
  vf_Oneof :: bool
  vf_Optional :: bool
  vf_Required :: bool
  vf_OneofNames :: "string list"
  vf_OneofTypes :: "string list"
  vf_MapKeyType :: string
  vf_MapValueType :: string

record v1_EnumValue =
  vev_Name :: string
  vev_Tag :: int

record v1_Enum =
  ven_Name :: string
  ven_Values :: "v1_EnumValue list"

datatype v1_Message = V1Message (vm_Name: string) (vm_Fields: "v1_Field list") (vm_NestedMessages: "v1_Message list")
  (vm_NestedEnums: "v1_Enum list")

record v1_Method =
  vmt_Name :: string
  vmt_InputType :: string
  vmt_OutputType :: string

record v1_Service =
  vsv_Name :: string
  vsv_Methods :: "v1_Method list"

record v1_ParsedProtoFile =
  vp_Filename :: string
  vp_Messages :: "v1_Message list"
  vp_Services :: "v1_Service list"

record v1_Package =
  vpk_Name :: string
  vpk_ProtoFiles :: "v1_ParsedProtoFile list"

text \<open>The conversion \<open>int32(n)\<close> keeps the low 32 bits.\<close>

definition int32 :: "int \<Rightarrow> int" where
  "int32 n = (n + 2 ^ 31) mod 2 ^ 32 - 2 ^ 31"

text \<open>\<open>strconv.Atoi\<close>, with -1 for a text that is no number, then \<open>int32\<close>.\<close>

definition tag_number :: "string \<Rightarrow> int" where
  "tag_number s = int32 (case ParseInt s 64 of None \<Rightarrow> -1 | Some n \<Rightarrow> n)"

definition empty_field :: v1_Field where
  "empty_field = \<lparr>vf_Name = [], vf_MessageType = [], vf_Tag = 0, vf_Repeated = False, vf_Map = False, vf_Oneof = False,
     vf_Optional = False, vf_Required = False, vf_OneofNames = [], vf_OneofTypes = [], vf_MapKeyType = [], vf_MapValueType = []\<rparr>"

definition retrieveFields :: "pField list \<Rightarrow> v1_Field list" where
  "retrieveFields flds = map (\<lambda>field. empty_field\<lparr>vf_Name := fld_FieldName field, vf_MessageType := fld_Type field,
     vf_Tag := tag_number (fld_FieldNumber field), vf_Repeated := fld_IsRepeated field, vf_Map := False, vf_Oneof := False,
     vf_Required := fld_IsRequired field, vf_Optional := fld_IsOptional field\<rparr>) flds"

definition retrieveOneOfFields :: "pOneof list \<Rightarrow> v1_Field list" where
  "retrieveOneOfFields oneofs = map (\<lambda>oneof. empty_field\<lparr>vf_Name := one_OneofName oneof, vf_Oneof := True,
     vf_OneofNames := map oof_FieldName (one_OneofFields oneof), vf_OneofTypes := map oof_Type (one_OneofFields oneof)\<rparr>) oneofs"

definition retrieveMapFields :: "pMapField list \<Rightarrow> v1_Field list" where
  "retrieveMapFields flds = map (\<lambda>field. empty_field\<lparr>vf_Name := map_MapName field, vf_Tag := tag_number (map_FieldNumber field),
     vf_Map := True, vf_MapKeyType := map_KeyType field, vf_MapValueType := map_Type field\<rparr>) flds"

definition retrieveEnumValues :: "pEnumField list \<Rightarrow> v1_EnumValue list" where
  "retrieveEnumValues flds = map (\<lambda>field. \<lparr>vev_Name = enf_Ident field, vev_Tag = tag_number (enf_Number field)\<rparr>) flds"

fun retrieveEnums :: "pEnum list \<Rightarrow> v1_Enum list option" where
  "retrieveEnums [] = Some []"
| "retrieveEnums (enum # enums) =
     (case enm_EnumBody enum of None \<Rightarrow> None
      | Some body \<Rightarrow> map_option ((#) \<lparr>ven_Name = enm_EnumName enum, ven_Values = retrieveEnumValues (enb_EnumFields body)\<rparr>)
          (retrieveEnums enums))"

fun retrieveMessages :: "pMessage list \<Rightarrow> v1_Message list option" where
  "retrieveMessages [] = Some []"
| "retrieveMessages (Message name None # messages) = None"
| "retrieveMessages (Message name (Some (Body flds enums nested options oneofs mps)) # messages) =
     (case retrieveMessages nested of None \<Rightarrow> None
      | Some nestedMessages \<Rightarrow> (case retrieveEnums enums of None \<Rightarrow> None
      | Some nestedEnums \<Rightarrow> (case retrieveMessages messages of None \<Rightarrow> None
      | Some rest \<Rightarrow> Some (V1Message name (retrieveFields flds @ retrieveOneOfFields oneofs @ retrieveMapFields mps)
          nestedMessages nestedEnums # rest))))"

fun retrieveMethods :: "pRPC list \<Rightarrow> v1_Method list option" where
  "retrieveMethods [] = Some []"
| "retrieveMethods (c # cs) =
     (case (rpc_RPCRequest c, rpc_RPCResponse c) of
        (Some req, Some resp) \<Rightarrow> map_option ((#) \<lparr>vmt_Name = rpc_RPCName c, vmt_InputType = rty_MessageType req,
           vmt_OutputType = rty_MessageType resp\<rparr>) (retrieveMethods cs)
      | _ \<Rightarrow> None)"

fun retrieveServices :: "pService list \<Rightarrow> v1_Service list option" where
  "retrieveServices [] = Some []"
| "retrieveServices (service # services) =
     (case svc_ServiceBody service of None \<Rightarrow> None
      | Some body \<Rightarrow> (case retrieveMethods (svb_RPCs body) of None \<Rightarrow> None
      | Some methods \<Rightarrow> map_option ((#) \<lparr>vsv_Name = svc_ServiceName service, vsv_Methods = methods\<rparr>) (retrieveServices services)))"

text \<open>One file is listed once for every package statement it has.\<close>

definition file_entries :: "ParsedProtoFile \<Rightarrow> (string \<times> v1_ParsedProtoFile) list option" where
  "file_entries file =
     (case ppf_Proto file of None \<Rightarrow> None
      | Some proto \<Rightarrow> (case pr_ProtoBody proto of None \<Rightarrow> None
      | Some body \<Rightarrow> if pb_Packages body = [] then Some []
        else (case retrieveMessages (pb_Messages body) of None \<Rightarrow> None
          | Some messages \<Rightarrow> (case retrieveServices (pb_Services body) of None \<Rightarrow> None
          | Some services \<Rightarrow> Some (map (\<lambda>pkg. (pkg, \<lparr>vp_Filename = ppf_Filename file, vp_Messages = messages,
              vp_Services = services\<rparr>)) (pb_Packages body))))))"

definition ToMetadata :: "ParsedProtoFile list \<Rightarrow> v1_Package list option" where
  "ToMetadata files =
     (if list_all (\<lambda>f. file_entries f \<noteq> None) files
      then let entries = concat (map (\<lambda>f. the (file_entries f)) files) in
        Some (map (\<lambda>name. \<lparr>vpk_Name = name, vpk_ProtoFiles = map snd (filter (\<lambda>e. fst e = name) entries)\<rparr>)
          (sorted_keys (map fst entries)))
      else None)"

section \<open>Lemmas\<close>

lemma set_sorted_keys [simp]: "set (sorted_keys xs) = set xs"
  by (simp add: sorted_keys_def)

lemma sorted_sorted_keys [simp]: "sorted (sorted_keys xs)" "distinct (sorted_keys xs)"
  by (simp_all add: sorted_keys_def)

lemma int32_range: "- (2 ^ 31) \<le> int32 n \<and> int32 n < 2 ^ 31"
  by (simp add: int32_def)

lemma int32_id: "- (2 ^ 31) \<le> n \<Longrightarrow> n < 2 ^ 31 \<Longrightarrow> int32 n = n"
  by (simp add: int32_def)

lemma ValidateProtoFiles_None_iff:
  "ValidateProtoFiles pl fs = None \<longleftrightarrow>
     (\<forall>f\<in>set fs. pf_Filename f \<noteq> [] \<and> pf_Content f \<noteq> [] \<and> (\<exists>p. parser_Parse pl (pf_Content f) = Inr p))"
  by (induction fs) (auto simp: parseProtoFile_def split: sum.splits)

lemma ParseProtoFilesContents_names:
  "ParseProtoFilesContents pl fs = Inr ps \<Longrightarrow> map ppf_Filename ps = map pf_Filename fs"
  by (induction fs arbitrary: ps) (auto split: if_splits sum.splits)

end
