(* ===== verification/MetadataRepo.thy ===== *)
theory MetadataRepo
  imports RegistryPg ProtoTools
begin

text \<open>
  The metadata repositories, internal/data/metadata.go (\<open>pg_*\<close>) and
  internal/data/sqlite/metadata.go (\<open>lite_*\<close>): tags that are still to be parsed, their files, and
  the parsed files and tag metadata once they are.

  A call of \<open>RetrieveMeta\<close> that panics on a nil pointer ends the process: the error \<open>ErrParse\<close>
  with the message of the panic stands for it, and no statement after it runs.  \<open>encoding/json\<close> on
  a \<open>TagMeta\<close> is the record \<open>meta_codec\<close>.
\<close>

record meta_codec =
  json_marshal_meta :: "TagMeta \<Rightarrow> error + string"
  json_unmarshal_meta :: "string \<Rightarrow> error + TagMeta"

definition nil_panic :: error where
  "nil_panic = Wrapped ''runtime error: invalid memory address or nil pointer dereference'' ErrParse"

definition option_or_panic :: "'a option \<Rightarrow> error + 'a" where
  "option_or_panic x = (case x of None \<Rightarrow> Inl nil_panic | Some y \<Rightarrow> Inr y)"

section \<open>Statements\<close>

definition upsert_parsed :: "parsed_row \<Rightarrow> ('h, 't, unit) stmt" where
  "upsert_parsed r d =
     (if clash (\<lambda>x. (pp_tag_id x, pp_filename x)) r (proto_parsed_data d)
      then Inr ((), d\<lparr>proto_parsed_data := map (\<lambda>x. if pp_tag_id x = pp_tag_id r \<and> pp_filename x = pp_filename r
             then x\<lparr>pp_json := pp_json r\<rparr> else x) (proto_parsed_data d)\<rparr>)
      else if clash pp_id r (proto_parsed_data d) then Inl ErrConstraint
      else Inr ((), d\<lparr>proto_parsed_data := proto_parsed_data d @ [r]\<rparr>))"

definition upsert_meta :: "meta_row \<Rightarrow> ('h, 't, unit) stmt" where
  "upsert_meta r d =
     (if clash tm_tag_id r (tag_meta d)
      then Inr ((), d\<lparr>tag_meta := map (\<lambda>x. if tm_tag_id x = tm_tag_id r then x\<lparr>tm_meta := tm_meta r\<rparr> else x) (tag_meta d)\<rparr>)
      else if clash tm_id r (tag_meta d) then Inl ErrConstraint
      else Inr ((), d\<lparr>tag_meta := tag_meta d @ [r]\<rparr>))"

definition set_processed :: "uuid \<Rightarrow> ('h, 't, unit) stmt" where
  "set_processed tagId d =
     Inr ((), d\<lparr>tags := map (\<lambda>t. if t_id t = tagId then t\<lparr>t_is_processed := True\<rparr> else t) (tags d)\<rparr>)"

section \<open>PostgreSQL\<close>

definition pg_GetUnprocessedTagIds :: "(('h, 't) world, string list) go" where
  "pg_GetUnprocessedTagIds =
     attempt (queryRows (\<lambda>d. map t_id (filter (\<lambda>t. \<not> t_is_processed t) (tags d)))) (\<lambda>r.
     case r of Inl err \<Rightarrow> if errors_Is err ErrNoRows then ret [] else throw err | Inr tagIds \<Rightarrow> ret tagIds)"

definition pg_GetProtoFilesForTagId :: "uuid \<Rightarrow> (('h, 't) world, ProtoFile list) go" where
  "pg_GetProtoFilesForTagId tagId =
     attempt (queryRows (\<lambda>d. map (\<lambda>p. \<lparr>pf_Filename = p_filename p, pf_Content = p_content p\<rparr>)
       (filter (\<lambda>p. p_tag_id p = tagId) (protofiles d)))) (\<lambda>r.
     case r of Inl err \<Rightarrow> if errors_Is err ErrNoRows then ret [] else throw err | Inr protoFiles \<Rightarrow> ret protoFiles)"

definition save_parsed_file :: "uuid \<Rightarrow> ParsedProtoFile \<Rightarrow> (('h, 't) world, unit) go" where
  "save_parsed_file tagId file =
     bindE newUUID (\<lambda>pfID. exec (upsert_parsed \<lparr>pp_id = pfID, pp_tag_id = tagId, pp_filename = ppf_Filename file,
       pp_json = ppf_ProtoJson file\<rparr>))"

text \<open>In PostgreSQL the driver encodes the metadata when the statement is sent.\<close>

definition pg_SaveParsedProtoFiles :: "meta_codec \<Rightarrow> uuid \<Rightarrow> ParsedProtoFile list \<Rightarrow> (('h, 't) world, unit) go" where
  "pg_SaveParsedProtoFiles mc tagId files =
     bindE (liftR (option_or_panic (RetrieveMeta files))) (\<lambda>meta.
     inTx (\<lambda>e. e) (\<lambda>e. e)
       (bindE (forE files (save_parsed_file tagId)) (\<lambda>_.
        bindE (liftR (json_marshal_meta mc meta)) (\<lambda>metaJSON.
        bindE newUUID (\<lambda>tmID.
        bindE (exec (upsert_meta \<lparr>tm_id = tmID, tm_tag_id = tagId, tm_meta = metaJSON\<rparr>)) (\<lambda>_.
        exec (set_processed tagId)))))))"

definition pg_GetTagMetaByTagId :: "meta_codec \<Rightarrow> uuid \<Rightarrow> (('h, 't) world, TagMeta option) go" where
  "pg_GetTagMetaByTagId mc tagId =
     attempt (queryRow (\<lambda>d. map tm_meta (filter (\<lambda>x. tm_tag_id x = tagId) (tag_meta d)))) (\<lambda>r.
     case r of
       Inl err \<Rightarrow> if errors_Is err ErrNoRows then ret None else throw err
     | Inr s \<Rightarrow> bindE (liftR (json_unmarshal_meta mc s)) (\<lambda>meta. ret (Some meta)))"

definition parsed_file :: "'p proto_lib \<Rightarrow> string \<times> string \<Rightarrow> (('h, 't) world, ParsedProtoFile) go" where
  "parsed_file pl row =
     bindE (liftR (json_unmarshal_proto pl (snd row))) (\<lambda>proto.
     ret \<lparr>ppf_Filename = fst row, ppf_Proto = proto, ppf_ProtoJson = []\<rparr>)"

definition pg_GetParsedProtoFiles :: "'p proto_lib \<Rightarrow> uuid \<Rightarrow> (('h, 't) world, ParsedProtoFile list) go" where
  "pg_GetParsedProtoFiles pl tagId =
     attempt (queryRows (\<lambda>d. map (\<lambda>x. (pp_filename x, pp_json x)) (filter (\<lambda>x. pp_tag_id x = tagId) (proto_parsed_data d)))) (\<lambda>r.
     case r of
       Inl err \<Rightarrow> if errors_Is err ErrNoRows then ret [] else throw err
     | Inr rows \<Rightarrow> mapE rows (parsed_file pl))"

section \<open>SQLite\<close>

definition lite_GetUnprocessedTagIds :: "(('h, 't) world, string list) go" where
  "lite_GetUnprocessedTagIds =
     attempt (queryRows (\<lambda>d. map t_id (filter (\<lambda>t. \<not> t_is_processed t) (tags d)))) (\<lambda>r.
     case r of Inl err \<Rightarrow> if errors_Is err ErrNoRows then ret [] else throw err | Inr tagIds \<Rightarrow> ret tagIds)"

definition lite_GetProtoFilesForTagId :: "uuid \<Rightarrow> (('h, 't) world, ProtoFile list) go" where
  "lite_GetProtoFilesForTagId tagId =
     attempt (queryRows (\<lambda>d. map (\<lambda>p. \<lparr>pf_Filename = p_filename p, pf_Content = p_content p\<rparr>)
       (filter (\<lambda>p. p_tag_id p = tagId) (protofiles d)))) (\<lambda>r.
     case r of Inl err \<Rightarrow> if errors_Is err ErrNoRows then ret [] else throw err | Inr protoFiles \<Rightarrow> ret protoFiles)"

definition lite_SaveParsedProtoFiles :: "meta_codec \<Rightarrow> uuid \<Rightarrow> ParsedProtoFile list \<Rightarrow> (('h, 't) world, unit) go" where
  "lite_SaveParsedProtoFiles mc tagId files =
     bindE (liftR (option_or_panic (RetrieveMeta files))) (\<lambda>meta.
     inTx (\<lambda>e. e) (\<lambda>e. e)
       (bindE (forE files (save_parsed_file tagId)) (\<lambda>_.
        bindE (liftR (json_marshal_meta mc meta)) (\<lambda>metaJSON.
        bindE newUUID (\<lambda>tmID.
        bindE (exec (upsert_meta \<lparr>tm_id = tmID, tm_tag_id = tagId, tm_meta = metaJSON\<rparr>)) (\<lambda>_.
        exec (set_processed tagId)))))))"

definition lite_GetTagMetaByTagId :: "meta_codec \<Rightarrow> uuid \<Rightarrow> (('h, 't) world, TagMeta option) go" where
  "lite_GetTagMetaByTagId mc tagId =
     attempt (queryRow (\<lambda>d. map tm_meta (filter (\<lambda>x. tm_tag_id x = tagId) (tag_meta d)))) (\<lambda>r.
     case r of
       Inl err \<Rightarrow> if errors_Is err ErrNoRows then ret None else throw err
     | Inr metaStr \<Rightarrow> bindE (liftR (json_unmarshal_meta mc metaStr)) (\<lambda>meta. ret (Some meta)))"

definition lite_GetParsedProtoFiles :: "'p proto_lib \<Rightarrow> uuid \<Rightarrow> (('h, 't) world, ParsedProtoFile list) go" where
  "lite_GetParsedProtoFiles pl tagId =
     attempt (queryRows (\<lambda>d. map (\<lambda>x. (pp_filename x, pp_json x)) (filter (\<lambda>x. pp_tag_id x = tagId) (proto_parsed_data d)))) (\<lambda>r.
     case r of
       Inl err \<Rightarrow> if errors_Is err ErrNoRows then ret [] else throw err
     | Inr rows \<Rightarrow> mapE rows (parsed_file pl))"

section \<open>The interface\<close>

record 'w MetadataRepository =
  GetUnprocessedTagIds :: "('w, string list) go"
  GetProtoFilesForTagId :: "uuid \<Rightarrow> ('w, ProtoFile list) go"
  SaveParsedProtoFiles :: "uuid \<Rightarrow> ParsedProtoFile list \<Rightarrow> ('w, unit) go"
  GetParsedProtoFiles :: "uuid \<Rightarrow> ('w, ParsedProtoFile list) go"
  GetTagMetaByTagId :: "uuid \<Rightarrow> ('w, TagMeta option) go"

definition NewMetadataRepository :: "meta_codec \<Rightarrow> 'p proto_lib \<Rightarrow> ('h, 't) world MetadataRepository" where
  "NewMetadataRepository mc pl = \<lparr>GetUnprocessedTagIds = pg_GetUnprocessedTagIds,
     GetProtoFilesForTagId = pg_GetProtoFilesForTagId, SaveParsedProtoFiles = pg_SaveParsedProtoFiles mc,
     GetParsedProtoFiles = pg_GetParsedProtoFiles pl, GetTagMetaByTagId = pg_GetTagMetaByTagId mc\<rparr>"

definition lite_NewMetadataRepository :: "meta_codec \<Rightarrow> 'p proto_lib \<Rightarrow> ('h, 't) world MetadataRepository" where
  "lite_NewMetadataRepository mc pl = \<lparr>GetUnprocessedTagIds = lite_GetUnprocessedTagIds,
     GetProtoFilesForTagId = lite_GetProtoFilesForTagId, SaveParsedProtoFiles = lite_SaveParsedProtoFiles mc,
     GetParsedProtoFiles = lite_GetParsedProtoFiles pl, GetTagMetaByTagId = lite_GetTagMetaByTagId mc\<rparr>"

text \<open>The two backends run the same statements here.\<close>

lemma lite_metadata_same: "lite_NewMetadataRepository = NewMetadataRepository"
  unfolding lite_NewMetadataRepository_def NewMetadataRepository_def
    lite_GetUnprocessedTagIds_def pg_GetUnprocessedTagIds_def
    lite_GetProtoFilesForTagId_def [abs_def] pg_GetProtoFilesForTagId_def [abs_def]
    lite_SaveParsedProtoFiles_def [abs_def] pg_SaveParsedProtoFiles_def [abs_def]
    lite_GetTagMetaByTagId_def [abs_def] pg_GetTagMetaByTagId_def [abs_def]
    lite_GetParsedProtoFiles_def [abs_def] pg_GetParsedProtoFiles_def [abs_def] ..

end
