(* ===== verification/DriftDetection.thy ===== *)
theory DriftDetection
  imports DriftRepo MetadataRepo
begin

text \<open>
  internal/background/driftdetection.go: comparing the files of a tag with those of the previous
  tag, and grading a modified file by what changed in its messages, enums and services.

  A Go map is the list of its entries with distinct keys, as in the theory DriftRepo; a map to
  \<open>true\<close> is the list of its keys.
\<close>

section \<open>What is read off a parsed file\<close>

fun extractMessagesFromParsed :: "pMessage list \<Rightarrow> string list" where
  "extractMessagesFromParsed [] = []"
| "extractMessagesFromParsed (Message name None # messages) = name # extractMessagesFromParsed messages"
| "extractMessagesFromParsed (Message name (Some (Body flds enums nested options oneofs mps)) # messages) =
     name # map (\<lambda>k. name @ ''.'' @ k) (extractMessagesFromParsed nested) @ extractMessagesFromParsed messages"

definition extractServicesFromParsed :: "pService list \<Rightarrow> string list" where
  "extractServicesFromParsed services = map svc_ServiceName services"

definition extractEnumsFromParsed :: "pEnum list \<Rightarrow> string list" where
  "extractEnumsFromParsed enums = map enm_EnumName enums"

definition parseProtoNumber :: "string \<Rightarrow> int option" where
  "parseProtoNumber number = ParseInt number 32"

definition fieldKey :: "string \<Rightarrow> int \<Rightarrow> string" where
  "fieldKey messageName fieldNumber = messageName @ ''#'' @ FormatInt fieldNumber"

definition enumValueKey :: "string \<Rightarrow> int \<Rightarrow> string" where
  "enumValueKey enumName enumValueNumber = enumName @ ''#'' @ FormatInt enumValueNumber"

record parsedField =
  pfl_Name :: string
  pfl_Type :: string

type_synonym field_map = "(string \<times> parsedField) list"

definition add_field :: "string \<Rightarrow> string \<Rightarrow> string \<Rightarrow> string \<Rightarrow> field_map \<Rightarrow> field_map" where
  "add_field messageName number name ty result =
     (case parseProtoNumber number of
        None \<Rightarrow> result
      | Some fieldNum \<Rightarrow> map_update (fieldKey messageName fieldNum) \<lparr>pfl_Name = name, pfl_Type = ty\<rparr> result)"

definition map_type :: "pMapField \<Rightarrow> string" where
  "map_type f = ''map<'' @ map_KeyType f @ '','' @ map_Type f @ ''>''"

fun extractFieldsByNumberFromMessagesWithPrefix :: "pMessage list \<Rightarrow> string \<Rightarrow> field_map \<Rightarrow> field_map" where
  "extractFieldsByNumberFromMessagesWithPrefix [] prefix result = result"
| "extractFieldsByNumberFromMessagesWithPrefix (Message name None # messages) prefix result =
     extractFieldsByNumberFromMessagesWithPrefix messages prefix result"
| "extractFieldsByNumberFromMessagesWithPrefix
       (Message name (Some (Body flds enums nested options oneofs mps)) # messages) prefix result =
     (let messageName = (if prefix \<noteq> [] then prefix @ ''.'' @ name else name);
          result = fold (\<lambda>f. add_field messageName (fld_FieldNumber f) (fld_FieldName f) (fld_Type f)) flds result;
          result = fold (\<lambda>f. add_field messageName (map_FieldNumber f) (map_MapName f) (map_type f)) mps result;
          result = fold (\<lambda>oneof. fold (\<lambda>f. add_field messageName (oof_FieldNumber f) (oof_FieldName f) (oof_Type f))
            (one_OneofFields oneof)) oneofs result;
          result = extractFieldsByNumberFromMessagesWithPrefix nested messageName result
      in extractFieldsByNumberFromMessagesWithPrefix messages prefix result)"

definition extractFieldsByNumberFromMessages :: "pMessage list \<Rightarrow> field_map" where
  "extractFieldsByNumberFromMessages messages = extractFieldsByNumberFromMessagesWithPrefix messages [] []"

record parsedRPC =
  prpc_RequestType :: string
  prpc_ResponseType :: string
  prpc_RequestStream :: bool
  prpc_ResponseStream :: bool

definition parsed_rpc :: "pRPC \<Rightarrow> parsedRPC" where
  "parsed_rpc rpc = \<lparr>
     prpc_RequestType = (case rpc_RPCRequest rpc of None \<Rightarrow> [] | Some x \<Rightarrow> rty_MessageType x),
     prpc_ResponseType = (case rpc_RPCResponse rpc of None \<Rightarrow> [] | Some x \<Rightarrow> rty_MessageType x),
     prpc_RequestStream = (case rpc_RPCRequest rpc of None \<Rightarrow> False | Some x \<Rightarrow> rty_IsStream x),
     prpc_ResponseStream = (case rpc_RPCResponse rpc of None \<Rightarrow> False | Some x \<Rightarrow> rty_IsStream x)\<rparr>"

definition extractRPCDetailsFromParsed :: "pService list \<Rightarrow> (string \<times> parsedRPC) list" where
  "extractRPCDetailsFromParsed services = fold (\<lambda>svc result.
     case svc_ServiceBody svc of
       None \<Rightarrow> result
     | Some body \<Rightarrow> fold (\<lambda>rpc. map_update (svc_ServiceName svc @ ''.'' @ rpc_RPCName rpc) (parsed_rpc rpc)) (svb_RPCs body) result)
     services []"

definition extractEnumValuesByNumberFromParsed :: "pEnum list \<Rightarrow> (string \<times> string) list" where
  "extractEnumValuesByNumberFromParsed enums = fold (\<lambda>enum result.
     case enm_EnumBody enum of
       None \<Rightarrow> result
     | Some body \<Rightarrow> fold (\<lambda>field result.
         case parseProtoNumber (enf_Number field) of
           None \<Rightarrow> result
         | Some n \<Rightarrow> map_update (enumValueKey (enm_EnumName enum) n) (enf_Ident field) result) (enb_EnumFields body) result)
     enums []"

definition extractPackageFromParsed :: "string list \<Rightarrow> string" where
  "extractPackageFromParsed packages = (case packages of [] \<Rightarrow> [] | p # _ \<Rightarrow> p)"

fun countRequiredFields :: "pMessage list \<Rightarrow> nat" where
  "countRequiredFields [] = 0"
| "countRequiredFields (Message name None # messages) = countRequiredFields messages"
| "countRequiredFields (Message name (Some (Body flds enums nested options oneofs mps)) # messages) =
     length (filter fld_IsRequired flds) + countRequiredFields nested + countRequiredFields messages"

section \<open>Grading a change\<close>

text \<open>\<open>for k := range prev { if _, exists := cur[k]; !exists { return true } }\<close>\<close>

definition removed :: "string list \<Rightarrow> string list \<Rightarrow> bool" where
  "removed prev cur \<longleftrightarrow> list_ex (\<lambda>k. k \<notin> set cur) prev"

text \<open>An entry that is gone, or that differs in the compared part of its value.\<close>

definition removed_or_changed :: "('v \<Rightarrow> 'c) \<Rightarrow> (string \<times> 'v) list \<Rightarrow> (string \<times> 'v) list \<Rightarrow> bool" where
  "removed_or_changed part prev cur \<longleftrightarrow>
     list_ex (\<lambda>(k, v). case map_of cur k of None \<Rightarrow> True | Some v' \<Rightarrow> part v \<noteq> part v') prev"

definition hasBreakingChangesFromParsed :: "Proto \<Rightarrow> Proto \<Rightarrow> bool" where
  "hasBreakingChangesFromParsed previous current =
     (case (pr_ProtoBody previous, pr_ProtoBody current) of
        (Some prevBody, Some currBody) \<Rightarrow>
          extractPackageFromParsed (pb_Packages prevBody) \<noteq> extractPackageFromParsed (pb_Packages currBody) \<or>
          removed (extractMessagesFromParsed (pb_Messages prevBody)) (extractMessagesFromParsed (pb_Messages currBody)) \<or>
          removed (extractServicesFromParsed (pb_Services prevBody)) (extractServicesFromParsed (pb_Services currBody)) \<or>
          removed (extractEnumsFromParsed (pb_Enums prevBody)) (extractEnumsFromParsed (pb_Enums currBody)) \<or>
          removed_or_changed pfl_Type (extractFieldsByNumberFromMessages (pb_Messages prevBody))
            (extractFieldsByNumberFromMessages (pb_Messages currBody)) \<or>
          removed_or_changed (\<lambda>r. (prpc_RequestType r, prpc_ResponseType r, prpc_RequestStream r, prpc_ResponseStream r))
            (extractRPCDetailsFromParsed (pb_Services prevBody)) (extractRPCDetailsFromParsed (pb_Services currBody)) \<or>
          removed (map fst (extractEnumValuesByNumberFromParsed (pb_Enums prevBody)))
            (map fst (extractEnumValuesByNumberFromParsed (pb_Enums currBody)))
      | _ \<Rightarrow> False)"

definition hasPotentiallyBreakingChangesFromParsed :: "Proto \<Rightarrow> Proto \<Rightarrow> bool" where
  "hasPotentiallyBreakingChangesFromParsed previous current =
     (case (pr_ProtoBody previous, pr_ProtoBody current) of
        (Some prevBody, Some currBody) \<Rightarrow>
          countRequiredFields (pb_Messages currBody) > countRequiredFields (pb_Messages prevBody) \<or>
          list_ex (\<lambda>(k, f). case map_of (extractFieldsByNumberFromMessages (pb_Messages currBody)) k of
              None \<Rightarrow> False | Some f' \<Rightarrow> pfl_Name f \<noteq> pfl_Name f')
            (extractFieldsByNumberFromMessages (pb_Messages prevBody))
      | _ \<Rightarrow> False)"

definition determineSeverityFromParsed :: "Proto option \<Rightarrow> Proto option \<Rightarrow> DriftSeverity" where
  "determineSeverityFromParsed previous current =
     (case (previous, current) of
        (Some p, Some c) \<Rightarrow>
          if hasBreakingChangesFromParsed p c then DriftSeverityCritical
          else if hasPotentiallyBreakingChangesFromParsed p c then DriftSeverityWarning
          else DriftSeverityInfo
      | _ \<Rightarrow> DriftSeverityWarning)"

section \<open>Detecting drift\<close>

type_synonym parsed_map = "(string \<times> Proto option) list"

definition getParsedProtoMap :: "'w MetadataRepository \<Rightarrow> uuid \<Rightarrow> ('w, parsed_map) go" where
  "getParsedProtoMap mr tagID =
     bindE (GetParsedProtoFiles mr tagID) (\<lambda>parsedFiles.
     ret (fold (\<lambda>pf. map_update (ppf_Filename pf) (ppf_Proto pf)) parsedFiles []))"

text \<open>A missing key of the map is the nil pointer, as is a nil entry.\<close>

definition parsed_at :: "parsed_map \<Rightarrow> string \<Rightarrow> Proto option" where
  "parsed_at m filename = (case map_of m filename of None \<Rightarrow> None | Some p \<Rightarrow> p)"

text \<open>\<open>if currentParsed == nil { ... }\<close>: loaded once; an error leaves the empty map.\<close>

definition load_parsed :: "'w MetadataRepository \<Rightarrow> uuid \<Rightarrow> parsed_map option \<Rightarrow> ('w, parsed_map) go" where
  "load_parsed mr tagID cached =
     (case cached of
        Some m \<Rightarrow> ret m
      | None \<Rightarrow> attempt (getParsedProtoMap mr tagID) (\<lambda>r. case r of Inl err \<Rightarrow> ret [] | Inr m \<Rightarrow> ret m))"

definition new_event :: "uuid \<Rightarrow> uuid \<Rightarrow> instant \<Rightarrow> string \<Rightarrow> DriftEventType \<Rightarrow> string \<Rightarrow> string \<Rightarrow> DriftSeverity \<Rightarrow> DriftEvent" where
  "new_event moduleID tagID ts filename eventType previousHash currentHash severity =
     \<lparr>ev_ID = [], ev_ModuleID = moduleID, ev_ModuleName = [], ev_TagID = tagID, ev_TagName = [], ev_Filename = filename,
      ev_EventType = eventType, ev_PreviousHash = previousHash, ev_CurrentHash = currentHash, ev_Severity = severity,
      ev_DetectedAt = ts, ev_Acknowledged = False, ev_AcknowledgedAt = None, ev_AcknowledgedBy = []\<rparr>"

text \<open>The loop over the current files; \<open>cp\<close> and \<open>pp\<close> are \<open>currentParsed\<close> and \<open>previousParsed\<close>.\<close>

fun detect_changes :: "'w MetadataRepository \<Rightarrow> uuid \<Rightarrow> uuid \<Rightarrow> uuid \<Rightarrow> instant \<Rightarrow> (string \<times> string) list \<Rightarrow>
    (string \<times> string) list \<Rightarrow> parsed_map option \<Rightarrow> parsed_map option \<Rightarrow> DriftDetectionResult \<Rightarrow> ('w, DriftDetectionResult) go" where
  "detect_changes mr moduleID tagID previousTagID ts previousFiles [] cp pp result = ret result"
| "detect_changes mr moduleID tagID previousTagID ts previousFiles ((filename, currentHash) # currentFiles) cp pp result =
     (case map_of previousFiles filename of
        None \<Rightarrow> detect_changes mr moduleID tagID previousTagID ts previousFiles currentFiles cp pp
          (result\<lparr>res_Added := res_Added result @
             [new_event moduleID tagID ts filename DriftEventTypeAdded [] currentHash DriftSeverityInfo]\<rparr>)
      | Some previousHash \<Rightarrow>
          if currentHash = previousHash
          then detect_changes mr moduleID tagID previousTagID ts previousFiles currentFiles cp pp result
          else bindE (load_parsed mr tagID cp) (\<lambda>currentParsed.
            bindE (load_parsed mr previousTagID pp) (\<lambda>previousParsed.
            detect_changes mr moduleID tagID previousTagID ts previousFiles currentFiles (Some currentParsed) (Some previousParsed)
              (result\<lparr>res_Modified := res_Modified result @
                 [new_event moduleID tagID ts filename DriftEventTypeModified previousHash currentHash
                    (determineSeverityFromParsed (parsed_at previousParsed filename) (parsed_at currentParsed filename))]\<rparr>))))"

definition deleted_events :: "uuid \<Rightarrow> uuid \<Rightarrow> instant \<Rightarrow> (string \<times> string) list \<Rightarrow> (string \<times> string) list \<Rightarrow> DriftEvent list" where
  "deleted_events moduleID tagID ts currentFiles previousFiles =
     map (\<lambda>(filename, previousHash). new_event moduleID tagID ts filename DriftEventTypeDeleted previousHash [] DriftSeverityCritical)
       (filter (\<lambda>(filename, _). map_of currentFiles filename = None) previousFiles)"

text \<open>\<open>time.Now()\<close> is the field \<open>clock\<close> of the world, handed in as a computation.\<close>

definition detectDrift :: "'w DriftRepository \<Rightarrow> 'w MetadataRepository \<Rightarrow> ('w, instant) go \<Rightarrow> uuid \<Rightarrow> ('w, DriftDetectionResult) go" where
  "detectDrift dr mr time_Now tagID =
     bindE (GetTagInfo dr tagID) (\<lambda>info.
     let moduleID = fst info;
         result = \<lparr>res_TagID = tagID, res_ModuleID = moduleID, res_Added = [], res_Modified = [], res_Deleted = []\<rparr> in
     bindE (GetPreviousTagID dr moduleID tagID) (\<lambda>previousTagID.
     if previousTagID = [] then ret result
     else
       bindE (GetFileHashesForTag dr tagID) (\<lambda>currentFiles.
       bindE (GetFileHashesForTag dr previousTagID) (\<lambda>previousFiles.
       bindE time_Now (\<lambda>ts.
       bindE (detect_changes mr moduleID tagID previousTagID ts previousFiles currentFiles None None result) (\<lambda>result.
       ret (result\<lparr>res_Deleted := res_Deleted result @ deleted_events moduleID tagID ts currentFiles previousFiles\<rparr>)))))))"

end
