(* ===== verification/Daemons.thy ===== *)
theory Daemons
  imports DriftDetection RegistrySpec
begin

text \<open>
  The background daemons: internal/background/protoparsing.go, which parses the files of new tags
  and then looks for drift, and internal/background/compaction.go, which removes old draft tags.
  Log lines are left out.
\<close>

section \<open>Compaction\<close>

definition compaction_Run :: "'w RegistryRepository \<Rightarrow> ('w, unit) go" where
  "compaction_Run repo = bindE (DeleteObsoleteDraftTags repo) (\<lambda>_. ret ())"

section \<open>Proto parsing\<close>

text \<open>
  The loop over the unprocessed tags: an error of the lookup skips the tag, an error of the parser
  or of the save ends the run.
\<close>

fun parse_tags :: "'w MetadataRepository \<Rightarrow> 'p proto_lib \<Rightarrow> uuid list \<Rightarrow> uuid list \<Rightarrow> ('w, uuid list) go" where
  "parse_tags mr pl [] processedTagIds = ret processedTagIds"
| "parse_tags mr pl (tagId # tagIds) processedTagIds =
     attempt (GetProtoFilesForTagId mr tagId) (\<lambda>r.
     case r of
       Inl err \<Rightarrow> parse_tags mr pl tagIds processedTagIds
     | Inr protoFiles \<Rightarrow>
         (case ParseProtoFilesContents pl protoFiles of
            Inl err \<Rightarrow> throw err
          | Inr parsedProtoFiles \<Rightarrow>
              bindE (SaveParsedProtoFiles mr tagId parsedProtoFiles) (\<lambda>_.
              parse_tags mr pl tagIds (processedTagIds @ [tagId]))))"

text \<open>Phase 1: hashes for every tag that has none; an error skips the tag.\<close>

fun hash_tags :: "'w DriftRepository \<Rightarrow> uuid list \<Rightarrow> ('w, unit) go" where
  "hash_tags dr [] = ret ()"
| "hash_tags dr (tagID # tagIDs) = attempt (ComputeAndStoreHashes dr tagID) (\<lambda>_. hash_tags dr tagIDs)"

text \<open>Phase 2: the events of each tag are collected and saved; an error skips the tag.\<close>

definition all_events :: "DriftDetectionResult \<Rightarrow> DriftEvent list" where
  "all_events result = res_Added result @ res_Modified result @ res_Deleted result"

fun drift_tags :: "'w DriftRepository \<Rightarrow> 'w MetadataRepository \<Rightarrow> ('w, instant) go \<Rightarrow> uuid list \<Rightarrow> ('w, unit) go" where
  "drift_tags dr mr time_Now [] = ret ()"
| "drift_tags dr mr time_Now (tagID # tagIDs) =
     attempt (detectDrift dr mr time_Now tagID) (\<lambda>r.
     case r of
       Inl err \<Rightarrow> drift_tags dr mr time_Now tagIDs
     | Inr result \<Rightarrow>
         if HasDrift result
         then attempt (SaveDriftEvents dr (all_events result)) (\<lambda>_. drift_tags dr mr time_Now tagIDs)
         else drift_tags dr mr time_Now tagIDs)"

definition runDriftDetection :: "'w DriftRepository \<Rightarrow> 'w MetadataRepository \<Rightarrow> ('w, instant) go \<Rightarrow> uuid list \<Rightarrow> ('w, unit) go" where
  "runDriftDetection dr mr time_Now tagIds =
     attempt (GetTagsWithoutHashes dr) (\<lambda>r.
     case r of
       Inl err \<Rightarrow> ret ()
     | Inr tagsWithoutHashes \<Rightarrow>
         bindE (hash_tags dr tagsWithoutHashes) (\<lambda>_. drift_tags dr mr time_Now tagIds))"

definition protoParsing_Run :: "'w MetadataRepository \<Rightarrow> 'w DriftRepository \<Rightarrow> 'p proto_lib \<Rightarrow> ('w, instant) go \<Rightarrow> ('w, unit) go" where
  "protoParsing_Run mr dr pl time_Now =
     bindE (GetUnprocessedTagIds mr) (\<lambda>tagIds.
     bindE (parse_tags mr pl tagIds []) (\<lambda>processedTagIds.
     if processedTagIds \<noteq> [] then runDriftDetection dr mr time_Now processedTagIds else ret ()))"

end
