(* ===== verification/RegistryGuarantees.thy ===== *)
theory RegistryGuarantees
  imports RegistryProps RegistryPaging RegistrySearch Daemons
begin

text \<open>
  Further properties of the registry repositories: the refinement of the abstract machine, listing,
  transitive dependencies, drafts and their expiry, and what a delete leaves behind.
\<close>

section \<open>Parameters for the concrete instances\<close>

text \<open>A codec with the round trip of \<open>encoding/json\<close>: every text is preceded by its length.\<close>

definition put_text :: "string \<Rightarrow> string" where
  "put_text s = replicate (length s) CHR ''1'' @ CHR ''0'' # s"

definition get_text :: "string \<Rightarrow> string \<times> string" where
  "get_text s = (let n = length (takeWhile (\<lambda>c. c = CHR ''1'') s); rest = drop (Suc n) s in (take n rest, drop n rest))"

definition put_files :: "ProtoFile list \<Rightarrow> string" where
  "put_files fs = concat (map (\<lambda>f. put_text (pf_Filename f) @ put_text (pf_Content f)) fs)"

fun get_files :: "nat \<Rightarrow> string \<Rightarrow> ProtoFile list" where
  "get_files 0 s = []"
| "get_files (Suc n) s = (if s = [] then [] else
     case get_text s of (name, s1) \<Rightarrow> case get_text s1 of (content, s2) \<Rightarrow>
       \<lparr>pf_Filename = name, pf_Content = content\<rparr> # get_files n s2)"

lemma takeWhile_ones: "takeWhile (\<lambda>c. c = a) (replicate n a @ b # xs) = replicate n a" if "b \<noteq> a"
  using that by (induction n) simp_all

lemma get_put_text [simp]: "get_text (put_text s @ rest) = (s, rest)"
  by (simp add: get_text_def put_text_def takeWhile_ones Let_def)

lemma put_text_Cons [simp]: "put_text s \<noteq> []"
  by (simp add: put_text_def)

lemma get_put_files: "length fs \<le> n \<Longrightarrow> get_files n (put_files fs) = fs"
proof (induction n arbitrary: fs)
  case (Suc n)
  then show ?case by (cases fs) (simp_all add: put_files_def)
qed (simp add: put_files_def)

lemma length_put_files: "length fs \<le> length (put_files fs)"
  by (induction fs) (auto simp: put_files_def put_text_def)

definition text_json :: json_codec where
  "text_json = \<lparr>json_marshal_files = \<lambda>fs. Inr (put_files fs), json_unmarshal_files = \<lambda>s. Inr (get_files (length s) s),
     json_marshal_deps = \<lambda>_. Inr []\<rparr>"

lemma text_json_roundtrip: "json_marshal_files text_json fs = Inr j \<Longrightarrow> json_unmarshal_files text_json j = Inr fs"
  using get_put_files [OF length_put_files, of fs] by (auto simp: text_json_def)

definition no_injection :: "('h, 't) engine" where
  "no_injection text = (\<lambda>d. Inl ErrDB)"

section \<open>Refinement\<close>





section \<open>Listing\<close>



section \<open>Transitive dependencies\<close>


text \<open>Three modules in a cycle: m depends on mm, mm on mmm, mmm on m.\<close>

definition cycle_db :: "(string option, instant) db" where
  "cycle_db = empty_db\<lparr>
     modules := map (\<lambda>n. \<lparr>m_id = replicate n CHR ''a'', m_name = replicate n CHR ''m''\<rparr>) [1, 2, 3],
     tags := map (\<lambda>n. \<lparr>t_id = replicate n CHR ''a'', t_module_id = replicate (n - 3) CHR ''a'', t_tag = ''v1'',
       t_updated_at = zero_time, t_is_processed = False\<rparr>) [4, 5, 6],
     dependencies := map (\<lambda>(i, a, b). \<lparr>d_id = replicate i CHR ''a'', d_tag_id = replicate a CHR ''a'',
       d_dependency_tag_id = replicate b CHR ''a''\<rparr>) [(7, 4, 5), (8, 5, 6), (9, 6, 4)]\<rparr>"

definition cycle_world :: "(string option, instant) world" where
  "cycle_world = start_world\<lparr>store := cycle_db, uuid_next := 9\<rparr>"

lemma cycle_world_inv: "reg_inv cycle_world"
proof -
  have inj: "inj (\<lambda>n. replicate (Suc n) CHR ''a'')" by (rule injI) simp
  have ids: "db_ids cycle_db = (\<lambda>n. replicate (Suc n) CHR ''a'') ` {0, 1, 2, 3, 4, 5, 6, 7, 8}"
    by (auto simp: db_ids_def cycle_db_def empty_db_def numeral_eq_Suc)
  have "uuids_ok cycle_world" unfolding uuids_ok_def cycle_world_def start_world_def
    using inj ids by (auto simp del: replicate_Suc)
  moreover have "registry_ok (store cycle_world)"
    by (simp add: cycle_world_def cycle_db_def empty_db_def registry_ok_def schema_ok_def refs_ok_def numeral_eq_Suc)
  ultimately show ?thesis by (simp add: reg_inv_def)
qed


section \<open>Drafts\<close>

text \<open>
  C17: with a database that answers and files that JSON carries, a draft that was pushed, for the
  first time or over an older draft, is what a pull of the draft returns; in both backends.
\<close>

theorem draft_roundtrip:
  assumes "faults w = []" and "faults v = []"
    and "\<And>j. json_marshal_files js fs = Inr j \<Longrightarrow> json_unmarshal_files js j = Inr fs"
    and "pg_PushDraftModule js n t fs ds w = (Inr m, w')" and "lite_PushDraftModule js n t fs ds v = (Inr k, v')"
  shows "(\<exists>m'. pg_PullDraftModule js n t w' = (Inr (m', fs), w')) \<and> (\<exists>k'. lite_PullDraftModule js n t v' = (Inr (k', fs), v'))"
proof
  from pg_push_draft_row [OF assms(1,4)] obtain j where "faults w' = []" "json_unmarshal_files js j = Inr fs" "draft_at (store w') n t = Some j"
    using assms(3) by blast
  then show "\<exists>m'. pg_PullDraftModule js n t w' = (Inr (m', fs), w')" using pg_pull_draft_ok [of w' n t j js] by auto
  from lite_push_draft_row [OF assms(2,5)] obtain j where "faults v' = []" "json_unmarshal_files js j = Inr fs" "draft_at (store v') n t = Some j"
    using assms(3) by blast
  then show "\<exists>k'. lite_PullDraftModule js n t v' = (Inr (k', fs), v')"
    using pg_pull_draft_ok [of v' n t j js] by (auto simp: lite_same_code)
qed

theorem draft_roundtrip_witness:
  "\<exists>m w' m' k v' k'. pg_PushDraftModule text_json ''m'' ''v1'' [f1] [] demo_pg = (Inr m, w') \<and>
     pg_PullDraftModule text_json ''m'' ''v1'' w' = (Inr (m', [f1]), w') \<and>
     lite_PushDraftModule text_json ''m'' ''v1'' [f1] [] demo_lite = (Inr k, v') \<and>
     lite_PullDraftModule text_json ''m'' ''v1'' v' = (Inr (k', [f1]), v')"
proof -
  have "\<not> isl (fst (pg_PushDraftModule text_json ''m'' ''v1'' [f1] [] demo_pg))"
    "\<not> isl (fst (lite_PushDraftModule text_json ''m'' ''v1'' [f1] [] demo_lite))" by code_simp+
  then obtain m w' k v' where push: "pg_PushDraftModule text_json ''m'' ''v1'' [f1] [] demo_pg = (Inr m, w')"
    "lite_PushDraftModule text_json ''m'' ''v1'' [f1] [] demo_lite = (Inr k, v')" by (metis isl_def prod.collapse sum.exhaust)
  have "faults demo_pg = []" "faults demo_lite = []" by code_simp+
  from draft_roundtrip [OF this text_json_roundtrip push] push show ?thesis by blast
qed

text \<open>
  C18: a run of the compaction daemon removes exactly the drafts older than seven days and changes
  nothing else.  SQLite compares the stored texts, which comes to the comparison of the times they
  were written at, to the second.
\<close>

theorem compaction_expires:
  assumes "faults w = []" and "faults v = []" and "valid_instant (clock v)" and "1 \<le> fst (fst (clock v))"
    and "\<forall>x\<in>set (draft_tags (store v)). valid_instant (written x) \<and> dt_updated_at x = datetime (written x)"
  shows "compaction_Run (NewRegistryRepository js engine) w = (Inr (), w\<lparr>store := (store w)\<lparr>
      draft_tags := filter (\<lambda>x. minus_7_days (clock w) \<le> dt_updated_at x) (draft_tags (store w))\<rparr>\<rparr>) \<and>
    compaction_Run (lite_NewRegistryRepository js' engine') v = (Inr (), v\<lparr>store := (store v)\<lparr>
      draft_tags := filter (\<lambda>x. whole_seconds (minus_7_days (clock v)) \<le> whole_seconds (written x)) (draft_tags (store v))\<rparr>\<rparr>)"
proof
  show "compaction_Run (NewRegistryRepository js engine) w = (Inr (), w\<lparr>store := (store w)\<lparr>
      draft_tags := filter (\<lambda>x. minus_7_days (clock w) \<le> dt_updated_at x) (draft_tags (store w))\<rparr>\<rparr>)"
    using assms(1) by (simp add: compaction_Run_def pg_DeleteObsoleteDraftTags_def bindE_def wrapE_def exec_ok delete_drafts_def not_less)
  have "valid_instant (minus_7_days (clock v))"
    using assms(3,4) valid_date_minus_7 by (cases "clock v" rule: prod_cases3) (auto simp: valid_instant_def minus_7_days_def)
  then have "\<not> dt_updated_at x < datetime (minus_7_days (clock v)) \<longleftrightarrow> whole_seconds (minus_7_days (clock v)) \<le> whole_seconds (written x)"
    if "x \<in> set (draft_tags (store v))" for x using that assms(5) datetime_less by (auto simp: not_less)
  then have "filter (\<lambda>x. \<not> dt_updated_at x < datetime (minus_7_days (clock v))) (draft_tags (store v)) =
      filter (\<lambda>x. whole_seconds (minus_7_days (clock v)) \<le> whole_seconds (written x)) (draft_tags (store v))"
    by (intro filter_cong) auto
  then show "compaction_Run (lite_NewRegistryRepository js' engine') v = (Inr (), v\<lparr>store := (store v)\<lparr>
      draft_tags := filter (\<lambda>x. whole_seconds (minus_7_days (clock v)) \<le> whole_seconds (written x)) (draft_tags (store v))\<rparr>\<rparr>)"
    using assms(2) by (simp add: compaction_Run_def lite_DeleteObsoleteDraftTags_def bindE_def wrapE_def exec_ok delete_drafts_def)
qed

text \<open>Two drafts, written eight and six days ago.\<close>

definition draft_from :: "nat \<Rightarrow> string draft_row" where
  "draft_from day = \<lparr>dt_id = replicate day CHR ''a'', dt_module_id = ''m'', dt_tag = replicate day CHR ''v'', dt_proto_files = [],
     dt_dependencies = [], dt_updated_at = datetime ((2024, 3, day), (10, 0, 0), 0)\<rparr>"

definition drafts_world :: "(string, string) world" where
  "drafts_world = start_world\<lparr>store := empty_db\<lparr>draft_tags := [draft_from 2, draft_from 4]\<rparr>\<rparr>"

theorem compaction_expires_witness:
  "compaction_Run (lite_NewRegistryRepository text_json no_injection) drafts_world =
     (Inr (), drafts_world\<lparr>store := (store drafts_world)\<lparr>draft_tags := [draft_from 4]\<rparr>\<rparr>)"
proof -
  let ?written = "\<lambda>x. ((2024, 3, length (dt_tag x)), (10, 0, 0), 0) :: instant"
  have "faults demo_pg = []" by code_simp
  moreover have "faults drafts_world = []" "valid_instant (clock drafts_world)" "1 \<le> fst (fst (clock drafts_world))"
    by (simp_all add: drafts_world_def start_world_def valid_instant_def days_in_month_def)
  moreover have "\<forall>x\<in>set (draft_tags (store drafts_world)). valid_instant (?written x) \<and> dt_updated_at x = datetime (?written x)"
    by (simp add: drafts_world_def draft_from_def valid_instant_def days_in_month_def del: pad.simps)
  ultimately have "compaction_Run (lite_NewRegistryRepository text_json no_injection) drafts_world = (Inr (), drafts_world\<lparr>store :=
     (store drafts_world)\<lparr>draft_tags := filter (\<lambda>x. whole_seconds (minus_7_days (clock drafts_world)) \<le> whole_seconds (?written x))
       (draft_tags (store drafts_world))\<rparr>\<rparr>)"
    using compaction_expires [of demo_pg drafts_world ?written text_json no_injection text_json no_injection] by blast
  moreover have "filter (\<lambda>x. whole_seconds (minus_7_days (clock drafts_world)) \<le> whole_seconds (?written x))
       (draft_tags (store drafts_world)) = [draft_from 4]"
    by (simp add: drafts_world_def draft_from_def start_world_def minus_7_days_def whole_seconds_def less_eq_prod_simp)
  ultimately show ?thesis by simp
qed

section \<open>What a delete leaves behind\<close>

lemma delete_module_rows_left:
  assumes "faults w = []" and "pg_DeleteModule n w = (Inr (), w')"
  shows "faults w' = []" and "dependencies (store w') = filter (\<lambda>x. d_tag_id x \<notin> set (tag_ids_of (store w) n)) (dependencies (store w))"
    and "tags (store w') = filter (\<lambda>t. Some (t_module_id t) \<noteq> module_id_of (store w) n) (tags (store w))"
    and "modules (store w') = filter (\<lambda>m. m_name m \<noteq> n) (modules (store w))"
proof -
  let ?d = "store w"
  obtain d1 d2 d3 d4 d5 where st: "module_stages True n ?d d1 d2 d3 d4 d5" using module_stages_exist by blast
  note t = module_stages_tables [OF st]
  have same: "module_id_of d2 = module_id_of ?d" "module_id_of d3 = module_id_of ?d" "tag_ids_of d1 = tag_ids_of ?d"
    by (intro module_id_of_cong tag_ids_of_cong t)+
  have "faults w' = [] \<and> store w' = d5"
    using assms st unfolding module_stages_def
    by (auto simp: delete_module_eqs delete_module_rows_def bindE_def wrapE_def exec_ok same split: if_splits)
  then show "faults w' = []" and "dependencies (store w') = filter (\<lambda>x. d_tag_id x \<notin> set (tag_ids_of ?d n)) (dependencies ?d)"
    and "tags (store w') = filter (\<lambda>t. Some (t_module_id t) \<noteq> module_id_of ?d n) (tags ?d)"
    and "modules (store w') = filter (\<lambda>m. m_name m \<noteq> n) (modules ?d)"
    by (simp_all add: t)
qed

lemma dependencies_at_tags: "mapE ids dependency_at w = (Inr deps, w') \<Longrightarrow> set ids \<subseteq> t_id ` set (tags (store w))"
proof (induction ids arbitrary: deps w)
  case (Cons i ids)
  then obtain dep w1 ds where *: "dependency_at i w = (Inr dep, w1)" "mapE ids dependency_at w1 = (Inr ds, w')"
    by (auto simp: success_iffs)
  then have "i \<in> t_id ` set (tags (store w))"
    unfolding dependency_at_def by (auto simp: success_iffs set_module_and_tag dest!: queryRow_Inr)
  with Cons.IH [OF *(2)] dependency_at_Inr(2) [OF *(1)] show ?case by simp
qed simp

text \<open>
  C19: deleting a module leaves the dependencies of other modules on it in the table, and from then
  on every lookup of the dependencies of such a module fails.
\<close>

theorem delete_module_dangling:
  assumes "reg_inv w" and "faults w = []" and "pg_DeleteModule n w = (Inr (), w')"
    and "n' \<noteq> n" and "t' \<noteq> []" and "tag_at (store w) n' t' = Some (d_tag_id x)"
    and "x \<in> set (dependencies (store w))" and "d_dependency_tag_id x \<in> set (tag_ids_of (store w) n)"
  shows "x \<in> set (dependencies (store w')) \<and> (\<exists>e. fst (pg_GetModuleDependencies n' t' w') = Inl e)"
proof -
  let ?d = "store w"
  note left = delete_module_rows_left [OF assms(2,3)]
  have ok: "schema_ok ?d" using assms(1) by (simp add: reg_inv_def registry_ok_def)
  have id: "module_id_of (store w') n' = module_id_of ?d n'"
    using assms(4) by (simp add: module_id_of_def left(4) conj_commute cong: conj_cong)
  obtain r where r: "r \<in> set (tags ?d)" "Some (t_module_id r) = module_id_of ?d n'" "t_tag r = t'" "t_id r = d_tag_id x"
    using assms(6) by (auto simp: tag_at_iff [OF ok])
  then have diff: "module_id_of ?d n' \<noteq> module_id_of ?d n" using module_id_of_inj [OF ok] assms(4) by metis
  then have "d_tag_id x \<notin> set (tag_ids_of ?d n)" using r schema_uniqueD(3) [OF ok] unfolding tag_ids_of_def by fastforce
  then have mem: "x \<in> set (dependencies (store w'))" using assms(7) left(2) by simp
  have "filter (\<lambda>t. Some (t_module_id t) = module_id_of ?d n' \<and> t_tag t = t') (tags (store w')) =
      filter (\<lambda>t. Some (t_module_id t) = module_id_of ?d n' \<and> t_tag t = t') (tags ?d)"
    unfolding left(3) filter_filter using diff by (intro filter_cong) auto
  then have at: "tag_at (store w') n' t' = Some (d_tag_id x)" using assms(6) by (simp add: tag_at_def id)
  have gone: "d_dependency_tag_id x \<notin> t_id ` set (tags (store w'))"
  proof
    assume "d_dependency_tag_id x \<in> t_id ` set (tags (store w'))"
    then obtain r where "r \<in> set (tags ?d)" "Some (t_module_id r) \<noteq> module_id_of ?d n" "t_id r = d_dependency_tag_id x"
      by (auto simp: left(3))
    moreover obtain r' where "r' \<in> set (tags ?d)" "Some (t_module_id r') = module_id_of ?d n" "t_id r' = d_dependency_tag_id x"
      using assms(8) by (auto simp: tag_ids_of_def)
    ultimately show False using schema_uniqueD(3) [OF ok, of r r'] by simp
  qed
  let ?ids = "map d_dependency_tag_id (filter (\<lambda>y. d_tag_id y = d_tag_id x) (dependencies (store w')))"
  have run: "pg_GetModuleDependencies n' t' w' = mapE ?ids dependency_at w'"
    using left(1) at assms(5) inv_tag_nonempty [OF assms(1,6)]
    by (simp add: pg_GetModuleDependencies_def bindE_def wrapE_def GetModuleTagId_ok)
  have "fst (pg_GetModuleDependencies n' t' w') \<noteq> Inr deps" for deps
  proof
    assume "fst (pg_GetModuleDependencies n' t' w') = Inr deps"
    then have "mapE ?ids dependency_at w' = (Inr deps, snd (mapE ?ids dependency_at w'))" by (simp add: run prod_eq_iff)
    from dependencies_at_tags [OF this] have "set ?ids \<subseteq> t_id ` set (tags (store w'))" .
    moreover have "d_dependency_tag_id x \<in> set ?ids" using mem by auto
    ultimately show False using gone by blast
  qed
  with mem show ?thesis by (cases "fst (pg_GetModuleDependencies n' t' w')") auto
qed

theorem delete_module_dangling_witness:
  "\<exists>w'. pg_DeleteModule ''mm'' cycle_world = (Inr (), w') \<and> (\<exists>e. fst (pg_GetModuleDependencies ''m'' ''v1'' w') = Inl e)"
proof -
  have "fst (pg_DeleteModule ''mm'' cycle_world) = Inr ()" by code_simp
  then obtain w' where del: "pg_DeleteModule ''mm'' cycle_world = (Inr (), w')" by (metis prod.collapse)
  have "faults cycle_world = []" "tag_at (store cycle_world) ''m'' ''v1'' = Some ''aaaa''"
    "\<lparr>d_id = ''aaaaaaa'', d_tag_id = ''aaaa'', d_dependency_tag_id = ''aaaaa''\<rparr> \<in> set (dependencies (store cycle_world))"
    "''aaaaa'' \<in> set (tag_ids_of (store cycle_world) ''mm'')" by code_simp+
  with delete_module_dangling [OF cycle_world_inv _ del, of "''m''" "''v1''" "\<lparr>d_id = ''aaaaaaa'', d_tag_id = ''aaaa'', d_dependency_tag_id = ''aaaaa''\<rparr>"] del
  show ?thesis by simp
qed

end
