(* ===== verification/Accounts.thy ===== *)
theory Accounts
  imports RegistryPg Sha256
begin

text \<open>
  Users and access control: internal/data/users.go and acl.go (PostgreSQL, definitions \<open>pg_*\<close>)
  and internal/data/sqlite/users.go and acl.go (definitions \<open>lite_*\<close>).

  A \<open>uuid.UUID\<close> is its canonical text, so \<open>String()\<close> is the identity; \<open>uuid.Parse\<close> is a
  function of the record \<open>uuid_lib\<close>.  The functions of the pgcrypto extension are those of
  \<open>pgcrypto\<close>; \<open>gen_salt\<close> turns a random value into a salt.
\<close>

section \<open>What is outside the repository\<close>

record pgcrypto =
  crypt :: "string \<Rightarrow> string \<Rightarrow> string"
  gen_salt_bf :: "uuid \<Rightarrow> string"

record uuid_lib =
  uuid_Parse :: "string \<Rightarrow> uuid option"

text \<open>\<open>crypt\<close> reads the salt back from the hash it made.\<close>

definition crypt_law :: "pgcrypto \<Rightarrow> bool" where
  "crypt_law cr \<longleftrightarrow> (\<forall>p r. crypt cr p (crypt cr p (gen_salt_bf cr r)) = crypt cr p (gen_salt_bf cr r))"

definition parse_uuid :: "uuid_lib \<Rightarrow> string \<Rightarrow> error + uuid" where
  "parse_uuid ul s = (case uuid_Parse ul s of None \<Rightarrow> Inl ErrParse | Some u \<Rightarrow> Inr u)"

section \<open>Statements\<close>

definition user_type_ok :: "string \<Rightarrow> bool" where
  "user_type_ok ty \<longleftrightarrow> ty = UserTypeUser \<or> ty = UserTypeBot"

definition permission_ok :: "string \<Rightarrow> bool" where
  "permission_ok p \<longleftrightarrow> p = PermissionRead \<or> p = PermissionWrite \<or> p = PermissionAdmin"

definition insert_user :: "'t user_row \<Rightarrow> ('h, 't, 't user_row) stmt" where
  "insert_user r d =
     (if clash u_id r (users d) \<or> clash u_name r (users d) \<or> \<not> user_type_ok (u_type r) then Inl ErrConstraint
      else Inr (r, d\<lparr>users := users d @ [r]\<rparr>))"

text \<open>\<open>UPDATE users SET ... WHERE id = $5\<close>: the number of rows, or an error when a constraint breaks.\<close>

definition update_users :: "('t user_row \<Rightarrow> 't user_row) \<Rightarrow> uuid \<Rightarrow> ('h, 't, nat) stmt" where
  "update_users f i d =
     (let rows = map (\<lambda>r. if u_id r = i then f r else r) (users d) in
      if distinct (map u_name rows) \<and> list_all (\<lambda>r. user_type_ok (u_type r)) rows
      then Inr (length (filter (\<lambda>r. u_id r = i) (users d)), d\<lparr>users := rows\<rparr>)
      else Inl ErrConstraint)"

text \<open>\<open>acl.user_id\<close> references users with \<open>ON DELETE CASCADE\<close>.\<close>

definition delete_users :: "bool \<Rightarrow> uuid \<Rightarrow> ('h, 't, nat) stmt" where
  "delete_users fk i d =
     Inr (length (filter (\<lambda>r. u_id r = i) (users d)),
          d\<lparr>users := filter (\<lambda>r. u_id r \<noteq> i) (users d),
            acl := filter (\<lambda>a. \<not> (fk \<and> a_user_id a \<in> set (map u_id (filter (\<lambda>r. u_id r = i) (users d))))) (acl d)\<rparr>)"

text \<open>\<open>INSERT INTO acl ... ON CONFLICT (user_id, module_name) DO UPDATE SET permission = ...\<close>\<close>

definition upsert_acl :: "bool \<Rightarrow> 't acl_row \<Rightarrow> ('h, 't, unit) stmt" where
  "upsert_acl fk r d =
     (if \<not> permission_ok (a_permission r) \<or> (fk \<and> a_user_id r \<notin> set (map u_id (users d))) then Inl ErrConstraint
      else if clash (\<lambda>x. (a_user_id x, a_module_name x)) r (acl d)
      then Inr ((), d\<lparr>acl := map (\<lambda>x. if a_user_id x = a_user_id r \<and> a_module_name x = a_module_name r
             then x\<lparr>a_permission := a_permission r\<rparr> else x) (acl d)\<rparr>)
      else if clash a_id r (acl d) then Inl ErrConstraint
      else Inr ((), d\<lparr>acl := acl d @ [r]\<rparr>))"

definition acl_rows :: "uuid \<Rightarrow> string \<Rightarrow> ('h, 't) db \<Rightarrow> 't acl_row list" where
  "acl_rows i name d = filter (\<lambda>a. a_user_id a = i \<and> a_module_name a = name) (acl d)"

definition delete_acl :: "('t acl_row \<Rightarrow> bool) \<Rightarrow> ('h, 't, nat) stmt" where
  "delete_acl P d = Inr (length (filter P (acl d)), d\<lparr>acl := filter (\<lambda>a. \<not> P a) (acl d)\<rparr>)"

section \<open>Users in PostgreSQL\<close>

definition pg_user :: "instant user_row \<Rightarrow> User" where
  "pg_user r = \<lparr>usr_ID = u_id r, usr_Name = u_name r, usr_Token = u_token r, usr_Type = u_type r,
     usr_IsActive = u_is_active r, usr_CreatedAt = u_created_at r, usr_UpdatedAt = u_updated_at r\<rparr>"

text \<open>The error of a \<open>SELECT\<close> of one user.\<close>

definition user_error :: "error \<Rightarrow> error" where
  "user_error err = (if errors_Is err ErrNoRows then ErrUserNotFound
     else Wrapped ''could not select user from database'' err)"

definition pg_CreateUser :: "pgcrypto \<Rightarrow> User \<Rightarrow> (('h, instant) world, User) go" where
  "pg_CreateUser cr user =
     bindE newUUID (\<lambda>id. bindE newUUID (\<lambda>rnd. bindE now (\<lambda>ts.
     bindE (wrapE ''could not insert user into database''
       (exec (insert_user \<lparr>u_id = id, u_name = usr_Name user, u_token = crypt cr (usr_Token user) (gen_salt_bf cr rnd),
          u_type = usr_Type user, u_is_active = usr_IsActive user, u_created_at = ts, u_updated_at = ts\<rparr>))) (\<lambda>r.
     ret (user\<lparr>usr_ID := u_id r, usr_CreatedAt := u_created_at r, usr_UpdatedAt := u_updated_at r\<rparr>)))))"

definition pg_GetUser :: "uuid \<Rightarrow> (('h, instant) world, User) go" where
  "pg_GetUser userID =
     attempt (queryRow (\<lambda>d. filter (\<lambda>r. u_id r = userID) (users d))) (\<lambda>r.
     case r of Inl err \<Rightarrow> throw (user_error err) | Inr row \<Rightarrow> ret (pg_user row))"

definition pg_GetUserByName :: "string \<Rightarrow> (('h, instant) world, User) go" where
  "pg_GetUserByName name =
     attempt (queryRow (\<lambda>d. filter (\<lambda>r. u_name r = name) (users d))) (\<lambda>r.
     case r of Inl err \<Rightarrow> throw (user_error err) | Inr row \<Rightarrow> ret (pg_user row))"

definition pg_GetUserByToken :: "pgcrypto \<Rightarrow> string \<Rightarrow> (('h, instant) world, User) go" where
  "pg_GetUserByToken cr token =
     attempt (queryRow (\<lambda>d. filter (\<lambda>r. u_token r = crypt cr token (u_token r) \<and> u_is_active r) (users d))) (\<lambda>r.
     case r of Inl err \<Rightarrow> throw (user_error err) | Inr row \<Rightarrow> ret (pg_user row))"

text \<open>A negative \<open>LIMIT\<close> or \<open>OFFSET\<close> shows in \<open>rows.Err()\<close> only, as in \<open>pg_ListModules\<close>.\<close>

definition pg_ListUsers :: "int \<Rightarrow> int \<Rightarrow> (('h, instant) world, User list) go" where
  "pg_ListUsers limit offset =
     wrapE ''could not select users from database''
       (queryRows (\<lambda>d. if limit < 0 \<or> offset < 0 then []
                       else map pg_user (take (nat limit) (drop (nat offset) (sort_desc u_created_at (users d))))))"

definition pg_UpdateUser :: "pgcrypto \<Rightarrow> User \<Rightarrow> (('h, instant) world, unit) go" where
  "pg_UpdateUser cr user =
     bindE newUUID (\<lambda>rnd. bindE now (\<lambda>ts.
     bindE (wrapE ''could not update user in database''
       (exec (update_users (\<lambda>r. r\<lparr>u_name := usr_Name user, u_token := crypt cr (usr_Token user) (gen_salt_bf cr rnd),
          u_type := usr_Type user, u_is_active := usr_IsActive user, u_updated_at := ts\<rparr>) (usr_ID user)))) (\<lambda>n.
     if n = 0 then throw ErrUserNotFound else ret ())))"

definition pg_DeleteUser :: "uuid \<Rightarrow> (('h, 't) world, unit) go" where
  "pg_DeleteUser userID =
     bindE (wrapE ''could not delete user from database'' (exec (delete_users True userID))) (\<lambda>n.
     if n = 0 then throw ErrUserNotFound else ret ())"

definition pg_SetUserActive :: "uuid \<Rightarrow> bool \<Rightarrow> (('h, instant) world, unit) go" where
  "pg_SetUserActive userID isActive =
     bindE now (\<lambda>ts.
     bindE (wrapE ''could not update user active status in database''
       (exec (update_users (\<lambda>r. r\<lparr>u_is_active := isActive, u_updated_at := ts\<rparr>) userID))) (\<lambda>n.
     if n = 0 then throw ErrUserNotFound else ret ()))"

section \<open>Users in SQLite\<close>

definition boolToInt :: "bool \<Rightarrow> int" where
  "boolToInt b = (if b then 1 else 0)"

text \<open>The columns scanned into strings and an int, then converted.\<close>

definition lite_user :: "uuid_lib \<Rightarrow> string user_row \<Rightarrow> error + User" where
  "lite_user ul r =
     (case parse_uuid ul (u_id r) of
        Inl e \<Rightarrow> Inl (Wrapped ''could not parse user id'' e)
      | Inr parsedID \<Rightarrow> Inr \<lparr>usr_ID = parsedID, usr_Name = u_name r, usr_Token = u_token r, usr_Type = u_type r,
          usr_IsActive = (boolToInt (u_is_active r) \<noteq> 0),
          usr_CreatedAt = parseTime (u_created_at r), usr_UpdatedAt = parseTime (u_updated_at r)\<rparr>)"

definition lite_CreateUser :: "uuid_lib \<Rightarrow> User \<Rightarrow> (('h, string) world, User) go" where
  "lite_CreateUser ul user =
     bindE newUUID (\<lambda>id.
     let hashedToken = sha256hex (usr_Token user) in
     bindE now (\<lambda>ts.
     bindE (wrapE ''could not insert user into database''
       (exec (insert_user \<lparr>u_id = id, u_name = usr_Name user, u_token = hashedToken, u_type = usr_Type user,
          u_is_active = usr_IsActive user, u_created_at = datetime ts, u_updated_at = datetime ts\<rparr>))) (\<lambda>r.
     bindE (wrapE ''could not parse user id'' (liftR (parse_uuid ul (u_id r)))) (\<lambda>parsedID.
     ret (user\<lparr>usr_ID := parsedID, usr_CreatedAt := parseTime (u_created_at r), usr_UpdatedAt := parseTime (u_updated_at r)\<rparr>)))))"

definition lite_GetUser :: "uuid_lib \<Rightarrow> uuid \<Rightarrow> (('h, string) world, User) go" where
  "lite_GetUser ul userID =
     attempt (queryRow (\<lambda>d. filter (\<lambda>r. u_id r = userID) (users d))) (\<lambda>r.
     case r of Inl err \<Rightarrow> throw (user_error err) | Inr row \<Rightarrow> liftR (lite_user ul row))"

definition lite_GetUserByName :: "uuid_lib \<Rightarrow> string \<Rightarrow> (('h, string) world, User) go" where
  "lite_GetUserByName ul name =
     attempt (queryRow (\<lambda>d. filter (\<lambda>r. u_name r = name) (users d))) (\<lambda>r.
     case r of Inl err \<Rightarrow> throw (user_error err) | Inr row \<Rightarrow> liftR (lite_user ul row))"

definition lite_GetUserByToken :: "uuid_lib \<Rightarrow> string \<Rightarrow> (('h, string) world, User) go" where
  "lite_GetUserByToken ul token =
     (let hashedToken = sha256hex token in
     attempt (queryRow (\<lambda>d. filter (\<lambda>r. u_token r = hashedToken \<and> u_is_active r) (users d))) (\<lambda>r.
     case r of Inl err \<Rightarrow> throw (user_error err) | Inr row \<Rightarrow> liftR (lite_user ul row)))"

definition lite_ListUsers :: "uuid_lib \<Rightarrow> int \<Rightarrow> int \<Rightarrow> (('h, string) world, User list) go" where
  "lite_ListUsers ul limit offset =
     bindE (wrapE ''could not select users from database''
       (queryRows (\<lambda>d. (if limit < 0 then id else take (nat limit)) (drop (nat offset) (sort_desc u_created_at (users d)))))) (\<lambda>rows.
     mapE rows (\<lambda>row. liftR (lite_user ul row)))"

definition lite_UpdateUser :: "User \<Rightarrow> (('h, string) world, unit) go" where
  "lite_UpdateUser user =
     (let hashedToken = sha256hex (usr_Token user) in
     bindE now (\<lambda>ts.
     bindE (wrapE ''could not update user in database''
       (exec (update_users (\<lambda>r. r\<lparr>u_name := usr_Name user, u_token := hashedToken,
          u_type := usr_Type user, u_is_active := usr_IsActive user, u_updated_at := datetime ts\<rparr>) (usr_ID user)))) (\<lambda>n.
     if n = 0 then throw ErrUserNotFound else ret ())))"

definition lite_DeleteUser :: "uuid \<Rightarrow> (('h, 't) world, unit) go" where
  "lite_DeleteUser userID =
     bindE foreign_keys (\<lambda>fk.
     bindE (wrapE ''could not delete user from database'' (exec (delete_users fk userID))) (\<lambda>n.
     if n = 0 then throw ErrUserNotFound else ret ()))"

definition lite_SetUserActive :: "uuid \<Rightarrow> bool \<Rightarrow> (('h, string) world, unit) go" where
  "lite_SetUserActive userID isActive =
     bindE now (\<lambda>ts.
     bindE (wrapE ''could not update user active status in database''
       (exec (update_users (\<lambda>r. r\<lparr>u_is_active := isActive, u_updated_at := datetime ts\<rparr>) userID))) (\<lambda>n.
     if n = 0 then throw ErrUserNotFound else ret ()))"

section \<open>Access control in PostgreSQL\<close>

text \<open>A missing key of \<open>permissionLevel\<close> has level 0.\<close>

definition permissionLevel :: "Permission \<Rightarrow> nat" where
  "permissionLevel p =
     (if p = PermissionRead then 1 else if p = PermissionWrite then 2 else if p = PermissionAdmin then 3 else 0)"

definition hasRequiredPermission :: "Permission \<Rightarrow> Permission \<Rightarrow> bool" where
  "hasRequiredPermission granted required \<longleftrightarrow> permissionLevel granted \<ge> permissionLevel required"

text \<open>\<open>INSERT ... ON CONFLICT ... RETURNING id, created_at\<close> is one statement: the upsert and the row it left.\<close>

definition returning_acl :: "uuid \<Rightarrow> string \<Rightarrow> ('h, 't, unit) stmt \<Rightarrow> ('h, 't, uuid \<times> 't) stmt" where
  "returning_acl i name s d =
     (case s d of
        Inl e \<Rightarrow> Inl e
      | Inr (_, d') \<Rightarrow> (case acl_rows i name d' of [] \<Rightarrow> Inl ErrNoRows | a # _ \<Rightarrow> Inr ((a_id a, a_created_at a), d')))"

definition pg_GrantPermission :: "ACLEntry \<Rightarrow> (('h, instant) world, ACLEntry) go" where
  "pg_GrantPermission entry =
     bindE newUUID (\<lambda>newId. bindE now (\<lambda>ts.
     bindE (wrapE ''could not grant permission in database''
       (exec (returning_acl (acl_UserID entry) (acl_ModuleName entry)
         (upsert_acl True \<lparr>a_id = newId, a_user_id = acl_UserID entry, a_module_name = acl_ModuleName entry,
            a_permission = acl_Permission entry, a_created_at = ts\<rparr>)))) (\<lambda>r.
     ret (entry\<lparr>acl_ID := fst r, acl_CreatedAt := snd r\<rparr>))))"

definition pg_RevokePermission :: "uuid \<Rightarrow> string \<Rightarrow> (('h, 't) world, unit) go" where
  "pg_RevokePermission userID moduleName =
     bindE (wrapE ''could not revoke permission from database''
       (exec (delete_acl (\<lambda>a. a_user_id a = userID \<and> a_module_name a = moduleName)))) (\<lambda>n.
     if n = 0 then throw ErrPermissionNotFound else ret ())"

definition pg_entry :: "instant acl_row \<Rightarrow> ACLEntry" where
  "pg_entry a = \<lparr>acl_ID = a_id a, acl_UserID = a_user_id a, acl_ModuleName = a_module_name a,
     acl_Permission = a_permission a, acl_CreatedAt = a_created_at a\<rparr>"

definition pg_ListUserPermissions :: "uuid \<Rightarrow> (('h, instant) world, ACLEntry list) go" where
  "pg_ListUserPermissions userID =
     wrapE ''could not select permissions from database''
       (queryRows (\<lambda>d. map pg_entry (sort_desc a_created_at (filter (\<lambda>a. a_user_id a = userID) (acl d)))))"

definition pg_CheckPermission :: "uuid \<Rightarrow> string \<Rightarrow> Permission \<Rightarrow> (('h, 't) world, bool) go" where
  "pg_CheckPermission userID moduleName permission =
     attempt (queryRow (\<lambda>d. map a_permission (acl_rows userID moduleName d))) (\<lambda>r.
     case r of
       Inr foundPermission \<Rightarrow> ret (hasRequiredPermission foundPermission permission)
     | Inl err \<Rightarrow>
         if \<not> errors_Is err ErrNoRows then throw (Wrapped ''could not check permission in database'' err)
         else attempt (queryRow (\<lambda>d. map a_permission (acl_rows userID ''*'' d))) (\<lambda>r.
           case r of
             Inl err \<Rightarrow> if errors_Is err ErrNoRows then ret False
                        else throw (Wrapped ''could not check wildcard permission in database'' err)
           | Inr foundPermission \<Rightarrow> ret (hasRequiredPermission foundPermission permission)))"

definition pg_DeleteUserPermissions :: "uuid \<Rightarrow> (('h, 't) world, unit) go" where
  "pg_DeleteUserPermissions userID =
     bindE (wrapE ''could not delete user permissions from database''
       (exec (delete_acl (\<lambda>a. a_user_id a = userID)))) (\<lambda>_. ret ())"

section \<open>Access control in SQLite\<close>

definition lite_permissionLevel :: "Permission \<Rightarrow> nat" where
  "lite_permissionLevel p =
     (if p = PermissionRead then 1 else if p = PermissionWrite then 2 else if p = PermissionAdmin then 3 else 0)"

definition lite_hasRequiredPermission :: "Permission \<Rightarrow> Permission \<Rightarrow> bool" where
  "lite_hasRequiredPermission granted required \<longleftrightarrow> lite_permissionLevel granted \<ge> lite_permissionLevel required"

definition lite_GrantPermission :: "uuid_lib \<Rightarrow> ACLEntry \<Rightarrow> (('h, string) world, ACLEntry) go" where
  "lite_GrantPermission ul entry =
     bindE newUUID (\<lambda>newId. bindE now (\<lambda>ts. bindE foreign_keys (\<lambda>fk.
     bindE (wrapE ''could not grant permission in database''
       (exec (upsert_acl fk \<lparr>a_id = newId, a_user_id = acl_UserID entry, a_module_name = acl_ModuleName entry,
          a_permission = acl_Permission entry, a_created_at = datetime ts\<rparr>))) (\<lambda>_.
     bindE (wrapE ''could not fetch acl entry after grant''
       (queryRow (\<lambda>d. map (\<lambda>a. (a_id a, a_created_at a)) (acl_rows (acl_UserID entry) (acl_ModuleName entry) d)))) (\<lambda>r.
     bindE (wrapE ''could not parse acl id'' (liftR (parse_uuid ul (fst r)))) (\<lambda>parsedID.
     ret (entry\<lparr>acl_ID := parsedID, acl_CreatedAt := parseTime (snd r)\<rparr>)))))))"

definition lite_RevokePermission :: "uuid \<Rightarrow> string \<Rightarrow> (('h, 't) world, unit) go" where
  "lite_RevokePermission userID moduleName =
     bindE (wrapE ''could not revoke permission from database''
       (exec (delete_acl (\<lambda>a. a_user_id a = userID \<and> a_module_name a = moduleName)))) (\<lambda>n.
     if n = 0 then throw ErrPermissionNotFound else ret ())"

definition lite_entry :: "uuid_lib \<Rightarrow> string acl_row \<Rightarrow> error + ACLEntry" where
  "lite_entry ul a =
     (case parse_uuid ul (a_id a) of
        Inl e \<Rightarrow> Inl (Wrapped ''could not parse acl id'' e)
      | Inr parsedID \<Rightarrow> (case parse_uuid ul (a_user_id a) of
          Inl e \<Rightarrow> Inl (Wrapped ''could not parse user id'' e)
        | Inr parsedUserID \<Rightarrow> Inr \<lparr>acl_ID = parsedID, acl_UserID = parsedUserID, acl_ModuleName = a_module_name a,
            acl_Permission = a_permission a, acl_CreatedAt = parseTime (a_created_at a)\<rparr>))"

definition lite_ListUserPermissions :: "uuid_lib \<Rightarrow> uuid \<Rightarrow> (('h, string) world, ACLEntry list) go" where
  "lite_ListUserPermissions ul userID =
     bindE (wrapE ''could not select permissions from database''
       (queryRows (\<lambda>d. sort_desc a_created_at (filter (\<lambda>a. a_user_id a = userID) (acl d))))) (\<lambda>rows.
     mapE rows (\<lambda>a. liftR (lite_entry ul a)))"

definition lite_CheckPermission :: "uuid \<Rightarrow> string \<Rightarrow> Permission \<Rightarrow> (('h, 't) world, bool) go" where
  "lite_CheckPermission userID moduleName permission =
     attempt (queryRow (\<lambda>d. map a_permission (acl_rows userID moduleName d))) (\<lambda>r.
     case r of
       Inr foundPermission \<Rightarrow> ret (lite_hasRequiredPermission foundPermission permission)
     | Inl err \<Rightarrow>
         if \<not> errors_Is err ErrNoRows then throw (Wrapped ''could not check permission in database'' err)
         else attempt (queryRow (\<lambda>d. map a_permission (acl_rows userID ''*'' d))) (\<lambda>r.
           case r of
             Inl err \<Rightarrow> if errors_Is err ErrNoRows then ret False
                        else throw (Wrapped ''could not check wildcard permission in database'' err)
           | Inr foundPermission \<Rightarrow> ret (lite_hasRequiredPermission foundPermission permission)))"

definition lite_DeleteUserPermissions :: "uuid \<Rightarrow> (('h, 't) world, unit) go" where
  "lite_DeleteUserPermissions userID =
     bindE (wrapE ''could not delete user permissions from database''
       (exec (delete_acl (\<lambda>a. a_user_id a = userID)))) (\<lambda>_. ret ())"

section \<open>The interfaces\<close>

record 'w UserRepository =
  CreateUser :: "User \<Rightarrow> ('w, User) go"
  GetUser :: "uuid \<Rightarrow> ('w, User) go"
  GetUserByName :: "string \<Rightarrow> ('w, User) go"
  GetUserByToken :: "string \<Rightarrow> ('w, User) go"
  ListUsers :: "int \<Rightarrow> int \<Rightarrow> ('w, User list) go"
  UpdateUser :: "User \<Rightarrow> ('w, unit) go"
  DeleteUser :: "uuid \<Rightarrow> ('w, unit) go"
  SetUserActive :: "uuid \<Rightarrow> bool \<Rightarrow> ('w, unit) go"

record 'w ACLRepository =
  GrantPermission :: "ACLEntry \<Rightarrow> ('w, ACLEntry) go"
  RevokePermission :: "uuid \<Rightarrow> string \<Rightarrow> ('w, unit) go"
  ListUserPermissions :: "uuid \<Rightarrow> ('w, ACLEntry list) go"
  CheckPermission :: "uuid \<Rightarrow> string \<Rightarrow> Permission \<Rightarrow> ('w, bool) go"
  DeleteUserPermissions :: "uuid \<Rightarrow> ('w, unit) go"

definition NewUserRepository :: "pgcrypto \<Rightarrow> ('h, instant) world UserRepository" where
  "NewUserRepository cr = \<lparr>CreateUser = pg_CreateUser cr, GetUser = pg_GetUser, GetUserByName = pg_GetUserByName,
     GetUserByToken = pg_GetUserByToken cr, ListUsers = pg_ListUsers, UpdateUser = pg_UpdateUser cr,
     DeleteUser = pg_DeleteUser, SetUserActive = pg_SetUserActive\<rparr>"

definition lite_NewUserRepository :: "uuid_lib \<Rightarrow> ('h, string) world UserRepository" where
  "lite_NewUserRepository ul = \<lparr>CreateUser = lite_CreateUser ul, GetUser = lite_GetUser ul,
     GetUserByName = lite_GetUserByName ul, GetUserByToken = lite_GetUserByToken ul, ListUsers = lite_ListUsers ul,
     UpdateUser = lite_UpdateUser, DeleteUser = lite_DeleteUser, SetUserActive = lite_SetUserActive\<rparr>"

definition NewACLRepository :: "('h, instant) world ACLRepository" where
  "NewACLRepository = \<lparr>GrantPermission = pg_GrantPermission, RevokePermission = pg_RevokePermission,
     ListUserPermissions = pg_ListUserPermissions, CheckPermission = pg_CheckPermission,
     DeleteUserPermissions = pg_DeleteUserPermissions\<rparr>"

definition lite_NewACLRepository :: "uuid_lib \<Rightarrow> ('h, string) world ACLRepository" where
  "lite_NewACLRepository ul = \<lparr>GrantPermission = lite_GrantPermission ul, RevokePermission = lite_RevokePermission,
     ListUserPermissions = lite_ListUserPermissions ul, CheckPermission = lite_CheckPermission,
     DeleteUserPermissions = lite_DeleteUserPermissions\<rparr>"

end
