(* ===== verification/Servers.thy ===== *)
theory Servers
  imports RegistrySpec Accounts MetadataRepo DriftRepo
begin

text \<open>
  The gRPC services over the repositories: internal/server/registry.go, metadata.go, users.go and
  drift.go, with the request messages of gen/pbuf-registry/v1.  A server is its repositories; one
  definition per method.  Numbers of type int32 are integers: no method computes with them beyond
  the range of int.
\<close>

section \<open>Requests\<close>

record ListModulesRequest =
  lmr_PageSize :: int
  lmr_PageToken :: string

record GetModuleRequest =
  gmr_Name :: string
  gmr_IncludeDraftTags :: bool

record PullModuleRequest =
  plr_Name :: string
  plr_Tag :: string

record RegisterModuleRequest =
  rmr_Name :: string

record PushModuleRequest =
  pmr_ModuleName :: string
  pmr_Tag :: string
  pmr_Protofiles :: "ProtoFile list"
  pmr_Dependencies :: "Dependency list"
  pmr_IsDraft :: bool

record DeleteModuleRequest =
  dmr_Name :: string

record DeleteModuleTagRequest =
  dtr_Name :: string
  dtr_Tag :: string

record GetModuleDependenciesRequest =
  gdr_Name :: string
  gdr_Tag :: string
  gdr_ResolveTransitive :: bool

record GetMetadataRequest =
  gtr_Name :: string
  gtr_Tag :: string

section \<open>The registry service\<close>

record 'w RegistryServer =
  registryRepository :: "'w RegistryRepository"
  metadataRepository :: "'w MetadataRepository"

definition defaultPageSize :: int where
  "defaultPageSize = 10"

definition srv_RegisterModule :: "'w RegistryServer \<Rightarrow> RegisterModuleRequest \<Rightarrow> ('w, Module) go" where
  "srv_RegisterModule r request =
     (let name = rmr_Name request in
      if name = [] then throw (ErrorString ''name cannot be empty'')
      else bindE (RegisterModule (registryRepository r) name) (\<lambda>_.
        ret \<lparr>mod_Id = [], mod_Name = name, mod_Tags = [], mod_DraftTags = [], mod_Packages = []\<rparr>))"

definition srv_GetModule :: "'w RegistryServer \<Rightarrow> GetModuleRequest \<Rightarrow> ('w, Module) go" where
  "srv_GetModule r request =
     (let name = gmr_Name request in
      if name = [] then throw (ErrorString ''name cannot be empty'')
      else bindE (GetModule (registryRepository r) name) (\<lambda>m.
        case m of
          None \<Rightarrow> throw (ErrorString ''module not found'')
        | Some module \<Rightarrow>
            (case mod_Tags module of
               [] \<Rightarrow> ret module
             | tag # _ \<Rightarrow>
                 bindE (GetModuleTagId (registryRepository r) name tag) (\<lambda>tagId.
                 bindE (GetTagMetaByTagId (metadataRepository r) tagId) (\<lambda>tagMeta.
                 case tagMeta of
                   None \<Rightarrow> ret module
                 | Some meta \<Rightarrow> ret (module\<lparr>mod_Packages := tgm_Packages meta\<rparr>))))))"

definition srv_ListModules :: "'w RegistryServer \<Rightarrow> ListModulesRequest \<Rightarrow> ('w, Module list \<times> string) go" where
  "srv_ListModules r request =
     (let pageSize = (if lmr_PageSize request = 0 then defaultPageSize else lmr_PageSize request) in
      ListModules (registryRepository r) pageSize (lmr_PageToken request))"

definition srv_DeleteModule :: "'w RegistryServer \<Rightarrow> DeleteModuleRequest \<Rightarrow> ('w, string) go" where
  "srv_DeleteModule r request =
     (let name = dmr_Name request in
      if name = [] then throw (ErrorString ''name cannot be empty'')
      else bindE (DeleteModule (registryRepository r) name) (\<lambda>_. ret name))"

definition srv_PushModule :: "'w RegistryServer \<Rightarrow> 'p proto_lib \<Rightarrow> PushModuleRequest \<Rightarrow> ('w, Module) go" where
  "srv_PushModule r pl request =
     (let name = pmr_ModuleName request; tag = pmr_Tag request in
      if name = [] then throw (ErrorString ''name cannot be empty'')
      else if tag = [] then throw (ErrorString ''tag cannot be empty'')
      else case ValidateProtoFiles pl (pmr_Protofiles request) of
        Some err \<Rightarrow> throw err
      | None \<Rightarrow>
          if pmr_IsDraft request
          then PushDraftModule (registryRepository r) name tag (pmr_Protofiles request) (pmr_Dependencies request)
          else bindE (PushModule (registryRepository r) name tag (pmr_Protofiles request)) (\<lambda>module.
            bindE (AddModuleDependencies (registryRepository r) name tag (pmr_Dependencies request)) (\<lambda>_.
            ret module)))"

definition srv_PullModule :: "'w RegistryServer \<Rightarrow> PullModuleRequest \<Rightarrow> ('w, Module \<times> ProtoFile list) go" where
  "srv_PullModule r request =
     (let name = plr_Name request; tag = plr_Tag request in
      if name = [] then throw (ErrorString ''name cannot be empty'')
      else if tag = [] then throw (ErrorString ''tag cannot be empty'')
      else attempt (PullModule (registryRepository r) name tag) (\<lambda>res.
        case res of
          Inr x \<Rightarrow> ret x
        | Inl err \<Rightarrow>
            if errors_Is err ErrTagNotFound
            then attempt (PullDraftModule (registryRepository r) name tag) (\<lambda>res.
              case res of
                Inr x \<Rightarrow> ret x
              | Inl err \<Rightarrow>
                  if errors_Is err ErrTagNotFound
                  then throw (ErrorString (''tag '' @ tag @ '' not found for module '' @ name))
                  else throw err)
            else throw err))"

definition srv_DeleteModuleTag :: "'w RegistryServer \<Rightarrow> DeleteModuleTagRequest \<Rightarrow> ('w, string \<times> string) go" where
  "srv_DeleteModuleTag r request =
     (let name = dtr_Name request; tag = dtr_Tag request in
      if name = [] then throw (ErrorString ''name cannot be empty'')
      else if tag = [] then throw (ErrorString ''tag cannot be empty'')
      else bindE (DeleteModuleTag (registryRepository r) name tag) (\<lambda>_. ret (name, tag)))"

definition srv_GetModuleDependencies :: "'w RegistryServer \<Rightarrow> GetModuleDependenciesRequest \<Rightarrow> ('w, Dependency list) go" where
  "srv_GetModuleDependencies r request =
     (let name = gdr_Name request in
      if name = [] then throw (ErrorString ''name cannot be empty'')
      else if gdr_ResolveTransitive request
      then GetTransitiveDependencies (registryRepository r) name (gdr_Tag request)
      else GetModuleDependencies (registryRepository r) name (gdr_Tag request))"

section \<open>The metadata service\<close>

definition srv_GetMetadata :: "'w RegistryServer \<Rightarrow> GetMetadataRequest \<Rightarrow> ('w, v1_Package list) go" where
  "srv_GetMetadata m request =
     (if gtr_Name request = [] then throw (ErrorString ''module name is required'')
      else if gtr_Tag request = [] then throw (ErrorString ''tag is required'')
      else bindE (GetModuleTagId (registryRepository m) (gtr_Name request) (gtr_Tag request)) (\<lambda>tagId.
        if tagId = [] then throw (ErrorString ''module tag not found'')
        else bindE (GetTagMetaByTagId (metadataRepository m) tagId) (\<lambda>tagMeta.
          case tagMeta of
            None \<Rightarrow> throw (ErrorString ''tag meta not found'')
          | Some _ \<Rightarrow> bindE (GetParsedProtoFiles (metadataRepository m) tagId) (\<lambda>parsedProtoFiles.
              liftR (option_or_panic (ToMetadata parsedProtoFiles))))))"

section \<open>The users service\<close>

datatype v1_UserType = USER_TYPE_UNSPECIFIED | USER_TYPE_USER | USER_TYPE_BOT | UserType_other int
datatype v1_Permission = PERMISSION_UNSPECIFIED | PERMISSION_READ | PERMISSION_WRITE | PERMISSION_ADMIN | Permission_other int

record CreateUserRequest =
  cur_Name :: string
  cur_Type :: v1_UserType

record ListUsersRequest =
  lur_PageSize :: int
  lur_Page :: int

record GetUserRequest =
  gur_Id :: string

record UpdateUserRequest =
  uur_Id :: string
  uur_Name :: string
  uur_IsActive :: bool

record DeleteUserRequest =
  dur_Id :: string

record RegenerateTokenRequest =
  rtr_Id :: string

record GrantPermissionRequest =
  gpr_UserId :: string
  gpr_ModuleName :: string
  gpr_Permission :: v1_Permission

record RevokePermissionRequest =
  rpr_UserId :: string
  rpr_ModuleName :: string

record ListUserPermissionsRequest =
  lpr_UserId :: string

record v1_User =
  vu_Id :: string
  vu_Name :: string
  vu_Type :: v1_UserType
  vu_IsActive :: bool
  vu_CreatedAt :: "instant option"
  vu_UpdatedAt :: "instant option"

record v1_ACLEntry =
  va_Id :: string
  va_UserId :: string
  va_ModuleName :: string
  va_Permission :: v1_Permission
  va_CreatedAt :: "instant option"

definition ErrInvalidRequest :: error where
  "ErrInvalidRequest = KratosError 400 ''INVALID_REQUEST'' ''invalid request''"

definition srv_ErrUserNotFound :: error where
  "srv_ErrUserNotFound = KratosError 404 ''USER_NOT_FOUND'' ''user not found''"

definition InternalServer :: "string \<Rightarrow> string \<Rightarrow> error" where
  "InternalServer reason msg = KratosError 500 reason msg"

definition NotFound :: "string \<Rightarrow> string \<Rightarrow> error" where
  "NotFound reason msg = KratosError 404 reason msg"

definition parseUUID :: "uuid_lib \<Rightarrow> string \<Rightarrow> error + uuid" where
  "parseUUID ul i = (case parse_uuid ul i of Inl _ \<Rightarrow> Inl ErrInvalidRequest | Inr u \<Rightarrow> Inr u)"

definition userTypeFromV1 :: "v1_UserType \<Rightarrow> error + UserType" where
  "userTypeFromV1 t = (case t of USER_TYPE_USER \<Rightarrow> Inr UserTypeUser | USER_TYPE_BOT \<Rightarrow> Inr UserTypeBot | _ \<Rightarrow> Inl ErrInvalidRequest)"

definition userTypeToV1 :: "UserType \<Rightarrow> v1_UserType" where
  "userTypeToV1 t = (if t = UserTypeUser then USER_TYPE_USER else if t = UserTypeBot then USER_TYPE_BOT else USER_TYPE_UNSPECIFIED)"

definition permissionFromV1 :: "v1_Permission \<Rightarrow> error + Permission" where
  "permissionFromV1 p = (case p of PERMISSION_READ \<Rightarrow> Inr PermissionRead | PERMISSION_WRITE \<Rightarrow> Inr PermissionWrite
     | PERMISSION_ADMIN \<Rightarrow> Inr PermissionAdmin | _ \<Rightarrow> Inl ErrInvalidRequest)"

definition permissionToV1 :: "Permission \<Rightarrow> v1_Permission" where
  "permissionToV1 p = (if p = PermissionRead then PERMISSION_READ else if p = PermissionWrite then PERMISSION_WRITE
     else if p = PermissionAdmin then PERMISSION_ADMIN else PERMISSION_UNSPECIFIED)"

definition toTimestamp :: "instant \<Rightarrow> instant option" where
  "toTimestamp t = (if t = zero_time then None else Some t)"

definition toV1User :: "User \<Rightarrow> v1_User" where
  "toV1User user = \<lparr>vu_Id = usr_ID user, vu_Name = usr_Name user, vu_Type = userTypeToV1 (usr_Type user),
     vu_IsActive = usr_IsActive user, vu_CreatedAt = toTimestamp (usr_CreatedAt user), vu_UpdatedAt = toTimestamp (usr_UpdatedAt user)\<rparr>"

definition toV1ACLEntry :: "ACLEntry \<Rightarrow> v1_ACLEntry" where
  "toV1ACLEntry entry = \<lparr>va_Id = acl_ID entry, va_UserId = acl_UserID entry, va_ModuleName = acl_ModuleName entry,
     va_Permission = permissionToV1 (acl_Permission entry), va_CreatedAt = toTimestamp (acl_CreatedAt entry)\<rparr>"

text \<open>
  The server: its repositories, \<open>uuid.Parse\<close>, and \<open>rand.Read\<close>, a computation that yields the random
  bytes or fails.
\<close>

record 'w UsersServer =
  userRepo :: "'w UserRepository"
  aclRepo :: "'w ACLRepository"
  uuidLib :: uuid_lib
  rand_Read :: "('w, string) go"

text \<open>\<open>base64.RawURLEncoding\<close>: the URL alphabet, no padding.\<close>

definition RawURLEncoding :: "string \<Rightarrow> string" where
  "RawURLEncoding s = map (\<lambda>c. if c = CHR ''+'' then CHR ''-'' else if c = CHR ''/'' then CHR ''_'' else c)
     (filter (\<lambda>c. c \<noteq> CHR ''='') (EncodeToString s))"

definition generateToken :: "'w UsersServer \<Rightarrow> UserType \<Rightarrow> ('w, string) go" where
  "generateToken s userType =
     bindE (rand_Read s) (\<lambda>randomBytes.
     let encoded = RawURLEncoding randomBytes in
     ret (''pbuf_'' @ userType @ ''_'' @ encoded))"

text \<open>\<open>if err != nil { return nil, kerrors.InternalServer(...) }\<close>\<close>

definition orInternal :: "string \<Rightarrow> string \<Rightarrow> ('w, 'a) go \<Rightarrow> ('w, 'a) go" where
  "orInternal reason msg m = attempt m (\<lambda>r. case r of Inl _ \<Rightarrow> throw (InternalServer reason msg) | Inr x \<Rightarrow> ret x)"

text \<open>The same, with a user that is not there reported as such.\<close>

definition orUserNotFound :: "string \<Rightarrow> string \<Rightarrow> ('w, 'a) go \<Rightarrow> ('w, 'a) go" where
  "orUserNotFound reason msg m = attempt m (\<lambda>r. case r of
     Inl err \<Rightarrow> if errors_Is err ErrUserNotFound then throw srv_ErrUserNotFound else throw (InternalServer reason msg)
   | Inr x \<Rightarrow> ret x)"

definition srv_CreateUser :: "'w UsersServer \<Rightarrow> CreateUserRequest option \<Rightarrow> ('w, v1_User \<times> string) go" where
  "srv_CreateUser s req =
     (case req of None \<Rightarrow> throw ErrInvalidRequest
      | Some request \<Rightarrow>
        bindE (liftR (userTypeFromV1 (cur_Type request))) (\<lambda>userType.
        if cur_Name request = [] then throw ErrInvalidRequest
        else
          bindE (orInternal ''TOKEN_GENERATION_FAILED'' ''failed to generate token'' (generateToken s userType)) (\<lambda>token.
          bindE (orInternal ''USER_CREATION_FAILED'' ''failed to create user''
            (CreateUser (userRepo s) \<lparr>usr_ID = [], usr_Name = cur_Name request, usr_Token = token, usr_Type = userType,
               usr_IsActive = True, usr_CreatedAt = zero_time, usr_UpdatedAt = zero_time\<rparr>)) (\<lambda>user.
          ret (toV1User user, token)))))"

definition srv_ListUsers :: "'w UsersServer \<Rightarrow> ListUsersRequest option \<Rightarrow> ('w, v1_User list \<times> nat) go" where
  "srv_ListUsers s req =
     (case req of None \<Rightarrow> throw ErrInvalidRequest
      | Some request \<Rightarrow>
        let pageSize = (if lur_PageSize request \<le> 0 then 50 else lur_PageSize request);
            pageSize = (if pageSize > 1000 then 1000 else pageSize);
            page = (if lur_Page request < 0 then 0 else lur_Page request);
            offset = page * pageSize in
        bindE (orInternal ''USER_LIST_FAILED'' ''failed to list users'' (ListUsers (userRepo s) pageSize offset)) (\<lambda>us.
        ret (map toV1User us, length us)))"

definition srv_GetUser :: "'w UsersServer \<Rightarrow> GetUserRequest option \<Rightarrow> ('w, v1_User) go" where
  "srv_GetUser s req =
     (case req of None \<Rightarrow> throw ErrInvalidRequest
      | Some request \<Rightarrow>
        bindE (liftR (parseUUID (uuidLib s) (gur_Id request))) (\<lambda>i.
        bindE (orUserNotFound ''USER_FETCH_FAILED'' ''failed to get user'' (GetUser (userRepo s) i)) (\<lambda>user.
        ret (toV1User user))))"

definition srv_UpdateUser :: "'w UsersServer \<Rightarrow> UpdateUserRequest option \<Rightarrow> ('w, v1_User) go" where
  "srv_UpdateUser s req =
     (case req of None \<Rightarrow> throw ErrInvalidRequest
      | Some request \<Rightarrow>
        bindE (liftR (parseUUID (uuidLib s) (uur_Id request))) (\<lambda>i.
        bindE (orUserNotFound ''USER_FETCH_FAILED'' ''failed to get user'' (GetUser (userRepo s) i)) (\<lambda>user.
        let user = (if uur_Name request \<noteq> [] then user\<lparr>usr_Name := uur_Name request\<rparr> else user);
            user = user\<lparr>usr_IsActive := uur_IsActive request\<rparr> in
        bindE (orInternal ''USER_UPDATE_FAILED'' ''failed to update user'' (UpdateUser (userRepo s) user)) (\<lambda>_.
        ret (toV1User user)))))"

definition srv_DeleteUser :: "'w UsersServer \<Rightarrow> DeleteUserRequest option \<Rightarrow> ('w, string) go" where
  "srv_DeleteUser s req =
     (case req of None \<Rightarrow> throw ErrInvalidRequest
      | Some request \<Rightarrow>
        bindE (liftR (parseUUID (uuidLib s) (dur_Id request))) (\<lambda>i.
        bindE (orInternal ''PERMISSION_DELETE_FAILED'' ''failed to delete user permissions'' (DeleteUserPermissions (aclRepo s) i)) (\<lambda>_.
        bindE (orUserNotFound ''USER_DELETE_FAILED'' ''failed to delete user'' (DeleteUser (userRepo s) i)) (\<lambda>_.
        ret (dur_Id request)))))"

definition srv_RegenerateToken :: "'w UsersServer \<Rightarrow> RegenerateTokenRequest option \<Rightarrow> ('w, string) go" where
  "srv_RegenerateToken s req =
     (case req of None \<Rightarrow> throw ErrInvalidRequest
      | Some request \<Rightarrow>
        bindE (liftR (parseUUID (uuidLib s) (rtr_Id request))) (\<lambda>i.
        bindE (orUserNotFound ''USER_FETCH_FAILED'' ''failed to get user'' (GetUser (userRepo s) i)) (\<lambda>user.
        bindE (orInternal ''TOKEN_GENERATION_FAILED'' ''failed to generate token'' (generateToken s (usr_Type user))) (\<lambda>token.
        bindE (orInternal ''USER_UPDATE_FAILED'' ''failed to update user token'' (UpdateUser (userRepo s) (user\<lparr>usr_Token := token\<rparr>))) (\<lambda>_.
        ret token)))))"

definition srv_GrantPermission :: "'w UsersServer \<Rightarrow> GrantPermissionRequest option \<Rightarrow> ('w, v1_ACLEntry) go" where
  "srv_GrantPermission s req =
     (case req of None \<Rightarrow> throw ErrInvalidRequest
      | Some request \<Rightarrow>
        bindE (liftR (parseUUID (uuidLib s) (gpr_UserId request))) (\<lambda>userID.
        bindE (liftR (permissionFromV1 (gpr_Permission request))) (\<lambda>permission.
        bindE (orUserNotFound ''USER_FETCH_FAILED'' ''failed to get user'' (GetUser (userRepo s) userID)) (\<lambda>_.
        bindE (orInternal ''PERMISSION_GRANT_FAILED'' ''failed to grant permission''
          (GrantPermission (aclRepo s) \<lparr>acl_ID = [], acl_UserID = userID, acl_ModuleName = gpr_ModuleName request,
             acl_Permission = permission, acl_CreatedAt = zero_time\<rparr>)) (\<lambda>entry.
        ret (toV1ACLEntry entry))))))"

definition srv_RevokePermission :: "'w UsersServer \<Rightarrow> RevokePermissionRequest option \<Rightarrow> ('w, bool) go" where
  "srv_RevokePermission s req =
     (case req of None \<Rightarrow> throw ErrInvalidRequest
      | Some request \<Rightarrow>
        bindE (liftR (parseUUID (uuidLib s) (rpr_UserId request))) (\<lambda>userID.
        attempt (RevokePermission (aclRepo s) userID (rpr_ModuleName request)) (\<lambda>r.
        case r of
          Inl err \<Rightarrow> if errors_Is err ErrPermissionNotFound then throw (NotFound ''PERMISSION_NOT_FOUND'' ''permission not found'')
                     else throw (InternalServer ''PERMISSION_REVOKE_FAILED'' ''failed to revoke permission'')
        | Inr _ \<Rightarrow> ret True)))"

definition srv_ListUserPermissions :: "'w UsersServer \<Rightarrow> ListUserPermissionsRequest option \<Rightarrow> ('w, v1_ACLEntry list) go" where
  "srv_ListUserPermissions s req =
     (case req of None \<Rightarrow> throw ErrInvalidRequest
      | Some request \<Rightarrow>
        bindE (liftR (parseUUID (uuidLib s) (lpr_UserId request))) (\<lambda>userID.
        bindE (orInternal ''PERMISSION_LIST_FAILED'' ''failed to list user permissions'' (ListUserPermissions (aclRepo s) userID)) (\<lambda>entries.
        ret (map toV1ACLEntry entries))))"

section \<open>The drift service\<close>

datatype v1_DriftEventType = DRIFT_EVENT_TYPE_UNSPECIFIED | DRIFT_EVENT_TYPE_ADDED | DRIFT_EVENT_TYPE_MODIFIED | DRIFT_EVENT_TYPE_DELETED
datatype v1_DriftSeverity = DRIFT_SEVERITY_UNSPECIFIED | DRIFT_SEVERITY_INFO | DRIFT_SEVERITY_WARNING | DRIFT_SEVERITY_CRITICAL
datatype v1_Recommendation = RECOMMENDATION_UNSPECIFIED | RECOMMENDATION_SUGGEST_UPDATE | RECOMMENDATION_ALERT_REVIEW

record ListDriftEventsRequest =
  ldr_UnacknowledgedOnly :: bool

record GetModuleDriftEventsRequest =
  mdr_ModuleName :: string
  mdr_TagName :: "string option"

record GetModuleDependencyDriftStatusRequest =
  ddr_ModuleName :: string
  ddr_TagName :: "string option"

record AcknowledgeDriftEventRequest =
  adr_EventId :: string
  adr_AcknowledgedBy :: string

record v1_DriftEvent =
  vde_Id :: string
  vde_ModuleName :: string
  vde_TagName :: string
  vde_Filename :: string
  vde_EventType :: v1_DriftEventType
  vde_PreviousHash :: string
  vde_CurrentHash :: string
  vde_Severity :: v1_DriftSeverity
  vde_DetectedAt :: "instant option"
  vde_Acknowledged :: bool
  vde_AcknowledgedAt :: "instant option"
  vde_AcknowledgedBy :: string

record v1_DependencyDriftStatus =
  vds_DependencyName :: string
  vds_CurrentTag :: string
  vds_TargetTag :: string
  vds_Severity :: v1_DriftSeverity
  vds_Recommendation :: v1_Recommendation

definition driftEventTypeToV1 :: "DriftEventType \<Rightarrow> v1_DriftEventType" where
  "driftEventTypeToV1 t = (if t = DriftEventTypeAdded then DRIFT_EVENT_TYPE_ADDED
     else if t = DriftEventTypeModified then DRIFT_EVENT_TYPE_MODIFIED
     else if t = DriftEventTypeDeleted then DRIFT_EVENT_TYPE_DELETED else DRIFT_EVENT_TYPE_UNSPECIFIED)"

definition driftSeverityToV1 :: "DriftSeverity \<Rightarrow> v1_DriftSeverity" where
  "driftSeverityToV1 s = (if s = DriftSeverityInfo then DRIFT_SEVERITY_INFO
     else if s = DriftSeverityWarning then DRIFT_SEVERITY_WARNING
     else if s = DriftSeverityCritical then DRIFT_SEVERITY_CRITICAL else DRIFT_SEVERITY_UNSPECIFIED)"

definition dependencyRecommendationToV1 :: "DependencyDriftRecommendation \<Rightarrow> v1_Recommendation" where
  "dependencyRecommendationToV1 r = (if r = DependencyDriftRecommendationSuggestUpdate then RECOMMENDATION_SUGGEST_UPDATE
     else if r = DependencyDriftRecommendationAlertReview then RECOMMENDATION_ALERT_REVIEW else RECOMMENDATION_UNSPECIFIED)"

definition toV1DriftEvent :: "DriftEvent \<Rightarrow> v1_DriftEvent" where
  "toV1DriftEvent event = \<lparr>vde_Id = ev_ID event, vde_ModuleName = ev_ModuleName event, vde_TagName = ev_TagName event,
     vde_Filename = ev_Filename event, vde_EventType = driftEventTypeToV1 (ev_EventType event),
     vde_PreviousHash = ev_PreviousHash event, vde_CurrentHash = ev_CurrentHash event,
     vde_Severity = driftSeverityToV1 (ev_Severity event), vde_DetectedAt = Some (ev_DetectedAt event),
     vde_Acknowledged = ev_Acknowledged event, vde_AcknowledgedAt = ev_AcknowledgedAt event,
     vde_AcknowledgedBy = ev_AcknowledgedBy event\<rparr>"

definition toV1DependencyDriftStatus :: "DependencyDriftStatus \<Rightarrow> v1_DependencyDriftStatus" where
  "toV1DependencyDriftStatus status = \<lparr>vds_DependencyName = dds_DependencyName status, vds_CurrentTag = dds_CurrentTag status,
     vds_TargetTag = dds_TargetTag status, vds_Severity = driftSeverityToV1 (dds_Severity status),
     vds_Recommendation = dependencyRecommendationToV1 (dds_Recommendation status)\<rparr>"

definition srv_ListDriftEvents :: "'w DriftRepository \<Rightarrow> ListDriftEventsRequest option \<Rightarrow> ('w, v1_DriftEvent list) go" where
  "srv_ListDriftEvents driftRepo req =
     (case req of None \<Rightarrow> throw ErrInvalidRequest
      | Some request \<Rightarrow>
        bindE (orInternal ''DRIFT_EVENTS_FETCH_FAILED'' ''failed to fetch drift events'' (GetUnacknowledgedDriftEvents driftRepo)) (\<lambda>events.
        ret (map toV1DriftEvent events)))"

definition srv_GetModuleDriftEvents :: "'w DriftRepository \<Rightarrow> GetModuleDriftEventsRequest option \<Rightarrow> ('w, v1_DriftEvent list) go" where
  "srv_GetModuleDriftEvents driftRepo req =
     (case req of None \<Rightarrow> throw ErrInvalidRequest
      | Some request \<Rightarrow>
        if mdr_ModuleName request = [] then throw ErrInvalidRequest
        else
          let tagName = (case mdr_TagName request of None \<Rightarrow> [] | Some t \<Rightarrow> t) in
          bindE (orInternal ''DRIFT_EVENTS_FETCH_FAILED'' ''failed to fetch drift events''
            (GetDriftEventsForModule driftRepo (mdr_ModuleName request) tagName)) (\<lambda>events.
          ret (map toV1DriftEvent events)))"

definition srv_GetModuleDependencyDriftStatus ::
  "'w DriftRepository \<Rightarrow> GetModuleDependencyDriftStatusRequest option \<Rightarrow> ('w, v1_DependencyDriftStatus list) go" where
  "srv_GetModuleDependencyDriftStatus driftRepo req =
     (case req of None \<Rightarrow> throw ErrInvalidRequest
      | Some request \<Rightarrow>
        if ddr_ModuleName request = [] then throw ErrInvalidRequest
        else
          let tagName = (case ddr_TagName request of None \<Rightarrow> [] | Some t \<Rightarrow> t) in
          attempt (GetModuleDependencyDriftStatuses driftRepo (ddr_ModuleName request) tagName) (\<lambda>r.
          case r of
            Inl err \<Rightarrow> if errors_Is err ErrTagNotFound then throw (NotFound ''MODULE_TAG_NOT_FOUND'' ''module tag not found'')
                       else throw (InternalServer ''DEPENDENCY_DRIFT_STATUS_FETCH_FAILED'' ''failed to fetch dependency drift status'')
          | Inr statuses \<Rightarrow> ret (map toV1DependencyDriftStatus statuses)))"

definition srv_AcknowledgeDriftEvent :: "'w DriftRepository \<Rightarrow> AcknowledgeDriftEventRequest option \<Rightarrow> ('w, v1_DriftEvent) go" where
  "srv_AcknowledgeDriftEvent driftRepo req =
     (case req of None \<Rightarrow> throw ErrInvalidRequest
      | Some request \<Rightarrow>
        if adr_EventId request = [] then throw ErrInvalidRequest
        else
          let acknowledgedBy = (if adr_AcknowledgedBy request = [] then ''unknown'' else adr_AcknowledgedBy request) in
          bindE (orInternal ''DRIFT_EVENT_ACKNOWLEDGE_FAILED'' ''failed to acknowledge drift event''
            (AcknowledgeDriftEvent driftRepo (adr_EventId request) acknowledgedBy)) (\<lambda>_.
          ret \<lparr>vde_Id = adr_EventId request, vde_ModuleName = [], vde_TagName = [], vde_Filename = [],
             vde_EventType = DRIFT_EVENT_TYPE_UNSPECIFIED, vde_PreviousHash = [], vde_CurrentHash = [],
             vde_Severity = DRIFT_SEVERITY_UNSPECIFIED, vde_DetectedAt = None, vde_Acknowledged = True,
             vde_AcknowledgedAt = None, vde_AcknowledgedBy = acknowledgedBy\<rparr>))"

end
