(* ===== verification/Middleware.thy ===== *)
theory Middleware
  imports Servers
begin

text \<open>
  Authentication and authorisation: internal/middleware/auth.go, authz.go and config.go, the chain
  of middlewares that internal/server/grpc.go and http.go build, and the dispatch of the registered
  services (gen/pbuf-registry/v1/*_grpc.pb.go).  Log lines are left out.

  A \<open>context.Context\<close> is the record \<open>Ctx\<close> of the values the middlewares read and set: the transport
  (kratos sets it for every request it serves), the user and the admin mark.
\<close>

section \<open>Requests and operations\<close>

datatype request =
    ListModulesReq ListModulesRequest
  | GetModuleReq GetModuleRequest
  | RegisterModuleReq RegisterModuleRequest
  | PullModuleReq PullModuleRequest
  | PushModuleReq PushModuleRequest
  | DeleteModuleReq DeleteModuleRequest
  | DeleteModuleTagReq DeleteModuleTagRequest
  | GetModuleDependenciesReq GetModuleDependenciesRequest
  | GetMetadataReq GetMetadataRequest
  | CreateUserReq CreateUserRequest
  | ListUsersReq ListUsersRequest
  | GetUserReq GetUserRequest
  | UpdateUserReq UpdateUserRequest
  | DeleteUserReq DeleteUserRequest
  | RegenerateTokenReq RegenerateTokenRequest
  | GrantPermissionReq GrantPermissionRequest
  | RevokePermissionReq RevokePermissionRequest
  | ListUserPermissionsReq ListUserPermissionsRequest
  | ListDriftEventsReq ListDriftEventsRequest
  | GetModuleDriftEventsReq GetModuleDriftEventsRequest
  | GetModuleDependencyDriftStatusReq GetModuleDependencyDriftStatusRequest
  | AcknowledgeDriftEventReq AcknowledgeDriftEventRequest

text \<open>The full method names of the services: the operation that kratos reports for a request.\<close>

fun Registry_FullMethodName :: "request \<Rightarrow> string" where
  "Registry_FullMethodName (ListModulesReq _) = ''/pbufregistry.v1.Registry/ListModules''"
| "Registry_FullMethodName (GetModuleReq _) = ''/pbufregistry.v1.Registry/GetModule''"
| "Registry_FullMethodName (RegisterModuleReq _) = ''/pbufregistry.v1.Registry/RegisterModule''"
| "Registry_FullMethodName (PullModuleReq _) = ''/pbufregistry.v1.Registry/PullModule''"
| "Registry_FullMethodName (PushModuleReq _) = ''/pbufregistry.v1.Registry/PushModule''"
| "Registry_FullMethodName (DeleteModuleReq _) = ''/pbufregistry.v1.Registry/DeleteModule''"
| "Registry_FullMethodName (DeleteModuleTagReq _) = ''/pbufregistry.v1.Registry/DeleteModuleTag''"
| "Registry_FullMethodName (GetModuleDependenciesReq _) = ''/pbufregistry.v1.Registry/GetModuleDependencies''"
| "Registry_FullMethodName _ = []"

fun UserService_FullMethodName :: "request \<Rightarrow> string" where
  "UserService_FullMethodName (CreateUserReq _) = ''/pbufregistry.v1.UserService/CreateUser''"
| "UserService_FullMethodName (ListUsersReq _) = ''/pbufregistry.v1.UserService/ListUsers''"
| "UserService_FullMethodName (GetUserReq _) = ''/pbufregistry.v1.UserService/GetUser''"
| "UserService_FullMethodName (UpdateUserReq _) = ''/pbufregistry.v1.UserService/UpdateUser''"
| "UserService_FullMethodName (DeleteUserReq _) = ''/pbufregistry.v1.UserService/DeleteUser''"
| "UserService_FullMethodName (RegenerateTokenReq _) = ''/pbufregistry.v1.UserService/RegenerateToken''"
| "UserService_FullMethodName (GrantPermissionReq _) = ''/pbufregistry.v1.UserService/GrantPermission''"
| "UserService_FullMethodName (RevokePermissionReq _) = ''/pbufregistry.v1.UserService/RevokePermission''"
| "UserService_FullMethodName (ListUserPermissionsReq _) = ''/pbufregistry.v1.UserService/ListUserPermissions''"
| "UserService_FullMethodName _ = []"

fun DriftService_FullMethodName :: "request \<Rightarrow> string" where
  "DriftService_FullMethodName (ListDriftEventsReq _) = ''/pbufregistry.v1.DriftService/ListDriftEvents''"
| "DriftService_FullMethodName (GetModuleDriftEventsReq _) = ''/pbufregistry.v1.DriftService/GetModuleDriftEvents''"
| "DriftService_FullMethodName (GetModuleDependencyDriftStatusReq _) = ''/pbufregistry.v1.DriftService/GetModuleDependencyDriftStatus''"
| "DriftService_FullMethodName (AcknowledgeDriftEventReq _) = ''/pbufregistry.v1.DriftService/AcknowledgeDriftEvent''"
| "DriftService_FullMethodName _ = []"

fun MetadataService_FullMethodName :: "request \<Rightarrow> string" where
  "MetadataService_FullMethodName (GetMetadataReq _) = ''/pbufregistry.v1.MetadataService/GetMetadata''"
| "MetadataService_FullMethodName _ = []"

text \<open>Every request belongs to one service, so three of the four names are empty.\<close>

definition operation_of :: "request \<Rightarrow> string" where
  "operation_of req = Registry_FullMethodName req @ UserService_FullMethodName req @
     DriftService_FullMethodName req @ MetadataService_FullMethodName req"

text \<open>The getters the requests have: \<open>req.(interface{ GetName() string })\<close> succeeds when there is one.\<close>

fun GetName :: "request \<Rightarrow> string option" where
  "GetName (GetModuleReq r) = Some (gmr_Name r)"
| "GetName (RegisterModuleReq r) = Some (rmr_Name r)"
| "GetName (PullModuleReq r) = Some (plr_Name r)"
| "GetName (DeleteModuleReq r) = Some (dmr_Name r)"
| "GetName (DeleteModuleTagReq r) = Some (dtr_Name r)"
| "GetName (GetModuleDependenciesReq r) = Some (gdr_Name r)"
| "GetName (GetMetadataReq r) = Some (gtr_Name r)"
| "GetName (CreateUserReq r) = Some (cur_Name r)"
| "GetName (UpdateUserReq r) = Some (uur_Name r)"
| "GetName _ = None"

fun GetModuleName :: "request \<Rightarrow> string option" where
  "GetModuleName (PushModuleReq r) = Some (pmr_ModuleName r)"
| "GetModuleName (GrantPermissionReq r) = Some (gpr_ModuleName r)"
| "GetModuleName (RevokePermissionReq r) = Some (rpr_ModuleName r)"
| "GetModuleName (GetModuleDriftEventsReq r) = Some (mdr_ModuleName r)"
| "GetModuleName (GetModuleDependencyDriftStatusReq r) = Some (ddr_ModuleName r)"
| "GetModuleName _ = None"

text \<open>No message of the services has a field \<open>module_id\<close>, so none has this getter.\<close>

definition GetModuleId :: "request \<Rightarrow> string option" where
  "GetModuleId req = None"

section \<open>Contexts and handlers\<close>

record transport_ctx =
  Operation :: string
  RequestHeader :: "string \<Rightarrow> string"

record Ctx =
  server_transport :: "transport_ctx option"
  user_value :: "User option"
  admin_value :: "bool option"

type_synonym ('w, 'r) Handler = "Ctx \<Rightarrow> request \<Rightarrow> ('w, 'r) go"
type_synonym ('w, 'r) Middleware = "('w, 'r) Handler \<Rightarrow> ('w, 'r) Handler"

definition authorizationKey :: string where
  "authorizationKey = ''Authorization''"

definition GetUserFromContext :: "Ctx \<Rightarrow> User option" where
  "GetUserFromContext ctx = user_value ctx"

definition IsAdmin :: "Ctx \<Rightarrow> bool" where
  "IsAdmin ctx = (case admin_value ctx of None \<Rightarrow> False | Some isAdmin \<Rightarrow> isAdmin)"

section \<open>Authentication\<close>

definition noAuth :: "('w, 'r) Middleware" where
  "noAuth handler ctx req = handler ctx req"

definition staticTokenAuth :: "string \<Rightarrow> ('w, 'r) Middleware" where
  "staticTokenAuth s_token handler ctx req =
     (case server_transport ctx of
        Some serverContext \<Rightarrow>
          if RequestHeader serverContext authorizationKey \<noteq> s_token then throw ErrTokenInvalid
          else handler ctx req
      | None \<Rightarrow> throw ErrWrongContext)"

text \<open>The token of an \<open>Authorization\<close> header, with or without the prefix.\<close>

definition header_token :: "string \<Rightarrow> string" where
  "header_token authHeader = (if HasPrefix authHeader ''Bearer '' then TrimPrefix authHeader ''Bearer '' else authHeader)"

definition aclAuth :: "string \<Rightarrow> 'w UserRepository \<Rightarrow> ('w, 'r) Middleware" where
  "aclAuth adminToken repo handler ctx req =
     (case server_transport ctx of
        None \<Rightarrow> throw ErrWrongContext
      | Some serverContext \<Rightarrow>
          let authHeader = RequestHeader serverContext authorizationKey in
          if authHeader = [] then throw ErrTokenInvalid
          else
            let token = header_token authHeader in
            if token = adminToken then handler (ctx\<lparr>admin_value := Some True\<rparr>) req
            else attempt (GetUserByToken repo token) (\<lambda>r.
              case r of
                Inl err \<Rightarrow> if errors_Is err ErrUserNotFound then throw ErrTokenInvalid else throw ErrTokenInvalid
              | Inr user \<Rightarrow> handler (ctx\<lparr>user_value := Some user, admin_value := Some False\<rparr>) req))"

section \<open>Authorisation\<close>

definition ErrPermissionDenied :: error where
  "ErrPermissionDenied = KratosError 403 ''PERMISSION_DENIED'' ''permission denied''"

definition extractModuleName :: "request \<Rightarrow> string" where
  "extractModuleName req =
     (let byName = (case GetName req of Some name \<Rightarrow> if name \<noteq> [] then name else ''*'' | None \<Rightarrow> ''*'') in
      case GetModuleName req of Some name \<Rightarrow> if name \<noteq> [] then name else byName | None \<Rightarrow> byName)"

definition extractModuleID :: "request \<Rightarrow> string" where
  "extractModuleID req = (case GetModuleId req of Some i \<Rightarrow> if i \<noteq> [] then i else ''*'' | None \<Rightarrow> ''*'')"

definition getRequiredPermission :: "string \<Rightarrow> request \<Rightarrow> Permission \<times> string" where
  "getRequiredPermission operation req =
     (if strings_Contains operation ''UserService/'' then (PermissionAdmin, ''*'')
      else if strings_Contains operation ''MetadataService/'' then (PermissionRead, extractModuleName req)
      else if strings_Contains operation ''DriftService/'' then
        (if strings_Contains operation ''/ListDriftEvents'' \<or> strings_Contains operation ''/GetModuleDriftEvents''
         then (PermissionRead, extractModuleID req)
         else if strings_Contains operation ''/GetModuleDependencyDriftStatus'' then (PermissionRead, extractModuleName req)
         else if strings_Contains operation ''/AcknowledgeDriftEvent'' then (PermissionWrite, ''*'')
         else (PermissionRead, ''*''))
      else if strings_Contains operation ''/ListModules'' \<or> strings_Contains operation ''/GetModule'' \<or>
        strings_Contains operation ''/PullModule'' \<or> strings_Contains operation ''/GetModuleDependencies''
      then (PermissionRead, extractModuleName req)
      else if strings_Contains operation ''/RegisterModule'' \<or> strings_Contains operation ''/PushModule''
      then (PermissionWrite, extractModuleName req)
      else if strings_Contains operation ''/DeleteModule'' \<or> strings_Contains operation ''/DeleteModuleTag''
      then (PermissionAdmin, extractModuleName req)
      else ([], []))"

definition authz_handle :: "'w ACLRepository \<Rightarrow> ('w, 'r) Middleware" where
  "authz_handle repo handler ctx req =
     (if IsAdmin ctx then handler ctx req
      else case GetUserFromContext ctx of
        None \<Rightarrow> handler ctx req
      | Some user \<Rightarrow>
          (case server_transport ctx of
             None \<Rightarrow> handler ctx req
           | Some serverContext \<Rightarrow>
               let (requiredPermission, moduleName) = getRequiredPermission (Operation serverContext) req in
               if requiredPermission = [] then handler ctx req
               else attempt (CheckPermission repo (usr_ID user) moduleName requiredPermission) (\<lambda>r.
                 case r of
                   Inl err \<Rightarrow> throw ErrPermissionDenied
                 | Inr hasPermission \<Rightarrow> if \<not> hasPermission then throw ErrPermissionDenied else handler ctx req)))"

section \<open>Configuration and the servers' chain\<close>

record Auth =
  Enabled :: bool
  AuthType :: string

text \<open>\<open>os.Getenv("SERVER_STATIC_TOKEN")\<close> and the repositories, nil or not, are arguments.\<close>

definition CreateAuthMiddleware :: "Auth \<Rightarrow> string \<Rightarrow> 'w UserRepository option \<Rightarrow> error + ('w, 'r) Middleware" where
  "CreateAuthMiddleware cfg env_token repo =
     (if \<not> Enabled cfg then Inr noAuth
      else if AuthType cfg = ''static-token'' then
        (if env_token = [] then Inl (ErrorString ''SERVER_STATIC_TOKEN is not set'') else Inr (staticTokenAuth env_token))
      else if AuthType cfg = ''acl'' then
        (case repo of
           None \<Rightarrow> Inl (ErrorString (''user repository is required for auth type: '' @ AuthType cfg))
         | Some r \<Rightarrow>
             if env_token = [] then Inl (ErrorString ''SERVER_STATIC_TOKEN is not set'') else Inr (aclAuth env_token r))
      else Inl (ErrorString (''unknown auth type: '' @ AuthType cfg)))"

text \<open>kratos's \<open>middleware.Chain\<close>: the first of the list is the outermost.\<close>

fun chain :: "('w, 'r) Middleware list \<Rightarrow> ('w, 'r) Middleware" where
  "chain [] handler = handler"
| "chain (m # ms) handler = m (chain ms handler)"

text \<open>The middlewares of a server; \<open>Inl\<close> is the \<open>Fatalf\<close> that stops the process.\<close>

definition serverMiddlewares ::
  "Auth \<Rightarrow> string \<Rightarrow> 'w UserRepository option \<Rightarrow> 'w ACLRepository option \<Rightarrow> error + ('w, 'r) Middleware list" where
  "serverMiddlewares cfg env_token repo acl_repo =
     (case CreateAuthMiddleware cfg env_token repo of
        Inl err \<Rightarrow> Inl (Wrapped ''failed to create auth middleware'' err)
      | Inr authMiddleware \<Rightarrow>
          if Enabled cfg \<and> AuthType cfg = ''acl'' then
            (case acl_repo of
               None \<Rightarrow> Inl (ErrorString (''ACL repository is required when auth type is '' @ [CHR 0x27] @ ''acl'' @ [CHR 0x27]))
             | Some r \<Rightarrow> Inr [authMiddleware, authz_handle r])
          else Inr [authMiddleware])"

section \<open>Dispatch\<close>

datatype reply =
    ModuleReply Module
  | ListModulesReply "Module list" string
  | PullModuleReply Module "ProtoFile list"
  | DeleteModuleReply string
  | DeleteModuleTagReply string string
  | DependenciesReply "Dependency list"
  | MetadataReply "v1_Package list"
  | CreateUserReply v1_User string
  | ListUsersReply "v1_User list" nat
  | UserReply v1_User
  | DeleteUserReply string
  | TokenReply string
  | ACLEntryReply v1_ACLEntry
  | RevokeReply bool
  | PermissionsReply "v1_ACLEntry list"
  | DriftEventsReply "v1_DriftEvent list"
  | DriftStatusReply "v1_DependencyDriftStatus list"
  | DriftEventReply v1_DriftEvent

text \<open>What is registered with a gRPC or HTTP server: the four services.\<close>

record ('w, 'p) services =
  registryServer :: "'w RegistryServer"
  usersServer :: "'w UsersServer"
  driftServer :: "'w DriftRepository"
  protoLib :: "'p proto_lib"

definition reply_with :: "('w, 'a) go \<Rightarrow> ('a \<Rightarrow> reply) \<Rightarrow> ('w, reply) go" where
  "reply_with m f = bindE m (\<lambda>x. ret (f x))"

fun dispatch :: "('w, 'p) services \<Rightarrow> ('w, reply) Handler" where
  "dispatch s ctx (ListModulesReq r) = reply_with (srv_ListModules (registryServer s) r) (\<lambda>(ms, t). ListModulesReply ms t)"
| "dispatch s ctx (GetModuleReq r) = reply_with (srv_GetModule (registryServer s) r) ModuleReply"
| "dispatch s ctx (RegisterModuleReq r) = reply_with (srv_RegisterModule (registryServer s) r) ModuleReply"
| "dispatch s ctx (PullModuleReq r) = reply_with (srv_PullModule (registryServer s) r) (\<lambda>(m, fs). PullModuleReply m fs)"
| "dispatch s ctx (PushModuleReq r) = reply_with (srv_PushModule (registryServer s) (protoLib s) r) ModuleReply"
| "dispatch s ctx (DeleteModuleReq r) = reply_with (srv_DeleteModule (registryServer s) r) DeleteModuleReply"
| "dispatch s ctx (DeleteModuleTagReq r) = reply_with (srv_DeleteModuleTag (registryServer s) r) (\<lambda>(n, t). DeleteModuleTagReply n t)"
| "dispatch s ctx (GetModuleDependenciesReq r) = reply_with (srv_GetModuleDependencies (registryServer s) r) DependenciesReply"
| "dispatch s ctx (GetMetadataReq r) = reply_with (srv_GetMetadata (registryServer s) r) MetadataReply"
| "dispatch s ctx (CreateUserReq r) = reply_with (srv_CreateUser (usersServer s) (Some r)) (\<lambda>(u, t). CreateUserReply u t)"
| "dispatch s ctx (ListUsersReq r) = reply_with (srv_ListUsers (usersServer s) (Some r)) (\<lambda>(us, n). ListUsersReply us n)"
| "dispatch s ctx (GetUserReq r) = reply_with (srv_GetUser (usersServer s) (Some r)) UserReply"
| "dispatch s ctx (UpdateUserReq r) = reply_with (srv_UpdateUser (usersServer s) (Some r)) UserReply"
| "dispatch s ctx (DeleteUserReq r) = reply_with (srv_DeleteUser (usersServer s) (Some r)) DeleteUserReply"
| "dispatch s ctx (RegenerateTokenReq r) = reply_with (srv_RegenerateToken (usersServer s) (Some r)) TokenReply"
| "dispatch s ctx (GrantPermissionReq r) = reply_with (srv_GrantPermission (usersServer s) (Some r)) ACLEntryReply"
| "dispatch s ctx (RevokePermissionReq r) = reply_with (srv_RevokePermission (usersServer s) (Some r)) RevokeReply"
| "dispatch s ctx (ListUserPermissionsReq r) = reply_with (srv_ListUserPermissions (usersServer s) (Some r)) PermissionsReply"
| "dispatch s ctx (ListDriftEventsReq r) = reply_with (srv_ListDriftEvents (driftServer s) (Some r)) DriftEventsReply"
| "dispatch s ctx (GetModuleDriftEventsReq r) = reply_with (srv_GetModuleDriftEvents (driftServer s) (Some r)) DriftEventsReply"
| "dispatch s ctx (GetModuleDependencyDriftStatusReq r) =
     reply_with (srv_GetModuleDependencyDriftStatus (driftServer s) (Some r)) DriftStatusReply"
| "dispatch s ctx (AcknowledgeDriftEventReq r) = reply_with (srv_AcknowledgeDriftEvent (driftServer s) (Some r)) DriftEventReply"

text \<open>The context kratos gives the first middleware: the operation of the request and its headers.\<close>

definition incoming :: "(string \<Rightarrow> string) \<Rightarrow> request \<Rightarrow> Ctx" where
  "incoming header req = \<lparr>server_transport = Some \<lparr>Operation = operation_of req, RequestHeader = header\<rparr>,
     user_value = None, admin_value = None\<rparr>"

definition serve :: "('w, 'p) services \<Rightarrow> ('w, reply) Middleware list \<Rightarrow> (string \<Rightarrow> string) \<Rightarrow> request \<Rightarrow> ('w, reply) go" where
  "serve s ms header req = chain ms (dispatch s) (incoming header req) req"

end
