(* ===== verification/AccountsLaws.thy ===== *)
theory AccountsLaws
  imports Middleware
begin

text \<open>
  What the middlewares rely on of the users and access-control repositories, as a locale, and the
  proof that both backends provide it.  \<open>authentic\<close> says which user a token stands for, \<open>granted\<close>
  which permission a user has on a module.
\<close>

section \<open>The permission a user has\<close>

text \<open>
  The entry for the module if there is one, and only otherwise the entry for the wildcard: an entry
  for a module overrides the wildcard also when it grants less.
\<close>

definition granted :: "('h, 't) db \<Rightarrow> uuid \<Rightarrow> string \<Rightarrow> Permission option" where
  "granted d i name =
     (case acl_rows i name d of
        a # _ \<Rightarrow> Some (a_permission a)
      | [] \<Rightarrow> (case acl_rows i ''*'' d of a # _ \<Rightarrow> Some (a_permission a) | [] \<Rightarrow> None))"

definition allowed :: "('h, 't) db \<Rightarrow> uuid \<Rightarrow> string \<Rightarrow> Permission \<Rightarrow> bool" where
  "allowed d i name p \<longleftrightarrow> (case granted d i name of None \<Rightarrow> False | Some q \<Rightarrow> hasRequiredPermission q p)"

lemma lite_hasRequiredPermission_same [simp]: "lite_hasRequiredPermission = hasRequiredPermission"
  by (simp add: fun_eq_iff lite_hasRequiredPermission_def hasRequiredPermission_def lite_permissionLevel_def permissionLevel_def)

lemma lite_CheckPermission_same [simp]: "lite_CheckPermission = pg_CheckPermission"
  by (intro ext) (simp only: lite_CheckPermission_def pg_CheckPermission_def lite_hasRequiredPermission_same)

lemma reads_CheckPermission: "reads (pg_CheckPermission i name p)"
  unfolding pg_CheckPermission_def by (intro reads_rules)

lemma CheckPermission_wp:
  "wp (pg_CheckPermission i name p) (\<lambda>r w'. store w' = store w \<and> (\<forall>b. r = Inr b \<longrightarrow> b = allowed (store w) i name p)) w"
  by (auto simp: pg_CheckPermission_def wp_simps allowed_def granted_def split: list.splits)

lemma CheckPermission_ok:
  "faults w = [] \<Longrightarrow> pg_CheckPermission i name p w = (Inr (allowed (store w) i name p), w)"
  by (simp add: pg_CheckPermission_def attempt_def queryRow_ok allowed_def granted_def split: list.splits)

section \<open>The contract\<close>

text \<open>
  Who may have a request carried out: the holder of the admin token, and a user whose token is
  \<open>authentic\<close> and who \<open>may\<close> do what the request asks for.
\<close>

definition entitled ::
  "(string \<Rightarrow> User \<Rightarrow> bool) \<Rightarrow> (uuid \<Rightarrow> string \<Rightarrow> Permission \<Rightarrow> bool) \<Rightarrow> string \<Rightarrow> string \<Rightarrow> request \<Rightarrow> bool" where
  "entitled authentic may adminToken authHeader req \<longleftrightarrow> authHeader \<noteq> [] \<and>
     (header_token authHeader = adminToken \<or>
      (\<exists>u. authentic (header_token authHeader) u \<and>
        (case getRequiredPermission (operation_of req) req of (p, name) \<Rightarrow> p = [] \<or> may (usr_ID u) name p)))"

text \<open>
  \<open>same w w'\<close>: between the two worlds no table changed.  A repository call that answers does so by
  the tables; one that fails changes nothing.
\<close>

locale account_store =
  fixes repo :: "'w UserRepository"
    and acl_repo :: "'w ACLRepository"
    and authentic :: "'w \<Rightarrow> string \<Rightarrow> User \<Rightarrow> bool"
    and may :: "'w \<Rightarrow> uuid \<Rightarrow> string \<Rightarrow> Permission \<Rightarrow> bool"
    and same :: "'w \<Rightarrow> 'w \<Rightarrow> bool"
  assumes by_token: "GetUserByToken repo token w = (r, w') \<Longrightarrow> same w w' \<and> (\<forall>u. r = Inr u \<longrightarrow> authentic w token u)"
    and check: "CheckPermission acl_repo i name p w = (rb, w') \<Longrightarrow> same w w' \<and> (\<forall>b. rb = Inr b \<longrightarrow> b = may w i name p)"
    and active: "authentic w token u \<Longrightarrow> usr_IsActive u"
    and same_may: "same w w' \<Longrightarrow> may w' = may w"
    and same_refl: "same w w"
    and same_trans: "same w w' \<Longrightarrow> same w' w'' \<Longrightarrow> same w w''"
begin

text \<open>
  Behind the first middleware: the authorisation middleware runs the handler for a known user who
  may do what the request asks for, and refuses otherwise.
\<close>

lemma known_user_guard:
  assumes run: "authz_handle acl_repo h ((incoming header req)\<lparr>user_value := Some user, admin_value := Some False\<rparr>) req w = (r, w')"
    and req: "getRequiredPermission (operation_of req) req = (p, name)"
  shows "(\<exists>ctx w1. same w w1 \<and> (p = [] \<or> may w (usr_ID user) name p) \<and> h ctx req w1 = (r, w')) \<or>
    (same w w' \<and> r = Inl ErrPermissionDenied)"
proof (cases "p = []")
  case True
  with run req same_refl show ?thesis
    by (auto simp: authz_handle_def incoming_def IsAdmin_def GetUserFromContext_def)
next
  case False
  obtain rb w1 where c: "CheckPermission acl_repo (usr_ID user) name p w = (rb, w1)" by fastforce
  with False run req check [OF c] show ?thesis
    by (auto simp: authz_handle_def incoming_def IsAdmin_def GetUserFromContext_def split: sum.splits if_splits)
qed

text \<open>
  The two middlewares let a request through to the handler only for those; otherwise they answer
  with an error and no table changes.
\<close>

lemma acl_chain_guard:
  assumes "chain [aclAuth adminToken repo, authz_handle acl_repo] h (incoming header req) req w = (r, w')"
  shows "(\<exists>ctx w1. same w w1 \<and> entitled (authentic w) (may w) adminToken (header authorizationKey) req \<and> h ctx req w1 = (r, w')) \<or>
    (same w w' \<and> (r = Inl ErrTokenInvalid \<or> r = Inl ErrPermissionDenied))"
proof -
  let ?token = "header_token (header authorizationKey)"
  obtain ru w1 where u: "GetUserByToken repo ?token w = (ru, w1)" by fastforce
  consider (absent) "header authorizationKey = []"
    | (admin) "header authorizationKey \<noteq> []" "?token = adminToken"
    | (unknown) e where "header authorizationKey \<noteq> []" "?token \<noteq> adminToken" "ru = Inl e"
    | (known) user where "header authorizationKey \<noteq> []" "?token \<noteq> adminToken" "ru = Inr user"
    by (cases ru) auto
  then show ?thesis
  proof cases
    case absent
    with assms show ?thesis by (auto simp: aclAuth_def incoming_def same_refl)
  next
    case admin
    with assms show ?thesis
      by (auto simp: aclAuth_def incoming_def authz_handle_def IsAdmin_def entitled_def same_refl)
  next
    case unknown
    with assms u by_token [OF u] show ?thesis
      by (auto simp: aclAuth_def incoming_def Let_def split: if_splits)
  next
    case known
    obtain p name where req: "getRequiredPermission (operation_of req) req = (p, name)" by fastforce
    have "authz_handle acl_repo h ((incoming header req)\<lparr>user_value := Some user, admin_value := Some False\<rparr>) req w1 = (r, w')"
      using assms known u by (simp add: aclAuth_def incoming_def Let_def)
    from known_user_guard [OF this req] by_token [OF u] known req show ?thesis
      using same_may [of w w1] same_trans [of w w1] by (auto simp: entitled_def)
  qed
qed

end

section \<open>Both backends provide it\<close>

definition pg_authentic :: "pgcrypto \<Rightarrow> ('h, instant) world \<Rightarrow> string \<Rightarrow> User \<Rightarrow> bool" where
  "pg_authentic cr w token u \<longleftrightarrow>
     (\<exists>row\<in>set (users (store w)). u = pg_user row \<and> u_is_active row \<and> u_token row = crypt cr token (u_token row))"

definition lite_authentic :: "uuid_lib \<Rightarrow> ('h, string) world \<Rightarrow> string \<Rightarrow> User \<Rightarrow> bool" where
  "lite_authentic ul w token u \<longleftrightarrow>
     (\<exists>row\<in>set (users (store w)). lite_user ul row = Inr u \<and> u_is_active row \<and> u_token row = sha256hex token)"

text \<open>Database calls were made, and nothing else happened.\<close>

definition same_tables :: "('h, 't) world \<Rightarrow> ('h, 't) world \<Rightarrow> bool" where
  "same_tables w w' \<longleftrightarrow> (\<exists>fs. w' = w\<lparr>faults := fs\<rparr>)"

lemma same_tables_store: "same_tables w w' \<Longrightarrow> store w' = store w"
  by (auto simp: same_tables_def)

lemma reads_same_tables: "reads m \<Longrightarrow> m w = (r, w') \<Longrightarrow> same_tables w w'"
  unfolding reads_def same_tables_def by (metis snd_conv)

lemma same_tables_trans: "same_tables w w' \<Longrightarrow> same_tables w' w'' \<Longrightarrow> same_tables w w''"
  by (auto simp: same_tables_def)

lemma same_tables_refl: "same_tables w w"
  unfolding same_tables_def by (rule exI [of _ "faults w"]) simp

lemma NewUserRepository_sel [simp]:
  "CreateUser (NewUserRepository cr) = pg_CreateUser cr" "GetUser (NewUserRepository cr) = pg_GetUser"
  "GetUserByToken (NewUserRepository cr) = pg_GetUserByToken cr" "ListUsers (NewUserRepository cr) = pg_ListUsers"
  "UpdateUser (NewUserRepository cr) = pg_UpdateUser cr" "DeleteUser (NewUserRepository cr) = pg_DeleteUser"
  "SetUserActive (NewUserRepository cr) = pg_SetUserActive"
  by (simp_all add: NewUserRepository_def)

lemma lite_NewUserRepository_sel [simp]:
  "CreateUser (lite_NewUserRepository ul) = lite_CreateUser ul" "GetUser (lite_NewUserRepository ul) = lite_GetUser ul"
  "GetUserByToken (lite_NewUserRepository ul) = lite_GetUserByToken ul" "ListUsers (lite_NewUserRepository ul) = lite_ListUsers ul"
  "UpdateUser (lite_NewUserRepository ul) = lite_UpdateUser" "DeleteUser (lite_NewUserRepository ul) = lite_DeleteUser"
  "SetUserActive (lite_NewUserRepository ul) = lite_SetUserActive"
  by (simp_all add: lite_NewUserRepository_def)

lemma NewACLRepository_sel [simp]:
  "CheckPermission NewACLRepository = pg_CheckPermission" "CheckPermission (lite_NewACLRepository ul) = pg_CheckPermission"
  "DeleteUserPermissions NewACLRepository = pg_DeleteUserPermissions"
  "DeleteUserPermissions (lite_NewACLRepository ul) = lite_DeleteUserPermissions"
  "GrantPermission NewACLRepository = pg_GrantPermission" "GrantPermission (lite_NewACLRepository ul) = lite_GrantPermission ul"
  "RevokePermission NewACLRepository = pg_RevokePermission" "RevokePermission (lite_NewACLRepository ul) = lite_RevokePermission"
  by (simp_all add: NewACLRepository_def lite_NewACLRepository_def)

lemma pg_by_token_wp:
  "wp (pg_GetUserByToken cr token) (\<lambda>r w'. store w' = store w \<and> (\<forall>u. r = Inr u \<longrightarrow> pg_authentic cr w token u)) w"
  by (auto simp: pg_GetUserByToken_def wp_simps pg_authentic_def filter_eq_Cons_iff split: list.splits)

lemma lite_by_token_wp:
  "wp (lite_GetUserByToken ul token) (\<lambda>r w'. store w' = store w \<and> (\<forall>u. r = Inr u \<longrightarrow> lite_authentic ul w token u)) w"
  by (auto simp: lite_GetUserByToken_def wp_simps wp_liftR lite_authentic_def Let_def filter_eq_Cons_iff split: list.splits)

lemma reads_pg_by_token: "reads (pg_GetUserByToken cr token)"
  unfolding pg_GetUserByToken_def by (intro reads_rules)

lemma reads_lite_by_token: "reads (lite_GetUserByToken ul token)"
  unfolding lite_GetUserByToken_def Let_def by (intro reads_rules)

lemma pg_user_sel [simp]: "usr_IsActive (pg_user row) = u_is_active row" "usr_ID (pg_user row) = u_id row"
  "usr_Token (pg_user row) = u_token row" "usr_Name (pg_user row) = u_name row" "usr_Type (pg_user row) = u_type row"
  by (simp_all add: pg_user_def)

lemma lite_user_active: "lite_user ul row = Inr u \<Longrightarrow> usr_IsActive u = u_is_active row"
  by (auto simp: lite_user_def boolToInt_def split: sum.splits if_splits)

interpretation pg_acc: account_store "NewUserRepository cr" NewACLRepository "pg_authentic cr"
  "\<lambda>w. allowed (store w)" same_tables
proof
  show "GetUserByToken (NewUserRepository cr) token w = (r, w') \<Longrightarrow>
      same_tables w w' \<and> (\<forall>u. r = Inr u \<longrightarrow> pg_authentic cr w token u)" for token w r w'
    using reads_same_tables [OF reads_pg_by_token] wpD [OF pg_by_token_wp] by fastforce
  show "CheckPermission NewACLRepository i name p w = (rb, w') \<Longrightarrow>
      same_tables w w' \<and> (\<forall>b. rb = Inr b \<longrightarrow> b = allowed (store w) i name p)" for i name p w rb w'
    using reads_same_tables [OF reads_CheckPermission] wpD [OF CheckPermission_wp] by fastforce
qed (auto simp: pg_authentic_def same_tables_refl dest: same_tables_store intro: same_tables_trans)

interpretation lite_acc: account_store "lite_NewUserRepository ul" "lite_NewACLRepository ul" "lite_authentic ul"
  "\<lambda>w. allowed (store w)" same_tables
proof
  show "GetUserByToken (lite_NewUserRepository ul) token w = (r, w') \<Longrightarrow>
      same_tables w w' \<and> (\<forall>u. r = Inr u \<longrightarrow> lite_authentic ul w token u)" for token w r w'
    using reads_same_tables [OF reads_lite_by_token] wpD [OF lite_by_token_wp] by fastforce
  show "CheckPermission (lite_NewACLRepository ul) i name p w = (rb, w') \<Longrightarrow>
      same_tables w w' \<and> (\<forall>b. rb = Inr b \<longrightarrow> b = allowed (store w) i name p)" for i name p w rb w'
    using reads_same_tables [OF reads_CheckPermission] wpD [OF CheckPermission_wp] by fastforce
qed (auto simp: lite_authentic_def same_tables_refl lite_user_active dest: same_tables_store intro: same_tables_trans)

section \<open>What each request needs\<close>

text \<open>The policy the substring tests of \<open>getRequiredPermission\<close> amount to, request by request.\<close>

definition or_wildcard :: "string \<Rightarrow> string" where
  "or_wildcard name = (if name \<noteq> [] then name else ''*'')"

fun required :: "request \<Rightarrow> Permission \<times> string" where
  "required (ListModulesReq _) = (PermissionRead, ''*'')"
| "required (GetModuleReq r) = (PermissionRead, or_wildcard (gmr_Name r))"
| "required (RegisterModuleReq r) = (PermissionWrite, or_wildcard (rmr_Name r))"
| "required (PullModuleReq r) = (PermissionRead, or_wildcard (plr_Name r))"
| "required (PushModuleReq r) = (PermissionWrite, or_wildcard (pmr_ModuleName r))"
| "required (DeleteModuleReq r) = (PermissionAdmin, or_wildcard (dmr_Name r))"
| "required (DeleteModuleTagReq r) = (PermissionAdmin, or_wildcard (dtr_Name r))"
| "required (GetModuleDependenciesReq r) = (PermissionRead, or_wildcard (gdr_Name r))"
| "required (GetMetadataReq r) = (PermissionRead, or_wildcard (gtr_Name r))"
| "required (ListDriftEventsReq _) = (PermissionRead, ''*'')"
| "required (GetModuleDriftEventsReq _) = (PermissionRead, ''*'')"
| "required (GetModuleDependencyDriftStatusReq r) = (PermissionRead, or_wildcard (ddr_ModuleName r))"
| "required (AcknowledgeDriftEventReq _) = (PermissionWrite, ''*'')"
| "required _ = (PermissionAdmin, ''*'')"

lemma getRequiredPermission_required: "getRequiredPermission (operation_of req) req = required req"
  by (cases req; hypsubst; code_simp)

lemma required_nonempty: "fst (required req) \<noteq> []"
  by (cases req) (simp_all add: permission_defs)

section \<open>The invariant of the account tables\<close>

definition accounts_ok :: "('h, 't) db \<Rightarrow> bool" where
  "accounts_ok d \<longleftrightarrow>
     distinct (map u_id (users d)) \<and> distinct (map u_name (users d)) \<and> list_all (\<lambda>r. user_type_ok (u_type r)) (users d) \<and>
     distinct (map a_id (acl d)) \<and> distinct (map (\<lambda>a. (a_user_id a, a_module_name a)) (acl d)) \<and>
     list_all (\<lambda>a. permission_ok (a_permission a)) (acl d)"

text \<open>No access-control entry outlives its user where foreign keys are enforced.\<close>

definition acl_refs :: "('h, 't) db \<Rightarrow> bool" where
  "acl_refs d \<longleftrightarrow> (\<forall>a\<in>set (acl d). a_user_id a \<in> set (map u_id (users d)))"

definition accounts_inv :: "('h, 't) world \<Rightarrow> bool" where
  "accounts_inv w \<longleftrightarrow> accounts_ok (store w) \<and> (fk_enforced w \<longrightarrow> acl_refs (store w))"

lemma insert_user_ok: "accounts_ok d \<Longrightarrow> insert_user r d = Inr (x, d') \<Longrightarrow> accounts_ok d'"
  by (force simp: accounts_ok_def insert_user_def list_all_iff split: if_splits)

lemma user_stmts_ok:
  "accounts_ok d \<Longrightarrow> (\<And>r. u_id (f r) = u_id r) \<Longrightarrow> update_users f i d = Inr (n, d') \<Longrightarrow> accounts_ok d'"
  "accounts_ok d \<Longrightarrow> delete_users fk i d = Inr (n, d') \<Longrightarrow> accounts_ok d'"
  by (auto simp: accounts_ok_def update_users_def delete_users_def Let_def list_all_iff comp_def if_distrib
      split: if_splits cong: if_cong)

lemma upsert_acl_ok:
  assumes "accounts_ok d" and "upsert_acl fk r d = Inr (x, d')"
  shows "accounts_ok d'"
proof (cases "clash (\<lambda>x. (a_user_id x, a_module_name x)) r (acl d)")
  case True
  have keys: "map a_id (map g xs) = map a_id xs" "map (\<lambda>a. (a_user_id a, a_module_name a)) (map g xs) = map (\<lambda>a. (a_user_id a, a_module_name a)) xs"
    if "g = (\<lambda>x. if a_user_id x = a_user_id r \<and> a_module_name x = a_module_name r then x\<lparr>a_permission := a_permission r\<rparr> else x)"
    for g and xs :: "'b acl_row list" using that by auto
  from True assms show ?thesis
    by (auto simp: accounts_ok_def upsert_acl_def list_all_iff keys simp del: clash_iff map_map split: if_splits)
next
  case False
  with assms show ?thesis
    by (force simp: accounts_ok_def upsert_acl_def list_all_iff split: if_splits)
qed

lemma delete_acl_ok: "accounts_ok d \<Longrightarrow> delete_acl P d = Inr (n, d') \<Longrightarrow> accounts_ok d'"
  by (auto simp: accounts_ok_def delete_acl_def list_all_iff)

lemma acl_refs_insert_user: "acl_refs d \<Longrightarrow> insert_user r d = Inr (x, d') \<Longrightarrow> acl_refs d'"
  by (auto simp: acl_refs_def insert_user_def split: if_splits)

lemma update_keeps_ids: "(\<And>r. u_id (f r) = u_id r) \<Longrightarrow> map u_id (map (\<lambda>r. if u_id r = i then f r else r) rs) = map u_id rs"
  by simp

lemma acl_refs_update_users:
  "acl_refs d \<Longrightarrow> (\<And>r. u_id (f r) = u_id r) \<Longrightarrow> update_users f i d = Inr (n, d') \<Longrightarrow> acl_refs d'"
  by (auto simp: acl_refs_def update_users_def Let_def update_keeps_ids simp del: map_map set_map list.set_map split: if_splits)

lemma acl_refs_deletes:
  "acl_refs d \<Longrightarrow> delete_users True i d = Inr (n, d') \<Longrightarrow> acl_refs d'"
  "acl_refs d \<Longrightarrow> delete_acl P d = Inr (n, d') \<Longrightarrow> acl_refs d'"
  by (fastforce simp: acl_refs_def delete_users_def delete_acl_def)+

lemma acl_refs_upsert_acl: "acl_refs d \<Longrightarrow> upsert_acl True a d = Inr (y, d') \<Longrightarrow> acl_refs d'"
  by (auto simp: acl_refs_def upsert_acl_def simp del: clash_iff split: if_splits)

lemmas account_stmts = insert_user_ok user_stmts_ok upsert_acl_ok delete_acl_ok
  acl_refs_insert_user acl_refs_update_users acl_refs_deletes acl_refs_upsert_acl

text \<open>A statement that keeps the tables right keeps the world right.\<close>

lemma wp_accounts_exec:
  assumes "accounts_inv w"
    and "\<And>x d'. accounts_ok (store w) \<Longrightarrow> s (store w) = Inr (x, d') \<Longrightarrow> accounts_ok d'"
    and "\<And>x d'. fk_enforced w \<Longrightarrow> acl_refs (store w) \<Longrightarrow> s (store w) = Inr (x, d') \<Longrightarrow> acl_refs d'"
  shows "wp (exec s) (\<lambda>_. accounts_inv) w"
  using assms by (auto simp: wp_exec accounts_inv_def split: sum.splits prod.splits)

lemma keeps_accounts_exec:
  assumes "\<And>d x d'. accounts_ok d \<Longrightarrow> s d = Inr (x, d') \<Longrightarrow> accounts_ok d'"
    and "\<And>d x d'. acl_refs d \<Longrightarrow> s d = Inr (x, d') \<Longrightarrow> acl_refs d'"
  shows "keeps accounts_inv (exec s)"
  unfolding hoare_wp by (intro allI impI, erule wp_accounts_exec; erule (1) assms)

lemma accounts_inv_faults [simp]: "accounts_inv (w\<lparr>faults := fs\<rparr>) = accounts_inv w"
  by (simp add: accounts_inv_def)

lemma reads_keeps_accounts: "reads m \<Longrightarrow> keeps accounts_inv m"
proof (rule hoareI)
  fix w :: "('a, 'b) world" assume "reads m" and w: "accounts_inv w"
  then have eq: "snd (m w) = w\<lparr>faults := faults (snd (m w))\<rparr>" by (simp add: reads_def)
  from w have "accounts_inv (w\<lparr>faults := faults (snd (m w))\<rparr>)" by simp
  then show "accounts_inv (snd (m w))" by (simp only: eq [symmetric])
qed

lemma keeps_accounts_newUUID [hoare_rules]: "keeps accounts_inv newUUID"
  by (simp add: hoare_def accounts_inv_def)

lemma returning_acl_ok:
  "accounts_ok d \<Longrightarrow> returning_acl i name (upsert_acl True r) d = Inr (x, d') \<Longrightarrow> accounts_ok d'"
  "acl_refs d \<Longrightarrow> returning_acl i name (upsert_acl True r) d = Inr (x, d') \<Longrightarrow> acl_refs d'"
  by (auto simp: returning_acl_def split: sum.splits list.splits dest: account_stmts)

lemma keeps_account_stmts [hoare_rules]:
  "keeps accounts_inv (exec (insert_user r))"
  "keeps accounts_inv (exec (delete_users True i))"
  "keeps accounts_inv (exec (returning_acl i' name (upsert_acl True a)))"
  "keeps accounts_inv (exec (delete_acl P))"
  by (rule keeps_accounts_exec; erule (1) account_stmts returning_acl_ok)+

lemma keeps_accounts_update:
  "(\<And>r. u_id (f r) = u_id r) \<Longrightarrow> keeps accounts_inv (exec (update_users f i))"
  by (rule keeps_accounts_exec) (blast intro: account_stmts)+

lemma keeps_accounts_updates [hoare_rules]:
  "keeps accounts_inv (exec (update_users (\<lambda>r. r\<lparr>u_name := n, u_token := t, u_type := ty, u_is_active := b, u_updated_at := ts\<rparr>) i))"
  "keeps accounts_inv (exec (update_users (\<lambda>r. r\<lparr>u_is_active := b, u_updated_at := ts\<rparr>) i))"
  by (rule keeps_accounts_update, simp)+

text \<open>In SQLite the foreign keys are what the connection was opened with.\<close>

lemma keeps_accounts_lite:
  assumes "\<And>n. keeps accounts_inv (k n)"
    and "\<And>fk d x d'. accounts_ok d \<Longrightarrow> s fk d = Inr (x, d') \<Longrightarrow> accounts_ok d'"
    and "\<And>d x d'. acl_refs d \<Longrightarrow> s True d = Inr (x, d') \<Longrightarrow> acl_refs d'"
  shows "keeps accounts_inv (bindE foreign_keys (\<lambda>fk. bindE (wrapE m (exec (s fk))) k))"
proof -
  have "wp (exec (s (fk_enforced w))) (\<lambda>_. accounts_inv) w" if "accounts_inv w" for w
    using that by (rule wp_accounts_exec) (use assms(2,3) in auto)
  then show ?thesis
    unfolding hoare_wp wp_bindE wp_world sum.case wp_wrapE
    by (intro allI impI) (rule wp_mono, blast, use assms(1) in \<open>auto simp: hoare_wp split: sum.splits\<close>)
qed

text \<open>One call of the account repositories, whatever it returns.\<close>

inductive account_step :: "'w UserRepository \<Rightarrow> 'w ACLRepository \<Rightarrow> 'w \<Rightarrow> 'w \<Rightarrow> bool" for ur ar where
  create_user: "CreateUser ur u w = (r, w') \<Longrightarrow> account_step ur ar w w'"
| get_user: "GetUser ur i w = (r, w') \<Longrightarrow> account_step ur ar w w'"
| get_user_by_name: "GetUserByName ur n w = (r, w') \<Longrightarrow> account_step ur ar w w'"
| get_user_by_token: "GetUserByToken ur t w = (r, w') \<Longrightarrow> account_step ur ar w w'"
| list_users: "ListUsers ur k off w = (rl, w') \<Longrightarrow> account_step ur ar w w'"
| update_user: "UpdateUser ur u w = (ru, w') \<Longrightarrow> account_step ur ar w w'"
| delete_user: "DeleteUser ur i w = (ru, w') \<Longrightarrow> account_step ur ar w w'"
| set_user_active: "SetUserActive ur i b w = (ru, w') \<Longrightarrow> account_step ur ar w w'"
| grant_permission: "GrantPermission ar e w = (re, w') \<Longrightarrow> account_step ur ar w w'"
| revoke_permission: "RevokePermission ar i n w = (ru, w') \<Longrightarrow> account_step ur ar w w'"
| list_permissions: "ListUserPermissions ar i w = (rp, w') \<Longrightarrow> account_step ur ar w w'"
| check_permission: "CheckPermission ar i n p w = (rb, w') \<Longrightarrow> account_step ur ar w w'"
| delete_permissions: "DeleteUserPermissions ar i w = (ru, w') \<Longrightarrow> account_step ur ar w w'"

lemmas pg_account_defs = pg_CreateUser_def pg_GetUser_def pg_GetUserByName_def pg_GetUserByToken_def pg_ListUsers_def
  pg_UpdateUser_def pg_DeleteUser_def pg_SetUserActive_def pg_GrantPermission_def pg_RevokePermission_def
  pg_ListUserPermissions_def pg_CheckPermission_def pg_DeleteUserPermissions_def

lemmas lite_account_defs = lite_CreateUser_def lite_GetUser_def lite_GetUserByName_def lite_GetUserByToken_def
  lite_ListUsers_def lite_UpdateUser_def lite_DeleteUser_def lite_SetUserActive_def lite_GrantPermission_def
  lite_RevokePermission_def lite_ListUserPermissions_def lite_DeleteUserPermissions_def Let_def

lemma keeps_accounts_query [hoare_rules]: "keeps accounts_inv (query f)"
  by (rule reads_keeps_accounts) (rule reads_query)

lemma keeps_accounts_queryRows [hoare_rules]: "keeps accounts_inv (queryRows f)"
  by (intro reads_keeps_accounts reads_rules)

lemma keeps_accounts_queryRow [hoare_rules]: "keeps accounts_inv (queryRow f)"
  by (rule reads_keeps_accounts) (rule reads_query)

lemma keeps_accounts_pg_users:
  "keeps accounts_inv (pg_CreateUser cr u)" "keeps accounts_inv (pg_GetUser i)" "keeps accounts_inv (pg_GetUserByName n)"
  "keeps accounts_inv (pg_GetUserByToken cr t)" "keeps accounts_inv (pg_UpdateUser cr u)"
  "keeps accounts_inv (pg_SetUserActive i b)" "keeps accounts_inv (pg_ListUsers k off)"
  unfolding pg_account_defs by (intro hoare_rules)+

lemma keeps_accounts_pg_acl:
  "keeps accounts_inv (pg_GrantPermission e)" "keeps accounts_inv (pg_ListUserPermissions i)"
  unfolding pg_account_defs by (intro hoare_rules)+

lemma keeps_accounts_shared:
  "keeps accounts_inv (pg_DeleteUser i)" "keeps accounts_inv (pg_RevokePermission i n)"
  "keeps accounts_inv (pg_CheckPermission i n p)" "keeps accounts_inv (pg_DeleteUserPermissions i)"
  unfolding pg_account_defs by (intro hoare_rules)+

lemmas keeps_accounts_pg = keeps_accounts_pg_users keeps_accounts_pg_acl keeps_accounts_shared

lemma pg_account_step:
  "account_step (NewUserRepository cr) NewACLRepository w w' \<Longrightarrow> accounts_inv w \<Longrightarrow> accounts_inv w'"
  by (erule account_step.cases; simp add: NewUserRepository_def NewACLRepository_def;
      rule keeps_accounts_pg [THEN hoareD], assumption, assumption)

lemma lite_acl_same [simp]:
  "lite_RevokePermission = pg_RevokePermission" "lite_DeleteUserPermissions = pg_DeleteUserPermissions"
  by (simp_all add: fun_eq_iff lite_RevokePermission_def pg_RevokePermission_def lite_DeleteUserPermissions_def
      pg_DeleteUserPermissions_def)

lemma keeps_accounts_lite_users:
  "keeps accounts_inv (lite_CreateUser ul u)" "keeps accounts_inv (lite_GetUser ul i)" "keeps accounts_inv (lite_GetUserByName ul n)"
  "keeps accounts_inv (lite_GetUserByToken ul t)" "keeps accounts_inv (lite_ListUsers ul k off)" "keeps accounts_inv (lite_UpdateUser u)"
  "keeps accounts_inv (lite_SetUserActive i b)" "keeps accounts_inv (lite_ListUserPermissions ul i)"
  unfolding lite_account_defs by (intro hoare_rules)+

lemma keeps_accounts_lite_DeleteUser: "keeps accounts_inv (lite_DeleteUser i)"
  unfolding lite_DeleteUser_def
  by (rule keeps_accounts_lite) (intro hoare_rules, (erule (1) account_stmts)+)

lemma keeps_accounts_lite_Grant: "keeps accounts_inv (lite_GrantPermission ul e)"
  unfolding lite_GrantPermission_def
  by (intro hoare_rules keeps_accounts_lite; erule (1) account_stmts)

lemmas keeps_accounts_sqlite = keeps_accounts_lite_users keeps_accounts_lite_DeleteUser keeps_accounts_lite_Grant keeps_accounts_shared

lemma lite_account_step:
  "account_step (lite_NewUserRepository ul) (lite_NewACLRepository ul) w w' \<Longrightarrow> accounts_inv w \<Longrightarrow> accounts_inv w'"
  by (erule account_step.cases; simp add: lite_NewUserRepository_def lite_NewACLRepository_def;
      rule keeps_accounts_sqlite [THEN hoareD], assumption, assumption)

end
