(* ===== verification/AccountsProps.thy ===== *)
theory AccountsProps
  imports AccountsLaws RegistryProps
begin

text \<open>
  The properties of users, permissions and the authorisation of requests, each with an instance on
  a concrete world where it has hypotheses.
\<close>

section \<open>Concrete accounts\<close>

text \<open>A \<open>crypt\<close> that keeps the first four characters of the salt in front of the password.\<close>

definition demo_crypto :: pgcrypto where
  "demo_crypto = \<lparr>crypt = (\<lambda>p s. take 4 s @ p), gen_salt_bf = (\<lambda>r. ''salt'')\<rparr>"

definition demo_uuid :: uuid_lib where
  "demo_uuid = \<lparr>uuid_Parse = (\<lambda>s. if s = [] then None else Some s)\<rparr>"

definition new_user :: "string \<Rightarrow> string \<Rightarrow> User" where
  "new_user name token = \<lparr>usr_ID = [], usr_Name = name, usr_Token = token, usr_Type = UserTypeUser, usr_IsActive = True,
     usr_CreatedAt = zero_time, usr_UpdatedAt = zero_time\<rparr>"

lemma demo_crypt_law: "crypt_law demo_crypto"
  by (simp add: crypt_law_def demo_crypto_def)

lemma accounts_inv_start: "accounts_inv start_world"
  by (simp add: accounts_inv_def accounts_ok_def acl_refs_def start_world_def empty_db_def)

definition pg_start :: "(string option, instant) world" where
  "pg_start = start_world"

text \<open>A world with a user who may write to the module \<open>m\<close>, made by the code.\<close>

definition acl_world :: "(string option, instant) world" where
  "acl_world = snd (bindE (pg_CreateUser demo_crypto (new_user ''ann'' ''tok'')) (\<lambda>u.
     pg_GrantPermission \<lparr>acl_ID = [], acl_UserID = usr_ID u, acl_ModuleName = ''m'', acl_Permission = PermissionWrite,
       acl_CreatedAt = zero_time\<rparr>) pg_start)"

definition acl_config :: Auth where
  "acl_config = \<lparr>Enabled = True, AuthType = ''acl''\<rparr>"

text \<open>Services over PostgreSQL with the simplest libraries.\<close>

definition demo_json :: json_codec where
  "demo_json = \<lparr>json_marshal_files = (\<lambda>fs. Inr (concat (map pf_Content fs))), json_unmarshal_files = (\<lambda>s. Inr []),
     json_marshal_deps = (\<lambda>ds. Inr [])\<rparr>"

definition demo_protos :: "unit proto_lib" where
  "demo_protos = \<lparr>parser_Parse = (\<lambda>s. Inr ()), InterpretProto = (\<lambda>_. Inr \<lparr>pr_ProtoBody = None\<rparr>),
     json_marshal_proto = (\<lambda>_. Inr ''{}''), json_unmarshal_proto = (\<lambda>_. Inr (Some \<lparr>pr_ProtoBody = None\<rparr>))\<rparr>"

definition demo_meta :: meta_codec where
  "demo_meta = \<lparr>json_marshal_meta = (\<lambda>m. Inr ''{}''), json_unmarshal_meta = (\<lambda>s. Inl ErrParse)\<rparr>"

definition demo_services :: "((string option, instant) world, unit) services" where
  "demo_services = \<lparr>
     registryServer = \<lparr>registryRepository = NewRegistryRepository demo_json (\<lambda>_ _. Inl ErrDB),
       metadataRepository = NewMetadataRepository demo_meta demo_protos\<rparr>,
     usersServer = \<lparr>userRepo = NewUserRepository demo_crypto, aclRepo = NewACLRepository, uuidLib = demo_uuid, rand_Read = ret ''abc''\<rparr>,
     driftServer = NewDriftRepository \<lparr>pgx_uuid = Some\<rparr>, protoLib = demo_protos\<rparr>"

definition demo_lite_services :: "((string, string) world, unit) services" where
  "demo_lite_services = \<lparr>
     registryServer = \<lparr>registryRepository = lite_NewRegistryRepository demo_json (\<lambda>_ _. Inl ErrDB),
       metadataRepository = lite_NewMetadataRepository demo_meta demo_protos\<rparr>,
     usersServer = \<lparr>userRepo = lite_NewUserRepository demo_uuid, aclRepo = lite_NewACLRepository demo_uuid, uuidLib = demo_uuid,
       rand_Read = ret ''abc''\<rparr>,
     driftServer = lite_NewDriftRepository, protoLib = demo_protos\<rparr>"

definition lite_start :: "(string, string) world" where
  "lite_start = start_world"

definition bearer :: "string \<Rightarrow> string \<Rightarrow> string" where
  "bearer token key = (if key = authorizationKey then ''Bearer '' @ token else [])"

definition demo_register :: request where
  "demo_register = RegisterModuleReq \<lparr>rmr_Name = ''m''\<rparr>"

section \<open>Authorisation\<close>

text \<open>
  C5: no request gets past the ACL middlewares unless its caller is entitled to it (PostgreSQL).
  However the database fails, a request to a server in \<open>acl\<close> mode either reaches its handler, in
  unchanged tables and for the admin token or for the token of an active user whose permission
  covers what the request needs, or it is refused and no table changes.
\<close>

theorem pg_acl_guard:
  assumes "serverMiddlewares acl_config env_token (Some (NewUserRepository cr)) (Some NewACLRepository) = Inr ms"
    and "serve s ms header req w = (r, w')"
  shows "(\<exists>ctx w1. store w1 = store w \<and> dispatch s ctx req w1 = (r, w') \<and> env_token \<noteq> [] \<and>
      entitled (pg_authentic cr w) (allowed (store w)) env_token (header authorizationKey) req) \<or>
    (store w' = store w \<and> (r = Inl ErrTokenInvalid \<or> r = Inl ErrPermissionDenied))"
proof -
  from assms(1) have ms: "ms = [aclAuth env_token (NewUserRepository cr), authz_handle NewACLRepository]" "env_token \<noteq> []"
    by (auto simp: serverMiddlewares_def CreateAuthMiddleware_def acl_config_def split: if_splits)
  from pg_acc.acl_chain_guard [OF assms(2) [unfolded serve_def ms(1)]] ms(2) show ?thesis
    by (auto dest: same_tables_store)
qed

theorem pg_acl_guard_witness:
  "\<exists>ms r w'. serverMiddlewares acl_config ''adm'' (Some (NewUserRepository demo_crypto)) (Some NewACLRepository) = Inr ms \<and>
     serve demo_services ms (bearer ''tok'') demo_register acl_world = (r, w') \<and> store w' \<noteq> store acl_world \<and>
     (\<exists>ctx w1. store w1 = store acl_world \<and> dispatch demo_services ctx demo_register w1 = (r, w') \<and>
       entitled (pg_authentic demo_crypto acl_world) (allowed (store acl_world)) ''adm'' (bearer ''tok'' authorizationKey) demo_register)"
proof -
  let ?ms = "[aclAuth ''adm'' (NewUserRepository demo_crypto), authz_handle NewACLRepository]"
  let ?run = "serve demo_services ?ms (bearer ''tok'') demo_register acl_world"
  have ms: "serverMiddlewares acl_config ''adm'' (Some (NewUserRepository demo_crypto)) (Some NewACLRepository) = Inr ?ms"
    by (simp add: serverMiddlewares_def CreateAuthMiddleware_def acl_config_def)
  have "map m_name (modules (store (snd ?run))) \<noteq> map m_name (modules (store acl_world))" by code_simp
  then have "store (snd ?run) \<noteq> store acl_world" by metis
  with pg_acl_guard [OF ms, of demo_services "bearer ''tok''" demo_register acl_world "fst ?run" "snd ?run"] ms
  show ?thesis by (intro exI [of _ ?ms] exI [of _ "fst ?run"] exI [of _ "snd ?run"]) auto
qed

text \<open>C6: the same guard over the SQLite repositories.\<close>

theorem lite_acl_guard:
  assumes "serverMiddlewares acl_config env_token (Some (lite_NewUserRepository ul)) (Some (lite_NewACLRepository ul)) = Inr ms"
    and "serve s ms header req w = (r, w')"
  shows "(\<exists>ctx w1. store w1 = store w \<and> dispatch s ctx req w1 = (r, w') \<and> env_token \<noteq> [] \<and>
      entitled (lite_authentic ul w) (allowed (store w)) env_token (header authorizationKey) req) \<or>
    (store w' = store w \<and> (r = Inl ErrTokenInvalid \<or> r = Inl ErrPermissionDenied))"
proof -
  from assms(1) have ms: "ms = [aclAuth env_token (lite_NewUserRepository ul), authz_handle (lite_NewACLRepository ul)]" "env_token \<noteq> []"
    by (auto simp: serverMiddlewares_def CreateAuthMiddleware_def acl_config_def split: if_splits)
  from lite_acc.acl_chain_guard [OF assms(2) [unfolded serve_def ms(1)]] ms(2) show ?thesis
    by (auto dest: same_tables_store)
qed

theorem lite_acl_guard_witness:
  "\<exists>ms r w'. serverMiddlewares acl_config ''adm'' (Some (lite_NewUserRepository demo_uuid)) (Some (lite_NewACLRepository demo_uuid)) = Inr ms \<and>
     serve demo_lite_services ms (bearer ''adm'') demo_register lite_start = (r, w') \<and> store w' \<noteq> store lite_start \<and>
     (\<exists>ctx w1. store w1 = store lite_start \<and> dispatch demo_lite_services ctx demo_register w1 = (r, w') \<and>
       entitled (lite_authentic demo_uuid lite_start) (allowed (store lite_start)) ''adm'' (bearer ''adm'' authorizationKey) demo_register)"
proof -
  let ?ms = "[aclAuth ''adm'' (lite_NewUserRepository demo_uuid), authz_handle (lite_NewACLRepository demo_uuid)]"
  let ?run = "serve demo_lite_services ?ms (bearer ''adm'') demo_register lite_start"
  have ms: "serverMiddlewares acl_config ''adm'' (Some (lite_NewUserRepository demo_uuid)) (Some (lite_NewACLRepository demo_uuid)) = Inr ?ms"
    by (simp add: serverMiddlewares_def CreateAuthMiddleware_def acl_config_def)
  have "map m_name (modules (store (snd ?run))) \<noteq> map m_name (modules (store lite_start))" by code_simp
  then have "store (snd ?run) \<noteq> store lite_start" by metis
  with lite_acl_guard [OF ms, of demo_lite_services "bearer ''adm''" demo_register lite_start "fst ?run" "snd ?run"] ms
  show ?thesis by (intro exI [of _ ?ms] exI [of _ "fst ?run"] exI [of _ "snd ?run"]) auto
qed

text \<open>
  What each request needs.  The substring tests on the operation and the getters of the
  requests amount to one permission on one module name per request, and to none for no request:
  the user service needs admin rights on everything, a delete admin rights on its module, a push or
  registration the right to write, everything else the right to read.
\<close>

lemma required_permission: "getRequiredPermission (operation_of req) req = required req \<and> fst (required req) \<noteq> []"
  by (simp add: getRequiredPermission_required required_nonempty)

text \<open>
  C7: the ACL server, exactly (PostgreSQL).  When the database answers, a request is carried out
  for the admin token and for the first active user whose stored hash accepts the token, if the
  permission entry for the module, or failing that for the wildcard, covers the request.
\<close>

theorem pg_acl_exact:
  assumes "serverMiddlewares acl_config env_token (Some (NewUserRepository cr)) (Some NewACLRepository) = Inr ms"
    and "faults w = []"
  shows "serve s ms header req w =
    (let authHeader = header authorizationKey; token = header_token authHeader; run = dispatch s (incoming header req) req w in
     if authHeader = [] then (Inl ErrTokenInvalid, w)
     else if token = env_token then run
     else case filter (\<lambda>r. u_token r = crypt cr token (u_token r) \<and> u_is_active r) (users (store w)) of
       [] \<Rightarrow> (Inl ErrTokenInvalid, w)
     | row # _ \<Rightarrow> if allowed (store w) (u_id row) (snd (required req)) (fst (required req)) then run
                  else (Inl ErrPermissionDenied, w))"
proof -
  from assms(1) have ms: "ms = [aclAuth env_token (NewUserRepository cr), authz_handle NewACLRepository]"
    by (auto simp: serverMiddlewares_def CreateAuthMiddleware_def acl_config_def split: if_splits)
  define h where "h = dispatch s (incoming header req) req"
  have run: "dispatch s ctx req = h" for ctx
    unfolding h_def by (cases req) simp_all
  obtain p name where req: "required req = (p, name)" "p \<noteq> []" using required_nonempty [of req] by (cases "required req") auto
  show ?thesis
    using assms(2) req getRequiredPermission_required [of req] run
    by (auto simp: serve_def ms aclAuth_def authz_handle_def incoming_def IsAdmin_def GetUserFromContext_def Let_def
        pg_GetUserByToken_def queryRow_ok CheckPermission_ok attempt_def split: list.splits)
qed

theorem pg_acl_exact_witness:
  "\<exists>ms. serverMiddlewares acl_config ''adm'' (Some (NewUserRepository demo_crypto)) (Some NewACLRepository) = Inr ms \<and>
     faults acl_world = [] \<and> fst (serve demo_services ms (bearer ''nobody'') demo_register acl_world) = Inl ErrTokenInvalid"
proof -
  let ?ms = "[aclAuth ''adm'' (NewUserRepository demo_crypto), authz_handle NewACLRepository]"
  have ms: "serverMiddlewares acl_config ''adm'' (Some (NewUserRepository demo_crypto)) (Some NewACLRepository) = Inr ?ms"
    by (simp add: serverMiddlewares_def CreateAuthMiddleware_def acl_config_def)
  have faults: "faults acl_world = []" by code_simp
  have head: "bearer ''nobody'' authorizationKey \<noteq> []" "header_token (bearer ''nobody'' authorizationKey) = ''nobody''"
    by code_simp+
  have none: "filter (\<lambda>r. u_token r = crypt demo_crypto ''nobody'' (u_token r) \<and> u_is_active r) (users (store acl_world)) = []"
    by code_simp
  have "fst (serve demo_services ?ms (bearer ''nobody'') demo_register acl_world) = Inl ErrTokenInvalid"
    using pg_acl_exact [OF ms faults, of demo_services "bearer ''nobody''" demo_register] head none by simp
  with ms faults show ?thesis by (intro exI [of _ ?ms]) simp
qed

section \<open>Tokens\<close>

lemma fresh_user_id:
  assumes "uuids_ok w" and "r \<in> set (users (store w))"
  shows "u_id r \<noteq> uuid_gen w (uuid_next w)"
proof -
  have "u_id r \<in> db_ids (store w)" using assms(2) by (auto simp: db_ids_def)
  then obtain k where "k < uuid_next w" "u_id r = uuid_gen w k" using assms(1) by (auto simp: uuids_ok_def)
  moreover have "inj (uuid_gen w)" using assms(1) by (simp add: uuids_ok_def)
  ultimately show ?thesis by (metis injD less_irrefl)
qed

lemma filter_snoc_unique: "filter P xs = [] \<Longrightarrow> P x \<Longrightarrow> filter P (xs @ [x]) = [x]"
  by simp

text \<open>
  C8: a new user's token works (PostgreSQL).  When the database answers, creating a user with a
  valid type and a new, non-empty name succeeds and returns a token; that token then finds the very
  user just created, provided no active user was there whose hash accepts it too.
\<close>

theorem pg_create_user_token:
  assumes "crypt_law cr" and "uuids_ok w" and "faults w = []"
    and "userRepo s = NewUserRepository cr" and "rand_Read s = ret bytes"
    and "userTypeFromV1 (cur_Type req) = Inr ty" and "cur_Name req \<noteq> []"
    and "cur_Name req \<notin> set (map u_name (users (store w)))"
    and "token = ''pbuf_'' @ ty @ ''_'' @ RawURLEncoding bytes"
    and "filter (\<lambda>r. u_token r = crypt cr token (u_token r) \<and> u_is_active r) (users (store w)) = []"
  shows "\<exists>u w' user. srv_CreateUser s (Some req) w = (Inr (u, token), w') \<and>
    pg_GetUserByToken cr token w' = (Inr user, w') \<and> usr_ID user = vu_Id u \<and> usr_Name user = cur_Name req \<and>
    usr_Type user = ty \<and> usr_IsActive user"
proof -
  let ?id = "uuid_gen w (uuid_next w)" and ?rnd = "uuid_gen w (Suc (uuid_next w))"
  let ?row = "\<lparr>u_id = ?id, u_name = cur_Name req, u_token = crypt cr token (gen_salt_bf cr ?rnd), u_type = ty, u_is_active = True,
     u_created_at = clock w, u_updated_at = clock w\<rparr>"
  have ty: "user_type_ok ty"
    using assms(6) by (auto simp: userTypeFromV1_def user_type_ok_def split: v1_UserType.splits)
  have "insert_user ?row (store w) = Inr (?row, (store w)\<lparr>users := users (store w) @ [?row]\<rparr>)"
    using ty assms(8) fresh_user_id [OF assms(2)] by (auto simp: insert_user_def image_iff)
  then have create: "\<exists>u w'. srv_CreateUser s (Some req) w = (Inr (u, token), w') \<and> vu_Id u = ?id \<and> faults w' = [] \<and>
      users (store w') = users (store w) @ [?row]"
    using assms(3-7,9)
    by (simp add: srv_CreateUser_def orInternal_def generateToken_def pg_CreateUser_def exec_ok bindE_def attempt_def wrapE_def
        Let_def toV1User_def)
  have "u_token ?row = crypt cr token (u_token ?row)" using assms(1) by (simp add: crypt_law_def)
  with assms(10) have "filter (\<lambda>r. u_token r = crypt cr token (u_token r) \<and> u_is_active r) (users (store w) @ [?row]) = [?row]"
    by (intro filter_snoc_unique) simp_all
  with create show ?thesis
    by (fastforce simp: pg_GetUserByToken_def queryRow_ok attempt_def)
qed

definition demo_create :: CreateUserRequest where
  "demo_create = \<lparr>cur_Name = ''bob'', cur_Type = USER_TYPE_BOT\<rparr>"

theorem pg_create_user_token_witness:
  "\<exists>u token w' user. srv_CreateUser (usersServer demo_services) (Some demo_create) start_world = (Inr (u, token), w') \<and>
     pg_GetUserByToken demo_crypto token w' = (Inr user, w') \<and> usr_ID user = vu_Id u \<and> usr_Name user = ''bob''"
proof -
  have uuids: "uuids_ok start_world" by (metis reg_inv_start reg_inv_def)
  show ?thesis
    using pg_create_user_token [OF demo_crypt_law uuids, where s = "usersServer demo_services" and req = demo_create and bytes = "''abc''" and ty = UserTypeBot]
    by (simp add: demo_services_def demo_create_def start_world_def empty_db_def userTypeFromV1_def) blast
qed

lemma filter_map_update:
  "(\<And>r. u_id (f r) = u_id r) \<Longrightarrow>
     filter (\<lambda>r. u_id r = i) (map (\<lambda>r. if u_id r = i then f r else r) rs) = map f (filter (\<lambda>r. u_id r = i) rs)"
  by (induction rs) auto

lemma update_users_Inr:
  assumes "update_users f i d = Inr (n, d')" and "\<And>r. u_id (f r) = u_id r"
  shows "filter (\<lambda>r. u_id r = i) (users d') = map f (filter (\<lambda>r. u_id r = i) (users d))" and "d' = d\<lparr>users := users d'\<rparr>"
  using assms filter_map_update [of f i "users d"] by (auto simp: update_users_def Let_def simp del: map_map split: if_splits)

lemmas users_wp = wp_simps orInternal_def orUserNotFound_def parseUUID_def parse_uuid_def Let_def


definition ann_row :: "string user_row" where
  "ann_row = \<lparr>u_id = ''a'', u_name = ''ann'', u_token = ''hash'', u_type = UserTypeUser, u_is_active = True,
     u_created_at = ''2024-03-10 12:30:00'', u_updated_at = ''2024-03-10 12:30:00''\<rparr>"

definition ann_world :: "(string, string) world" where
  "ann_world = lite_start\<lparr>store := empty_db\<lparr>users := [ann_row]\<rparr>\<rparr>"


text \<open>
  C10: deleting a user (PostgreSQL).  A delete that succeeds, with whatever database failures
  elsewhere, removes exactly the user with the given identifier and every permission of that user,
  and nothing else.
\<close>

theorem pg_delete_user:
  assumes "userRepo s = NewUserRepository cr" and "aclRepo s = NewACLRepository"
    and "srv_DeleteUser s (Some req) w = (Inr x, w')"
  shows "\<exists>i. uuid_Parse (uuidLib s) (dur_Id req) = Some i \<and> i \<in> set (map u_id (users (store w))) \<and>
    store w' = (store w)\<lparr>users := filter (\<lambda>r. u_id r \<noteq> i) (users (store w)), acl := filter (\<lambda>a. a_user_id a \<noteq> i) (acl (store w))\<rparr>"
proof -
  have cascade: "filter (\<lambda>a. a_user_id a \<noteq> i \<and> a_user_id a \<notin> (\<lambda>r. i) ` S) as = filter (\<lambda>a. a_user_id a \<noteq> i) as"
    for i and S :: "instant user_row set" and as :: "instant acl_row list" by (rule filter_cong) auto
  have "wp (srv_DeleteUser s (Some req)) (\<lambda>r w'. \<forall>x. r = Inr x \<longrightarrow>
      (\<exists>i. uuid_Parse (uuidLib s) (dur_Id req) = Some i \<and> i \<in> set (map u_id (users (store w))) \<and>
        store w' = (store w)\<lparr>users := filter (\<lambda>r. u_id r \<noteq> i) (users (store w)), acl := filter (\<lambda>a. a_user_id a \<noteq> i) (acl (store w))\<rparr>)) w"
    using assms(1,2)
    by (auto simp: srv_DeleteUser_def users_wp pg_DeleteUserPermissions_def pg_DeleteUser_def delete_acl_def delete_users_def
        filter_empty_conv cascade split: option.splits sum.splits if_splits)
  from wpD [OF this assms(3)] show ?thesis by simp
qed

lemma acl_world_row: "\<exists>row. users (store acl_world) = [row] \<and> u_id row = ''a''"
  by (rule exI [of _ "hd (users (store acl_world))"]) code_simp

theorem pg_delete_user_witness:
  "\<exists>w'. srv_DeleteUser (usersServer demo_services) (Some \<lparr>dur_Id = ''a''\<rparr>) acl_world = (Inr ''a'', w') \<and>
     users (store w') = [] \<and> acl (store w') = filter (\<lambda>a. a_user_id a \<noteq> ''a'') (acl (store acl_world))"
proof -
  let ?run = "srv_DeleteUser (usersServer demo_services) (Some \<lparr>dur_Id = ''a''\<rparr>) acl_world"
  have "fst ?run = Inr ''a''" by code_simp
  then have run: "?run = (Inr ''a'', snd ?run)" by (metis prod.collapse)
  obtain row where "users (store acl_world) = [row]" "u_id row = ''a''" using acl_world_row by blast
  with pg_delete_user [OF _ _ run] run show ?thesis
    by (intro exI [of _ "snd ?run"]) (auto simp: demo_services_def demo_uuid_def)
qed

section \<open>Permissions\<close>

lemma acl_rows_upsert:
  assumes "upsert_acl fk r d = Inr (x, d')"
  shows "map a_permission (acl_rows i n d') =
    (if (i, n) = (a_user_id r, a_module_name r)
     then (if acl_rows i n d = [] then [a_permission r] else map (\<lambda>_. a_permission r) (acl_rows i n d))
     else map a_permission (acl_rows i n d))"
proof (cases "clash (\<lambda>x. (a_user_id x, a_module_name x)) r (acl d)")
  case True
  let ?upd = "\<lambda>x. if a_user_id x = a_user_id r \<and> a_module_name x = a_module_name r then x\<lparr>a_permission := a_permission r\<rparr> else x"
  from True assms have d': "acl d' = map ?upd (acl d)" by (auto simp: upsert_acl_def simp del: clash_iff split: if_splits)
  have "acl_rows i n d' = map ?upd (acl_rows i n d)"
    by (simp add: acl_rows_def d' filter_map comp_def) (intro arg_cong [where f = "map ?upd"] filter_cong, auto)
  moreover have "acl_rows i n d \<noteq> []" if "(i, n) = (a_user_id r, a_module_name r)"
    using True that by (auto simp: acl_rows_def filter_empty_conv)
  ultimately show ?thesis by (auto simp: acl_rows_def)
next
  case False
  then have "acl d' = acl d @ [r]" "acl_rows (a_user_id r) (a_module_name r) d = []"
    using assms by (auto simp: upsert_acl_def acl_rows_def filter_empty_conv split: if_splits)
  then show ?thesis by (auto simp: acl_rows_def)
qed

lemma granted_map:
  "granted d i n = (case map a_permission (acl_rows i n d) of p # _ \<Rightarrow> Some p
     | [] \<Rightarrow> (case map a_permission (acl_rows i ''*'' d) of p # _ \<Rightarrow> Some p | [] \<Rightarrow> None))"
  by (simp add: granted_def split: list.splits)

text \<open>
  C11: granting a permission (PostgreSQL).  After a grant that succeeds, a check of the same user
  and module succeeds exactly when the granted permission covers what is asked, whatever was
  granted before; and no other user's permissions change.
\<close>

theorem pg_grant_then_check:
  assumes "pg_GrantPermission entry w = (Inr e, w1)" and "faults w1 = []"
  shows "pg_CheckPermission (acl_UserID entry) (acl_ModuleName entry) p w1 = (Inr (hasRequiredPermission (acl_Permission entry) p), w1) \<and>
    (\<forall>i n. i = acl_UserID entry \<or> granted (store w1) i n = granted (store w) i n)"
proof -
  have "wp (pg_GrantPermission entry) (\<lambda>r w'. \<forall>e. r = Inr e \<longrightarrow> (\<exists>a. a_user_id a = acl_UserID entry \<and>
      a_module_name a = acl_ModuleName entry \<and> a_permission a = acl_Permission entry \<and> upsert_acl True a (store w) = Inr ((), store w'))) w"
    by (auto simp: pg_GrantPermission_def wp_simps returning_acl_def split: sum.splits list.splits intro!: exI)
  from wpD [OF this assms(1)] obtain a where a: "a_user_id a = acl_UserID entry" "a_module_name a = acl_ModuleName entry"
    "a_permission a = acl_Permission entry" "upsert_acl True a (store w) = Inr ((), store w1)" by blast
  note rows = acl_rows_upsert [OF a(4)]
  have "granted (store w1) (acl_UserID entry) (acl_ModuleName entry) = Some (acl_Permission entry)"
    using a(1-3) by (auto simp: granted_map rows split: list.splits)
  moreover have "granted (store w1) i n = granted (store w) i n" if "i \<noteq> acl_UserID entry" for i n
  proof -
    have "map a_permission (acl_rows i m (store w1)) = map a_permission (acl_rows i m (store w))" for m
      using a(1) that by (simp add: rows)
    then show ?thesis by (simp only: granted_map)
  qed
  ultimately show ?thesis using CheckPermission_ok [OF assms(2)] by (auto simp: allowed_def)
qed

definition demo_grant :: ACLEntry where
  "demo_grant = \<lparr>acl_ID = [], acl_UserID = ''a'', acl_ModuleName = ''m'', acl_Permission = PermissionRead, acl_CreatedAt = zero_time\<rparr>"

theorem pg_grant_then_check_witness:
  "\<exists>e w1. pg_GrantPermission demo_grant acl_world = (Inr e, w1) \<and>
     pg_CheckPermission ''a'' ''m'' PermissionWrite w1 = (Inr False, w1) \<and> pg_CheckPermission ''a'' ''m'' PermissionRead w1 = (Inr True, w1)"
proof -
  let ?run = "pg_GrantPermission demo_grant acl_world"
  have "\<not> isl (fst ?run)" and faults: "faults (snd ?run) = []" by code_simp+
  then obtain e where run: "?run = (Inr e, snd ?run)" by (metis isl_def prod.collapse sum.exhaust)
  have "\<not> hasRequiredPermission PermissionRead PermissionWrite" "hasRequiredPermission PermissionRead PermissionRead" by code_simp+
  with pg_grant_then_check [OF run faults, of PermissionWrite] pg_grant_then_check [OF run faults, of PermissionRead] run
  show ?thesis by (auto simp: demo_grant_def)
qed



text \<open>The same consistency of the account tables in SQLite.\<close>

lemma lite_accounts_invariant:
  assumes "(account_step (lite_NewUserRepository ul) (lite_NewACLRepository ul))\<^sup>*\<^sup>* w w'" and "accounts_inv w"
  shows "accounts_inv w'"
  using assms by (induction rule: rtranclp_induct) (auto dest: lite_account_step)

lemma lite_accounts_invariant_witness:
  "accounts_inv (snd (lite_DeleteUser ''x'' lite_start))"
proof -
  have "account_step (lite_NewUserRepository demo_uuid) (lite_NewACLRepository demo_uuid) lite_start (snd (lite_DeleteUser ''x'' lite_start))"
    by (rule delete_user) (simp, rule prod.collapse [symmetric])
  note run = r_into_rtranclp [where r = "account_step (lite_NewUserRepository demo_uuid) (lite_NewACLRepository demo_uuid)", OF this]
  show ?thesis by (rule lite_accounts_invariant [OF run]) (unfold lite_start_def, rule accounts_inv_start)
qed

end
