(* ===== verification/DriftLaws.thy ===== *)
theory DriftLaws
  imports Daemons
begin

text \<open>
  The library of the drift components: what the statements of the drift repositories do to the
  tables, and which earlier tag a tag is compared with.
\<close>

section \<open>Content hashes\<close>

text \<open>The loop over the rows \<open>(id, content)\<close> of the files without a hash sets the hash of each.\<close>

lemma set_hash_rows:
  "set_hash h i d = Inr (x, d') \<Longrightarrow>
     d' = d\<lparr>protofiles := map (\<lambda>p. if p_id p = i then p\<lparr>p_content_hash := h\<rparr> else p) (protofiles d)\<rparr>"
  by (simp add: set_hash_def)

definition hashed :: "(string \<Rightarrow> 'h) \<Rightarrow> uuid set \<Rightarrow> 'h protofile_row list \<Rightarrow> 'h protofile_row list" where
  "hashed hash ids ps = map (\<lambda>p. if p_id p \<in> ids then p\<lparr>p_content_hash := hash (p_content p)\<rparr> else p) ps"

lemma hashed_step:
  assumes "distinct (map p_id ps)" and "q \<in> set ps"
  shows "map (\<lambda>p. if p_id p = p_id q then p\<lparr>p_content_hash := hash (p_content q)\<rparr> else p) (hashed hash ids ps) =
    hashed hash (insert (p_id q) ids) ps"
  using assms by (auto simp: hashed_def dest: distinct_map_inj_on)

lemma hash_loop_wp:
  fixes w :: "('h, 't) world"
  assumes "distinct (map p_id (protofiles (store w)))" and "set qs \<subseteq> set (protofiles (store w))"
    and "\<And>e w'. Q (Inl e) w'"
    and "\<And>fs. Q (Inr ()) (w\<lparr>faults := fs, store := (store w)\<lparr>protofiles := hashed hash (p_id ` set qs) (protofiles (store w))\<rparr>\<rparr>)"
  shows "wp (forE (map (\<lambda>p. (p_id p, p_content p)) qs) (\<lambda>f. exec (set_hash (hash (snd f)) (fst f)))) Q w"
proof -
  let ?J = "\<lambda>pre v. \<exists>fs. v = w\<lparr>faults := fs, store := (store w)\<lparr>protofiles := hashed hash (fst ` set pre) (protofiles (store w))\<rparr>\<rparr>"
  show ?thesis
  proof (rule wp_forE_prefix [where J = ?J])
    have "w = w\<lparr>faults := faults w, store := (store w)\<lparr>protofiles := hashed hash {} (protofiles (store w))\<rparr>\<rparr>"
      by (simp add: hashed_def)
    then show "?J [] w" by (metis image_empty list.set(1))
  next
    fix pre x post v
    assume split: "map (\<lambda>p. (p_id p, p_content p)) qs = pre @ x # post" and "?J pre v"
    then obtain fs where v: "v = w\<lparr>faults := fs, store := (store w)\<lparr>protofiles := hashed hash (fst ` set pre) (protofiles (store w))\<rparr>\<rparr>"
      by blast
    have "x \<in> set (map (\<lambda>p. (p_id p, p_content p)) qs)" unfolding split by simp
    then obtain q where q: "q \<in> set (protofiles (store w))" "x = (p_id q, p_content q)" using assms(2) by auto
    from hashed_step [OF assms(1) q(1), of hash "fst ` set pre"]
    show "wp (exec (set_hash (hash (snd x)) (fst x))) (\<lambda>r w'. case r of Inl e \<Rightarrow> Q (Inl e) w' | Inr _ \<Rightarrow> ?J (pre @ [x]) w') v"
      using assms(3) by (auto simp: wp_simps v q(2) set_hash_def called_def)
  next
    fix v assume "?J (map (\<lambda>p. (p_id p, p_content p)) qs) v"
    then show "Q (Inr ()) v" using assms(4) by (auto simp: image_image)
  qed
qed

text \<open>Every file of the tag that has no hash gets the hash of its content; the others keep theirs.\<close>

definition fill_hashes :: "('h \<Rightarrow> bool) \<Rightarrow> (string \<Rightarrow> 'h) \<Rightarrow> uuid \<Rightarrow> 'h protofile_row list \<Rightarrow> 'h protofile_row list" where
  "fill_hashes none hash i ps =
     map (\<lambda>p. if p_tag_id p = i \<and> none (p_content_hash p) then p\<lparr>p_content_hash := hash (p_content p)\<rparr> else p) ps"

lemma hashed_fill:
  assumes "distinct (map p_id ps)"
  shows "hashed hash (p_id ` set (filter (\<lambda>p. p_tag_id p = i \<and> none (p_content_hash p)) ps)) ps = fill_hashes none hash i ps"
  using assms unfolding hashed_def fill_hashes_def
  by (intro map_cong [OF refl]) (auto dest: distinct_map_inj_on)

lemma hash_tx_wp:
  fixes w :: "('h, 't) world"
  assumes "distinct (map p_id (protofiles (store w)))"
  shows "wp (inTx (\<lambda>e. e) (\<lambda>e. e)
     (bindE (query (\<lambda>d. map (\<lambda>p. (p_id p, p_content p)) (filter (\<lambda>p. p_tag_id p = i \<and> none (p_content_hash p)) (protofiles d)))) (\<lambda>files.
      forE files (\<lambda>f. exec (set_hash (hash (snd f)) (fst f))))))
    (\<lambda>r w'. store w' = (case r of Inl e \<Rightarrow> store w
       | Inr _ \<Rightarrow> (store w)\<lparr>protofiles := fill_hashes none hash i (protofiles (store w))\<rparr>)) w"
  unfolding wp_inTx wp_bindE wp_query
  using hashed_fill [OF assms, where none = none and i = i and hash = hash] assms
  by (auto simp: called_def intro!: hash_loop_wp)

section \<open>Which tag is the previous one\<close>

lemma queryRow_default_ok:
  assumes "faults w = []"
  shows "attempt (queryRow f) (\<lambda>r. case r of Inl err \<Rightarrow> if errors_Is err ErrNoRows then ret dflt else throw err | Inr x \<Rightarrow> ret x) w =
    (Inr (case f (store w) of [] \<Rightarrow> dflt | x # _ \<Rightarrow> x), w)"
  using assms by (simp add: attempt_def queryRow_ok split: list.splits)

lemma hd_sort_desc:
  assumes "sort_desc key (filter P xs) = y # ys"
  shows "y \<in> set xs \<and> P y \<and> (\<forall>x\<in>set xs. P x \<longrightarrow> key x \<le> key y)"
proof -
  have "y \<in> set (sort_desc key (filter P xs))" by (simp add: assms)
  then show ?thesis using sort_desc_hd_max [OF assms] by auto
qed

definition latest_where :: "('t::linorder tag_row \<Rightarrow> bool) \<Rightarrow> ('h, 't) db \<Rightarrow> uuid \<Rightarrow> bool" where
  "latest_where P d i \<longleftrightarrow> (if \<exists>t\<in>set (tags d). P t
     then \<exists>p\<in>set (tags d). t_id p = i \<and> P p \<and> (\<forall>t\<in>set (tags d). P t \<longrightarrow> t_updated_at t \<le> t_updated_at p) else i = [])"

lemma latest_whereI:
  "latest_where P d (case map t_id (sort_desc t_updated_at (filter P (tags d))) of [] \<Rightarrow> [] | x # _ \<Rightarrow> x)"
proof (cases "sort_desc t_updated_at (filter P (tags d))")
  case Nil
  then have "\<not> (\<exists>t\<in>set (tags d). P t)" by (simp add: filter_empty_conv)
  with Nil show ?thesis by (simp add: latest_where_def sort_desc_def)
next
  case (Cons p ps)
  with hd_sort_desc [OF Cons] show ?thesis by (auto simp: latest_where_def)
qed

lemma pg_previous_latest:
  assumes "faults w = []" and "distinct (map t_id (tags (store w)))" and "c \<in> set (tags (store w))"
  shows "\<exists>i. pg_GetPreviousTagID mid (t_id c) w = (Inr i, w) \<and>
    latest_where (\<lambda>t. t_module_id t = mid \<and> t_id t \<noteq> t_id c \<and> t_updated_at t < t_updated_at c) (store w) i"
  using assms filter_eq_singleton [OF assms(2,3) refl] latest_whereI
  by (simp add: pg_GetPreviousTagID_def bindE_def queryRow_ok queryRow_default_ok)

lemma lite_previous_latest:
  assumes "faults w = []" and "distinct (map t_id (tags (store w)))" and "c \<in> set (tags (store w))"
  shows "\<exists>i. lite_GetPreviousTagID mid (t_id c) w = (Inr i, w) \<and>
    latest_where (\<lambda>t. t_module_id t = mid \<and> t_id t \<noteq> t_id c \<and> t_updated_at t < fmtTime (parseTime (t_updated_at c))) (store w) i"
  using assms filter_eq_singleton [OF assms(2,3) refl] latest_whereI
  by (simp add: lite_GetPreviousTagID_def Let_def bindE_def queryRow_ok queryRow_default_ok)

section \<open>Drift events\<close>

text \<open>What a row needs to pass the constraints, and the rows whose key is already there.\<close>

definition event_ok :: "bool \<Rightarrow> ('h, 't) db \<Rightarrow> ('h, 't) event_row \<Rightarrow> bool" where
  "event_ok fk d e \<longleftrightarrow> event_type_ok (de_event_type e) \<and> severity_ok (de_severity e) \<and>
     (fk \<longrightarrow> de_module_id e \<in> m_id ` set (modules d) \<and> de_tag_id e \<in> t_id ` set (tags d))"

definition events_unique :: "('h \<Rightarrow> string) \<Rightarrow> ('h, 't) db \<Rightarrow> bool" where
  "events_unique hk d \<longleftrightarrow> distinct (map (event_key hk) (drift_events d))"

lemma insert_events_ok:
  assumes "insert_events hk fk es d = Inr (x, d')"
  shows "(\<exists>new. d' = d\<lparr>drift_events := drift_events d @ new\<rparr> \<and> set new \<subseteq> set es) \<and>
    (\<forall>e\<in>set es. event_ok fk d e \<and> event_key hk e \<in> event_key hk ` set (drift_events d')) \<and>
    (events_unique hk d \<longrightarrow> events_unique hk d')"
  using assms
proof (induction es arbitrary: d)
  case (Cons e es)
  from Cons.prems have ok: "event_ok fk d e" by (auto simp: event_ok_def split: if_splits)
  show ?case
  proof (cases "clash (event_key hk) e (drift_events d)")
    case True
    with Cons.prems have "insert_events hk fk es d = Inr (x, d')" by (simp split: if_splits)
    from Cons.IH [OF this] obtain new where new: "d' = d\<lparr>drift_events := drift_events d @ new\<rparr>" "set new \<subseteq> set es"
      "\<forall>e\<in>set es. event_ok fk d e \<and> event_key hk e \<in> event_key hk ` set (drift_events d')"
      "events_unique hk d \<longrightarrow> events_unique hk d'" by blast
    have "event_key hk e \<in> event_key hk ` set (drift_events d')"
      using True new(1) by (metis UnI1 clash_def db.select_convs(10) db.surjective db.update_convs(10) image_Un set_append set_map)
    with ok new show ?thesis by auto
  next
    case False
    let ?d = "d\<lparr>drift_events := drift_events d @ [e]\<rparr>"
    from False Cons.prems have "insert_events hk fk es ?d = Inr (x, d')" by (simp split: if_splits)
    from Cons.IH [OF this] obtain new where new: "d' = ?d\<lparr>drift_events := drift_events ?d @ new\<rparr>" "set new \<subseteq> set es"
      "\<forall>e\<in>set es. event_ok fk ?d e \<and> event_key hk e \<in> event_key hk ` set (drift_events d')"
      "events_unique hk ?d \<longrightarrow> events_unique hk d'" by blast
    have "events_unique hk d \<Longrightarrow> events_unique hk ?d" using False by (auto simp: events_unique_def simp flip: clash_iff)
       (auto simp: clash_def)
    with ok new show ?thesis by (intro conjI exI [of _ "e # new"]) (auto simp: event_ok_def)
  qed
qed auto

lemma insert_events_again:
  assumes "\<forall>e\<in>set es. event_ok fk d e \<and> event_key hk e \<in> event_key hk ` set (drift_events d)"
  shows "insert_events hk fk es d = Inr ((), d)"
  using assms by (induction es) (auto simp: event_ok_def image_iff)

lemma mapE_new_row:
  "mapE es (new_row h tm) w = (Inr (map (\<lambda>i. event_row_of h tm (es ! i) (uuid_gen w (uuid_next w + i))) [0..<length es]),
     w\<lparr>uuid_next := uuid_next w + length es\<rparr>)"
proof (induction es arbitrary: w)
  case (Cons e es)
  have "map (\<lambda>i. event_row_of h tm ((e # es) ! i) (uuid_gen w (uuid_next w + i))) [0..<length (e # es)] =
    event_row_of h tm e (uuid_gen w (uuid_next w)) # map (\<lambda>i. event_row_of h tm (es ! i) (uuid_gen w (Suc (uuid_next w) + i))) [0..<length es]"
    by (simp add: upt_rec [of 0] map_Suc_upt [symmetric] del: upt_Suc)
  with Cons.IH [of "w\<lparr>uuid_next := Suc (uuid_next w)\<rparr>"] show ?case by (simp add: new_row_def bindE_def)
qed simp

text \<open>Neither the key nor the constraints depend on the identifiers the rows get.\<close>

lemma event_row_facts [simp]:
  "event_key hk (event_row_of h tm e i) = (ev_TagID e, ev_Filename e, ev_EventType e, hk (h (ev_PreviousHash e)), hk (h (ev_CurrentHash e)))"
  "event_ok fk d (event_row_of h tm e i) \<longleftrightarrow> event_type_ok (ev_EventType e) \<and> severity_ok (ev_Severity e) \<and>
     (fk \<longrightarrow> ev_ModuleID e \<in> m_id ` set (modules d) \<and> ev_TagID e \<in> t_id ` set (tags d))"
  by (simp_all add: event_key_def event_row_of_def event_ok_def)

definition save_events :: "('h \<Rightarrow> string) \<Rightarrow> (string \<Rightarrow> 'h) \<Rightarrow> (instant \<Rightarrow> 't) \<Rightarrow> bool \<Rightarrow> DriftEvent list \<Rightarrow> (('h, 't) world, unit) go" where
  "save_events hk h tm fk events =
     (if events = [] then ret () else bindE (mapE events (new_row h tm)) (\<lambda>rows. exec (insert_events hk fk rows)))"

lemma save_events_eqs:
  "pg_SaveDriftEvents es = save_events coalesce null_if_empty (\<lambda>t. t) True es"
  "lite_SaveDriftEvents es w = save_events (\<lambda>s. s) (\<lambda>s. s) fmtTime (fk_enforced w) es w"
  by (simp_all add: pg_SaveDriftEvents_def lite_SaveDriftEvents_def save_events_def bindE_def)

definition stored :: "('h \<Rightarrow> string) \<Rightarrow> (string \<Rightarrow> 'h) \<Rightarrow> bool \<Rightarrow> DriftEvent list \<Rightarrow> ('h, 't) db \<Rightarrow> bool" where
  "stored hk h fk es d \<longleftrightarrow> (\<forall>e\<in>set es. event_type_ok (ev_EventType e) \<and> severity_ok (ev_Severity e) \<and>
     (fk \<longrightarrow> ev_ModuleID e \<in> m_id ` set (modules d) \<and> ev_TagID e \<in> t_id ` set (tags d)) \<and>
     (ev_TagID e, ev_Filename e, ev_EventType e, hk (h (ev_PreviousHash e)), hk (h (ev_CurrentHash e))) \<in> event_key hk ` set (drift_events d))"

lemma save_events_stores:
  assumes "save_events hk h tm fk es w = (Inr (), w')"
  shows "stored hk h fk es (store w') \<and> (\<exists>new. store w' = (store w)\<lparr>drift_events := drift_events (store w) @ new\<rparr>) \<and>
    fk_enforced w' = fk_enforced w \<and> (events_unique hk (store w) \<longrightarrow> events_unique hk (store w'))"
proof (cases "es = []")
  case True
  with assms show ?thesis by (auto simp: save_events_def stored_def intro: exI [of _ "[]"])
next
  case False
  let ?rows = "map (\<lambda>i. event_row_of h tm (es ! i) (uuid_gen w (uuid_next w + i))) [0..<length es]"
  from False assms have "exec (insert_events hk fk ?rows) (w\<lparr>uuid_next := uuid_next w + length es\<rparr>) = (Inr (), w')"
    by (simp add: save_events_def mapE_new_row bindE_def)
  then obtain fs d where ins: "insert_events hk fk ?rows (store w) = Inr ((), d)"
    and w': "w' = w\<lparr>uuid_next := uuid_next w + length es, faults := fs, store := d\<rparr>"
    by (cases rule: exec_cases) auto
  from insert_events_ok [OF ins] obtain new where d: "d = (store w)\<lparr>drift_events := drift_events (store w) @ new\<rparr>"
    "\<forall>e\<in>set ?rows. event_ok fk (store w) e \<and> event_key hk e \<in> event_key hk ` set (drift_events d)"
    "events_unique hk (store w) \<longrightarrow> events_unique hk d" by blast
  have row: "event_ok fk (store w) (event_row_of h tm e i') \<and> event_key hk (event_row_of h tm e i') \<in> event_key hk ` set (drift_events d)"
    if "e \<in> set es" for e i'
  proof -
    from that obtain j where "j < length es" "es ! j = e" by (metis in_set_conv_nth)
    then have "event_row_of h tm e (uuid_gen w (uuid_next w + j)) \<in> set ?rows" by auto
    with d(2) have "event_ok fk (store w) (event_row_of h tm e (uuid_gen w (uuid_next w + j))) \<and>
      event_key hk (event_row_of h tm e (uuid_gen w (uuid_next w + j))) \<in> event_key hk ` set (drift_events d)" by blast
    then show ?thesis unfolding event_row_facts .
  qed
  have "stored hk h fk es d" unfolding stored_def using row [unfolded event_row_facts] d(1) by simp
  with d w' show ?thesis by auto
qed

lemma save_events_again:
  assumes "stored hk h fk es (store w)" and "save_events hk h tm fk es w = (r, w')"
  shows "store w' = store w \<and> (faults w = [] \<longrightarrow> r = Inr ())"
proof (cases "es = []")
  case False
  let ?rows = "map (\<lambda>i. event_row_of h tm (es ! i) (uuid_gen w (uuid_next w + i))) [0..<length es]"
  have "insert_events hk fk ?rows (store w) = Inr ((), store w)"
    by (rule insert_events_again) (use assms(1) in \<open>auto simp: stored_def\<close>)
  moreover have run: "exec (insert_events hk fk ?rows) (w\<lparr>uuid_next := uuid_next w + length es\<rparr>) = (r, w')"
    using assms(2) False by (simp add: save_events_def mapE_new_row bindE_def)
  moreover have "store w' = store w" using run calculation(1) by (auto elim!: exec_cases)
  ultimately show ?thesis by (auto simp: exec_ok)
qed (use assms in \<open>simp add: save_events_def\<close>)

lemma save_events_atomic:
  assumes "save_events hk h tm fk es w = (Inl e, w')"
  shows "store w' = store w"
proof (cases "es = []")
  case False
  with assms show ?thesis by (auto simp: save_events_def mapE_new_row bindE_def elim!: exec_cases)
qed (use assms in \<open>simp add: save_events_def\<close>)

section \<open>Acknowledging\<close>

definition event_joins :: "('h, 't) db \<Rightarrow> ('h, 't) event_row \<Rightarrow> (('h, 't) event_row \<times> module_row \<times> 't tag_row) list" where
  "event_joins d e = concat (map (\<lambda>m. map (\<lambda>t. (e, m, t)) (filter (\<lambda>t. de_tag_id e = t_id t) (tags d)))
     (filter (\<lambda>m. de_module_id e = m_id m) (modules d)))"

lemma joined_events_alt: "joined_events d = concat (map (event_joins d) (drift_events d))"
  by (simp add: joined_events_def event_joins_def [abs_def])

lemma event_joins_fst: "x \<in> set (event_joins d e) \<Longrightarrow> fst x = e"
  by (auto simp: event_joins_def)

lemma event_joins_cong: "modules d' = modules d \<Longrightarrow> tags d' = tags d \<Longrightarrow> event_joins d' = event_joins d"
  by (simp add: event_joins_def [abs_def])

text \<open>Among the unacknowledged events, the acknowledged one is gone and the others are as they were.\<close>

lemma acknowledged_events:
  assumes "acknowledge ts who i d = Inr (x, d')"
  shows "filter (\<lambda>x. \<not> de_acknowledged (fst x)) (joined_events d') =
    filter (\<lambda>x. de_id (fst x) \<noteq> i) (filter (\<lambda>x. \<not> de_acknowledged (fst x)) (joined_events d))"
proof -
  let ?ack = "\<lambda>e. if de_id e = i then e\<lparr>de_acknowledged := True, de_acknowledged_at := Some ts, de_acknowledged_by := Some who\<rparr> else e"
  from assms have d': "d' = d\<lparr>drift_events := map ?ack (drift_events d)\<rparr>" by (simp add: acknowledge_def)
  have one: "filter (\<lambda>x. \<not> de_acknowledged (fst x)) (event_joins d (?ack e)) =
      filter (\<lambda>x. de_id (fst x) \<noteq> i) (filter (\<lambda>x. \<not> de_acknowledged (fst x)) (event_joins d e))" for e
  proof (cases "de_id e = i")
    case True
    then have "filter (\<lambda>x. \<not> de_acknowledged (fst x)) (event_joins d (?ack e)) = []"
      "filter (\<lambda>x. de_id (fst x) \<noteq> i) (filter (\<lambda>x. \<not> de_acknowledged (fst x)) (event_joins d e)) = []"
      by (auto simp: filter_empty_conv dest!: event_joins_fst)
    then show ?thesis by simp
  next
    case False
    then show ?thesis by (auto dest!: event_joins_fst intro!: filter_cong)
  qed
  have "filter (\<lambda>x. \<not> de_acknowledged (fst x)) (concat (map (event_joins d) (map ?ack es))) =
      filter (\<lambda>x. de_id (fst x) \<noteq> i) (filter (\<lambda>x. \<not> de_acknowledged (fst x)) (concat (map (event_joins d) es)))" for es
    by (induction es) (simp_all only: list.map concat.simps filter_append one filter.simps)
  then show ?thesis using event_joins_cong [of d' d] by (simp add: joined_events_alt d')
qed

lemma sort_desc_filter: "sort_desc key (filter P xs) = filter P (sort_desc key xs)"
  by (metis sort_desc_def rev_filter filter_sort)

lemma map_filter_same: "(\<And>x. x \<in> set xs \<Longrightarrow> Q (f x) = P x) \<Longrightarrow> map f (filter P xs) = filter Q (map f xs)"
  by (induction xs) auto

end
