(* ===== verification/DetectionLaws.thy ===== *)
theory DetectionLaws
  imports DriftLaws RegistrySearch
begin

text \<open>
  What the detection of drift relies on of the two repositories it reads, as a locale, what it
  computes under that contract, and the grading of a change.
\<close>

section \<open>Go maps as lists of entries\<close>

lemma map_of_map_update [simp]: "map_of (map_update k v m) = (map_of m)(k \<mapsto> v)"
  by (induction k v m rule: map_update.induct) (auto simp: fun_eq_iff)

lemma keys_map_update: "fst ` set (map_update k v m) = insert k (fst ` set m)"
  by (induction k v m rule: map_update.induct) auto

lemma distinct_map_update: "distinct (map fst m) \<Longrightarrow> distinct (map fst (map_update k v m))"
  by (induction k v m rule: map_update.induct) (simp_all add: keys_map_update, metis)

lemma fold_map_update:
  "map_of (fold (\<lambda>(k, v). map_update k v) rows m) = map_of m ++ map_of (rev rows) \<and>
   (distinct (map fst m) \<longrightarrow> distinct (map fst (fold (\<lambda>(k, v). map_update k v) rows m)))"
proof (induction rows arbitrary: m)
  case (Cons r rows)
  obtain k v where r: "r = (k, v)" by (cases r)
  have "map_of m ++ map_of (rev ((k, v) # rows)) = (map_of m)(k \<mapsto> v) ++ map_of (rev rows)"
    by (simp add: map_add_def fun_eq_iff split: option.splits)
  with Cons.IH [of "map_update k v m"] distinct_map_update [of m k v] show ?case by (simp add: r fun_upd_def)
qed simp

lemma file_map_props: "map_of (file_map rows) = map_of (rev rows)" "distinct (map fst (file_map rows))"
  using fold_map_update [of rows "[]"] by (simp_all add: file_map_def)

lemma map_of_file_map:
  assumes "distinct (map fst rows)"
  shows "map_of (file_map rows) = map_of rows"
  using map_of_eqI [of rows "rev rows"] assms by (simp add: file_map_props rev_map distinct_rev set_rev)
     (metis assms distinct_rev map_of_inject_set rev_map set_rev)

section \<open>The contract of the detection\<close>

text \<open>
  In a world that answers, reading the hashes of a tag gives a map and changes nothing, and so does
  reading the parsed files, which may fail: a parsed file whose JSON is damaged is an error.
\<close>

locale drift_reader =
  fixes dr :: "'w DriftRepository" and mr :: "'w MetadataRepository" and ok :: "'w \<Rightarrow> bool"
    and hashes :: "'w \<Rightarrow> uuid \<Rightarrow> string \<rightharpoonup> string"
  assumes hashes: "ok w \<Longrightarrow> \<exists>fs. GetFileHashesForTag dr i w = (Inr fs, w) \<and> map_of fs = hashes w i \<and> distinct (map fst fs)"
    and parsed: "ok w \<Longrightarrow> snd (GetParsedProtoFiles mr i w) = w"

text \<open>The parsed files of a tag as the detection sees them; none when they cannot be read.\<close>

definition parsed_of :: "'w MetadataRepository \<Rightarrow> 'w \<Rightarrow> uuid \<Rightarrow> parsed_map" where
  "parsed_of mr w i = (case fst (getParsedProtoMap mr i w) of Inl _ \<Rightarrow> [] | Inr m \<Rightarrow> m)"

definition severity_of :: "'w MetadataRepository \<Rightarrow> 'w \<Rightarrow> uuid \<Rightarrow> uuid \<Rightarrow> string \<Rightarrow> DriftSeverity" where
  "severity_of mr w previousTagID tagID f =
     determineSeverityFromParsed (parsed_at (parsed_of mr w previousTagID) f) (parsed_at (parsed_of mr w tagID) f)"

definition added_files :: "(string \<times> string) list \<Rightarrow> (string \<times> string) list \<Rightarrow> (string \<times> string) list" where
  "added_files prev cur = filter (\<lambda>(f, _). map_of prev f = None) cur"

definition modified_files :: "(string \<times> string) list \<Rightarrow> (string \<times> string) list \<Rightarrow> (string \<times> string) list" where
  "modified_files prev cur = filter (\<lambda>(f, h). case map_of prev f of None \<Rightarrow> False | Some h' \<Rightarrow> h \<noteq> h') cur"

context drift_reader
begin

lemma getParsed_reads: "ok w \<Longrightarrow> snd (getParsedProtoMap mr i w) = w"
  using parsed [of w i] by (auto simp: getParsedProtoMap_def bindE_def split: prod.splits sum.splits)

lemma load_parsed_ok:
  assumes "ok w" and "cached \<in> {None, Some (parsed_of mr w i)}"
  shows "load_parsed mr i cached w = (Inr (parsed_of mr w i), w)"
  using assms getParsed_reads [OF assms(1), of i]
  by (cases "getParsedProtoMap mr i w") (auto simp: load_parsed_def parsed_of_def attempt_def split: sum.splits)

lemma detect_changes_ok:
  assumes "ok w" and "cp \<in> {None, Some (parsed_of mr w i)}" and "pp \<in> {None, Some (parsed_of mr w p)}"
  shows "detect_changes mr mid i p ts prev cur cp pp result w =
    (Inr (result\<lparr>
       res_Added := res_Added result @ map (\<lambda>(f, h). new_event mid i ts f DriftEventTypeAdded [] h DriftSeverityInfo) (added_files prev cur),
       res_Modified := res_Modified result @ map (\<lambda>(f, h). new_event mid i ts f DriftEventTypeModified (the (map_of prev f)) h
          (severity_of mr w p i f)) (modified_files prev cur)\<rparr>), w)"
  using assms
proof (induction cur arbitrary: cp pp result)
  case (Cons x cur)
  obtain f h where x: "x = (f, h)" by (cases x)
  show ?case
  proof (cases "map_of prev f")
    case None
    then show ?thesis using Cons.IH [OF Cons.prems] by (simp add: x added_files_def modified_files_def)
  next
    case (Some h')
    show ?thesis
    proof (cases "h = h'")
      case True
      with Some show ?thesis using Cons.IH [OF Cons.prems] by (simp add: x added_files_def modified_files_def)
    next
      case False
      with Some show ?thesis
        using Cons.IH [OF Cons.prems(1), of "Some (parsed_of mr w i)" "Some (parsed_of mr w p)"]
          load_parsed_ok [OF Cons.prems(1,2)] load_parsed_ok [OF Cons.prems(1,3)]
        by (simp add: x added_files_def modified_files_def severity_of_def)
    qed
  qed
qed (simp add: added_files_def modified_files_def)

end

section \<open>The difference of two maps of hashes\<close>

text \<open>What an event says of a file: its type, name, hashes and severity.\<close>

definition event_view :: "DriftEvent \<Rightarrow> DriftEventType \<times> string \<times> string \<times> string \<times> DriftSeverity" where
  "event_view e = (ev_EventType e, ev_Filename e, ev_PreviousHash e, ev_CurrentHash e, ev_Severity e)"

definition drift_spec :: "(string \<Rightarrow> DriftSeverity) \<Rightarrow> (string \<rightharpoonup> string) \<Rightarrow> (string \<rightharpoonup> string) \<Rightarrow>
    (DriftEventType \<times> string \<times> string \<times> string \<times> DriftSeverity) set" where
  "drift_spec sev prev cur =
     {(DriftEventTypeAdded, f, [], h, DriftSeverityInfo) | f h. prev f = None \<and> cur f = Some h} \<union>
     {(DriftEventTypeModified, f, h', h, sev f) | f h h'. prev f = Some h' \<and> cur f = Some h \<and> h \<noteq> h'} \<union>
     {(DriftEventTypeDeleted, f, h', [], DriftSeverityCritical) | f h'. prev f = Some h' \<and> cur f = None}"

lemma new_event_sel [simp]:
  "event_view (new_event mid i ts f ty h' h sev) = (ty, f, h', h, sev)"
  "ev_Filename (new_event mid i ts f ty h' h sev) = f" "ev_TagID (new_event mid i ts f ty h' h sev) = i"
  "ev_ModuleID (new_event mid i ts f ty h' h sev) = mid" "ev_DetectedAt (new_event mid i ts f ty h' h sev) = ts"
  by (simp_all add: event_view_def new_event_def)

text \<open>The three lists of events of a detection, put together.\<close>

definition diff_events :: "uuid \<Rightarrow> uuid \<Rightarrow> instant \<Rightarrow> (string \<Rightarrow> DriftSeverity) \<Rightarrow>
    (string \<times> string) list \<Rightarrow> (string \<times> string) list \<Rightarrow> DriftEvent list" where
  "diff_events mid i ts sev prev cur =
     map (\<lambda>(f, h). new_event mid i ts f DriftEventTypeAdded [] h DriftSeverityInfo) (added_files prev cur) @
     map (\<lambda>(f, h). new_event mid i ts f DriftEventTypeModified (the (map_of prev f)) h (sev f)) (modified_files prev cur) @
     deleted_events mid i ts cur prev"

lemma diff_events_view:
  assumes "distinct (map fst prev)" and "distinct (map fst cur)"
  shows "event_view ` set (diff_events mid i ts sev prev cur) = drift_spec sev (map_of prev) (map_of cur)"
proof -
  have mem: "(f, h) \<in> set cur \<longleftrightarrow> map_of cur f = Some h" "(f, h) \<in> set prev \<longleftrightarrow> map_of prev f = Some h" for f h
    using assms by (simp_all add: map_of_eq_Some_iff)
  have "event_view ` set (map (\<lambda>(f, h). new_event mid i ts f DriftEventTypeAdded [] h DriftSeverityInfo) (added_files prev cur)) =
      {(DriftEventTypeAdded, f, [], h, DriftSeverityInfo) | f h. map_of prev f = None \<and> map_of cur f = Some h}"
    by (force simp: added_files_def mem image_iff)
  moreover have "event_view ` set (map (\<lambda>(f, h). new_event mid i ts f DriftEventTypeModified (the (map_of prev f)) h (sev f)) (modified_files prev cur)) =
      {(DriftEventTypeModified, f, h', h, sev f) | f h h'. map_of prev f = Some h' \<and> map_of cur f = Some h \<and> h \<noteq> h'}"
    by (force simp: modified_files_def mem image_iff split: option.splits)
  moreover have "event_view ` set (deleted_events mid i ts cur prev) =
      {(DriftEventTypeDeleted, f, h', [], DriftSeverityCritical) | f h'. map_of prev f = Some h' \<and> map_of cur f = None}"
    by (force simp: deleted_events_def mem image_iff)
  ultimately show ?thesis by (simp only: diff_events_def drift_spec_def set_append image_Un Un_assoc)
qed

lemma distinct_append3:
  "distinct xs \<Longrightarrow> distinct ys \<Longrightarrow> distinct zs \<Longrightarrow> set xs \<subseteq> C \<Longrightarrow> set ys \<subseteq> C \<Longrightarrow> set zs \<inter> C = {} \<Longrightarrow>
   set xs \<inter> B = {} \<Longrightarrow> set ys \<subseteq> B \<Longrightarrow> distinct (xs @ ys @ zs)"
  by auto

lemma diff_events_names:
  assumes "distinct (map fst prev)" and "distinct (map fst cur)"
  shows "distinct (map ev_Filename (diff_events mid i ts sev prev cur))"
proof -
  have "map ev_Filename (diff_events mid i ts sev prev cur) =
      map fst (added_files prev cur) @ map fst (modified_files prev cur) @ map fst (filter (\<lambda>(f, _). map_of cur f = None) prev)"
    by (simp add: diff_events_def deleted_events_def case_prod_beta)
  also have "distinct \<dots>"
    by (rule distinct_append3 [where C = "fst ` set cur" and B = "fst ` set prev"])
       (use assms in \<open>force simp: added_files_def modified_files_def map_of_eq_None_iff split: option.splits dest: map_of_SomeD\<close>)+
  finally show ?thesis .
qed

context drift_reader
begin

lemma detect_first:
  assumes "GetTagInfo dr i w = (Inr (mid, tag), w)" and "GetPreviousTagID dr mid i w = (Inr [], w)"
  shows "\<exists>result. detectDrift dr mr time_Now i w = (Inr result, w) \<and> all_events result = []"
  using assms by (simp add: detectDrift_def bindE_def Let_def all_events_def)

lemma detect_ok:
  assumes "ok w" and "GetTagInfo dr i w = (Inr (mid, tag), w)" and "GetPreviousTagID dr mid i w = (Inr p, w)"
    and "p \<noteq> []" and "time_Now w = (Inr ts, w)"
  shows "\<exists>result. detectDrift dr mr time_Now i w = (Inr result, w) \<and>
    event_view ` set (all_events result) = drift_spec (severity_of mr w p i) (hashes w p) (hashes w i) \<and>
    distinct (map ev_Filename (all_events result)) \<and>
    (\<forall>e\<in>set (all_events result). ev_TagID e = i \<and> ev_ModuleID e = mid \<and> ev_DetectedAt e = ts)"
proof -
  obtain cur prev where cur: "GetFileHashesForTag dr i w = (Inr cur, w)" "map_of cur = hashes w i" "distinct (map fst cur)"
    and prev: "GetFileHashesForTag dr p w = (Inr prev, w)" "map_of prev = hashes w p" "distinct (map fst prev)"
    using hashes [OF assms(1)] by metis
  let ?sev = "severity_of mr w p i"
  have "\<exists>result. detectDrift dr mr time_Now i w = (Inr result, w) \<and> all_events result = diff_events mid i ts ?sev prev cur"
    using assms cur prev detect_changes_ok [OF assms(1), of None i None p mid ts prev cur]
    by (simp add: detectDrift_def bindE_def Let_def all_events_def diff_events_def)
  then obtain result where run: "detectDrift dr mr time_Now i w = (Inr result, w)"
    and events: "all_events result = diff_events mid i ts ?sev prev cur" by blast
  have "\<forall>e\<in>set (diff_events mid i ts ?sev prev cur). ev_TagID e = i \<and> ev_ModuleID e = mid \<and> ev_DetectedAt e = ts"
    by (auto simp: diff_events_def deleted_events_def)
  with run events diff_events_view [OF prev(3) cur(3)] diff_events_names [OF prev(3) cur(3)] cur(2) prev(2)
  show ?thesis by (intro exI [of _ result]) simp
qed

end

section \<open>The two backends\<close>

text \<open>The hashes of a tag in the table; \<open>hash\<close> reads the column, which is \<open>NULL\<close> or empty when there is none.\<close>

definition tag_hashes :: "('h \<Rightarrow> string option) \<Rightarrow> ('h, 't) world \<Rightarrow> uuid \<Rightarrow> string \<rightharpoonup> string" where
  "tag_hashes hash w i = map_of (map (\<lambda>p. (p_filename p, the (hash (p_content_hash p))))
     (filter (\<lambda>p. p_tag_id p = i \<and> hash (p_content_hash p) \<noteq> None) (protofiles (store w))))"

definition drift_ok :: "('h, 't) world \<Rightarrow> bool" where
  "drift_ok w \<longleftrightarrow> faults w = [] \<and> schema_ok (store w)"

lemma tag_filenames_distinct:
  assumes "schema_ok d"
  shows "distinct (map p_filename (filter (\<lambda>p. p_tag_id p = i \<and> P p) (protofiles d)))"
proof -
  have "distinct (map (\<lambda>p. (p_tag_id p, p_filename p)) (protofiles d))" using assms by (simp add: schema_ok_def)
  then show ?thesis by (auto simp: distinct_map inj_on_def)
qed

lemma query_default_ok:
  "faults w = [] \<Longrightarrow> attempt (query f) (\<lambda>r. case r of Inl err \<Rightarrow> if errors_Is err ErrNoRows then ret dflt else throw err | Inr x \<Rightarrow> g x) w =
    g (f (store w)) w"
  by (simp add: attempt_def)

lemma file_hashes_ok:
  assumes "drift_ok w"
  shows "\<exists>fs. pg_GetFileHashesForTag i w = (Inr fs, w) \<and> map_of fs = tag_hashes (\<lambda>h. h) w i \<and> distinct (map fst fs)"
  using assms tag_filenames_distinct [of "store w" i "\<lambda>p. p_content_hash p \<noteq> None"]
  by (simp add: drift_ok_def pg_GetFileHashesForTag_def query_default_ok file_map_props(2) tag_hashes_def map_of_file_map comp_def)

lemma lite_file_hashes_ok:
  assumes "drift_ok w"
  shows "\<exists>fs. lite_GetFileHashesForTag i w = (Inr fs, w) \<and> map_of fs = tag_hashes null_if_empty w i \<and> distinct (map fst fs)"
proof -
  have "map (\<lambda>p. (p_filename p, the (null_if_empty (p_content_hash p)))) (filter (\<lambda>p. p_tag_id p = i \<and> null_if_empty (p_content_hash p) \<noteq> None) ps) =
      map (\<lambda>p. (p_filename p, p_content_hash p)) (filter (\<lambda>p. p_tag_id p = i \<and> p_content_hash p \<noteq> []) ps)" for ps :: "string protofile_row list"
    by (induction ps) (auto simp: null_if_empty_def)
  then show ?thesis using assms tag_filenames_distinct [of "store w" i "\<lambda>p. p_content_hash p \<noteq> []"]
    by (simp add: drift_ok_def lite_GetFileHashesForTag_def query_default_ok file_map_props(2) tag_hashes_def map_of_file_map comp_def)
qed

lemma parsed_files_read: "drift_ok w \<Longrightarrow> snd (pg_GetParsedProtoFiles pl i w) = w"
proof (rule reads_healthy)
  show "reads (pg_GetParsedProtoFiles pl i)"
    unfolding pg_GetParsedProtoFiles_def parsed_file_def by (intro reads_rules)
  show "keeps (\<lambda>w. faults w = []) (pg_GetParsedProtoFiles pl i)"
    unfolding pg_GetParsedProtoFiles_def parsed_file_def by (intro hoare_rules)
qed (simp add: drift_ok_def)

interpretation pg_drift: drift_reader "NewDriftRepository px" "NewMetadataRepository mc pl" drift_ok "tag_hashes (\<lambda>h. h)"
  for px mc pl
  by unfold_locales (simp_all add: NewDriftRepository_def NewMetadataRepository_def file_hashes_ok parsed_files_read)

interpretation lite_drift: drift_reader lite_NewDriftRepository "lite_NewMetadataRepository mc pl" drift_ok "tag_hashes null_if_empty"
  for mc pl
  by unfold_locales
    (simp_all add: lite_NewDriftRepository_def lite_metadata_same NewMetadataRepository_def lite_file_hashes_ok parsed_files_read)

section \<open>Grading\<close>

lemma removed_refl [simp]: "\<not> removed xs xs"
  by (simp add: removed_def list_ex_iff)

lemma removed_trans: "removed xs zs \<Longrightarrow> removed xs ys \<or> removed ys zs"
  by (auto simp: removed_def list_ex_iff)

lemma removed_or_changed_iff:
  assumes "distinct (map fst prev)"
  shows "removed_or_changed part prev cur \<longleftrightarrow>
    (\<exists>k v. map_of prev k = Some v \<and> (case map_of cur k of None \<Rightarrow> True | Some v' \<Rightarrow> part v \<noteq> part v'))"
  using assms by (auto simp: removed_or_changed_def list_ex_iff map_of_eq_Some_iff)

lemma removed_or_changed_refl: "distinct (map fst prev) \<Longrightarrow> \<not> removed_or_changed part prev prev"
  by (auto simp: removed_or_changed_iff)

lemma unchangedD:
  assumes "\<not> removed_or_changed part prev cur" and "(k, v) \<in> set prev"
  shows "\<exists>v'. map_of cur k = Some v' \<and> part v' = part v"
  using assms by (force simp: removed_or_changed_def list_ex_iff split: option.splits)

lemma removed_or_changed_trans:
  assumes "removed_or_changed part xs zs"
  shows "removed_or_changed part xs ys \<or> removed_or_changed part ys zs"
proof (rule ccontr)
  assume "\<not> ?thesis"
  then have "\<not> removed_or_changed part xs ys" "\<not> removed_or_changed part ys zs" by simp_all
  then have "\<exists>v'. map_of zs k = Some v' \<and> part v' = part v" if "(k, v) \<in> set xs" for k v
    using unchangedD [of part xs ys, OF _ that] unchangedD [of part ys zs k] by (metis map_of_SomeD)
  with assms show False by (fastforce simp: removed_or_changed_def list_ex_iff split: option.splits)
qed

text \<open>The extracted maps have no key twice.\<close>

lemma distinct_fold:
  "(\<And>x m. distinct (map fst m) \<Longrightarrow> distinct (map fst (f x m))) \<Longrightarrow> distinct (map fst m) \<Longrightarrow> distinct (map fst (fold f xs m))"
  by (induction xs arbitrary: m) auto

lemma distinct_add_field: "distinct (map fst m) \<Longrightarrow> distinct (map fst (add_field msg number name ty m))"
  by (simp add: add_field_def distinct_map_update split: option.splits)

lemma distinct_fields_prefix:
  "distinct (map fst m) \<Longrightarrow> distinct (map fst (extractFieldsByNumberFromMessagesWithPrefix msgs prefix m))"
proof (induction msgs prefix m rule: extractFieldsByNumberFromMessagesWithPrefix.induct)
  case (3 name flds enums nested options oneofs mps messages prefix result)
  show ?case unfolding extractFieldsByNumberFromMessagesWithPrefix.simps Let_def
    by (intro "3.IH"(2) [OF refl refl refl refl refl] "3.IH"(1) [OF refl refl refl refl]
        distinct_fold distinct_add_field "3.prems")
qed simp_all

lemma distinct_extracted:
  "distinct (map fst (extractFieldsByNumberFromMessages msgs))"
  "distinct (map fst (extractRPCDetailsFromParsed svcs))"
  unfolding extractFieldsByNumberFromMessages_def extractRPCDetailsFromParsed_def
  by (intro distinct_fields_prefix distinct_fold | simp add: distinct_fold distinct_map_update split: option.splits)+

lemma breaking_refl: "\<not> hasBreakingChangesFromParsed p p"
  by (auto simp: hasBreakingChangesFromParsed_def removed_or_changed_refl distinct_extracted split: option.splits)

lemma potentially_breaking_refl: "\<not> hasPotentiallyBreakingChangesFromParsed p p"
  using distinct_extracted(1)
  by (auto simp: hasPotentiallyBreakingChangesFromParsed_def list_ex_iff split: option.splits dest!: map_of_is_SomeI)

lemma breaking_trans:
  assumes "hasBreakingChangesFromParsed p r" and "pr_ProtoBody q \<noteq> None"
  shows "hasBreakingChangesFromParsed p q \<or> hasBreakingChangesFromParsed q r"
  using assms unfolding hasBreakingChangesFromParsed_def
  by (cases "pr_ProtoBody p"; cases "pr_ProtoBody q"; cases "pr_ProtoBody r")
     (auto dest: removed_trans removed_or_changed_trans)

lemma fieldKey_inj: "fieldKey m n = fieldKey m' n' \<longleftrightarrow> m = m' \<and> n = n'"
proof
  assume eq: "fieldKey m n = fieldKey m' n'"
  have last: "takeWhile (\<lambda>c. c \<noteq> CHR ''#'') (rev (fieldKey x y)) = rev (FormatInt y)" for x y
    using FormatInt_no_hash [of y] by (simp add: fieldKey_def takeWhile_append2) (subst takeWhile_append2, auto)
  then have "rev (FormatInt n) = rev (FormatInt n')" by (metis eq)
  then have "n = n'" by (simp add: FormatInt_inject)
  with eq show "m = m' \<and> n = n'" by (simp add: fieldKey_def)
qed simp

end
