(* ===== verification/DriftProps.thy ===== *)
theory DriftProps
  imports DetectionLaws RegistryProps
begin

text \<open>
  The properties of the drift components: content hashes, the tag a tag is compared with, the
  events the detection finds, how they are graded, stored and acknowledged.
\<close>

section \<open>Content hashes\<close>

text \<open>
  C20: computing the hashes of a tag is all or nothing in both backends.  When it succeeds every
  file of the tag that had no hash has the SHA-256 hash of its content, and no other row of any
  table has changed; when it fails, at whatever statement, nothing has changed.
\<close>

theorem compute_hashes_exact:
  assumes "schema_ok (store w)" and "schema_ok (store v)"
    and "pg_ComputeAndStoreHashes i w = (r, w')" and "lite_ComputeAndStoreHashes i v = (s, v')"
  shows "store w' = (case r of Inl e \<Rightarrow> store w | Inr _ \<Rightarrow> (store w)\<lparr>protofiles :=
      fill_hashes (\<lambda>h. h = None) (\<lambda>c. Some (computeHash c)) i (protofiles (store w))\<rparr>) \<and>
    store v' = (case s of Inl e \<Rightarrow> store v | Inr _ \<Rightarrow> (store v)\<lparr>protofiles :=
      fill_hashes (\<lambda>h. h = []) lite_computeHash i (protofiles (store v))\<rparr>)"
proof -
  have "distinct (map p_id (protofiles (store w)))" "distinct (map p_id (protofiles (store v)))"
    using assms(1,2) by (simp_all add: schema_ok_def)
  from hash_tx_wp [OF this(1), of i "\<lambda>h. h = None" "\<lambda>c. Some (computeHash c)"] hash_tx_wp [OF this(2), of i "\<lambda>h. h = []" lite_computeHash]
  show ?thesis using assms(3,4) unfolding pg_ComputeAndStoreHashes_def lite_ComputeAndStoreHashes_def
    by (blast dest: wpD)
qed

text \<open>Two tags of one module, on the same day: the first at ten, the second at eleven o'clock.\<close>

definition two_tags :: "(nat \<Rightarrow> 't) \<Rightarrow> 'h \<Rightarrow> ('h, 't) db" where
  "two_tags tm h = empty_db\<lparr>modules := [\<lparr>m_id = ''a'', m_name = ''m''\<rparr>],
     tags := [\<lparr>t_id = ''aa'', t_module_id = ''a'', t_tag = ''v1'', t_updated_at = tm 10, t_is_processed = False\<rparr>,
              \<lparr>t_id = ''aaa'', t_module_id = ''a'', t_tag = ''v2'', t_updated_at = tm 11, t_is_processed = False\<rparr>],
     protofiles := [\<lparr>p_id = ''aaaa'', p_tag_id = ''aa'', p_filename = ''a.proto'', p_content = ''x'', p_content_hash = h\<rparr>,
                    \<lparr>p_id = ''aaaaa'', p_tag_id = ''aaa'', p_filename = ''a.proto'', p_content = ''y'', p_content_hash = h\<rparr>]\<rparr>"

definition pg_two :: "(string option, instant) world" where
  "pg_two = start_world\<lparr>store := two_tags (\<lambda>h. ((2024, 3, 10), (h, 0, 0), 0)) None, uuid_next := 5\<rparr>"

definition lite_two :: "(string, string) world" where
  "lite_two = start_world\<lparr>store := two_tags (\<lambda>h. datetime ((2024, 3, 10), (h, 0, 0), 0)) [], uuid_next := 5\<rparr>"

lemma two_tags_ok: "registry_ok (two_tags tm h)"
  by (simp add: two_tags_def empty_db_def registry_ok_def schema_ok_def refs_ok_def)

lemma two_tags_ids: "db_ids (two_tags tm h) \<subseteq> (\<lambda>n. replicate (Suc n) CHR ''a'') ` {..<5}"
proof -
  have "db_ids (two_tags tm h) = (\<lambda>n. replicate (Suc n) CHR ''a'') ` {0, 1, 2, 3, 4}"
    by (auto simp: db_ids_def two_tags_def empty_db_def numeral_eq_Suc)
  then show ?thesis by (simp del: replicate_Suc)
qed

lemma two_inv: "reg_inv pg_two" "reg_inv lite_two"
proof -
  have "inj (\<lambda>n. replicate (Suc n) CHR ''a'')" by (rule injI) simp
  then show "reg_inv pg_two" "reg_inv lite_two"
    by (simp_all add: reg_inv_def uuids_ok_def pg_two_def lite_two_def start_world_def two_tags_ok two_tags_ids del: replicate_Suc)
qed

lemma two_schema: "schema_ok (store pg_two)" "schema_ok (store lite_two)"
  using two_inv by (simp_all add: reg_inv_def registry_ok_def)

theorem compute_hashes_exact_witness:
  "protofiles (store (snd (pg_ComputeAndStoreHashes ''aa'' pg_two))) =
     fill_hashes (\<lambda>h. h = None) (\<lambda>c. Some (computeHash c)) ''aa'' (protofiles (store pg_two))"
proof -
  obtain r w' s v' where runs: "pg_ComputeAndStoreHashes ''aa'' pg_two = (r, w')" "lite_ComputeAndStoreHashes ''aa'' lite_two = (s, v')"
    by (metis surj_pair)
  have "wp (pg_ComputeAndStoreHashes ''aa'') (\<lambda>r w. \<exists>x. r = Inr x) pg_two"
    by (simp add: pg_ComputeAndStoreHashes_def wp_simps pg_two_def start_world_def two_tags_def empty_db_def called_def faulty_def set_hash_def)
  with runs(1) have "\<exists>x. r = Inr x" by (simp add: wp_def)
  with compute_hashes_exact [OF two_schema runs] runs show ?thesis by auto
qed

section \<open>Detection\<close>

lemma inv_tag_id: "reg_inv w \<Longrightarrow> t \<in> set (tags (store w)) \<Longrightarrow> t_id t \<noteq> []"
  unfolding reg_inv_def uuids_ok_def db_ids_def by auto

lemma tag_info_ok:
  assumes "reg_inv w" and "faults w = []" and "c \<in> set (tags (store w))"
  shows "pg_GetTagInfo (t_id c) w = (Inr (t_module_id c, t_tag c), w)"
proof -
  have "distinct (map t_id (tags (store w)))" using assms(1) by (simp add: reg_inv_def registry_ok_def schema_ok_def)
  from filter_eq_singleton [OF this assms(3) refl] show ?thesis using assms(2) by (simp add: pg_GetTagInfo_def queryRow_ok)
qed

text \<open>The detection of drift of a tag, with what its events say of the tag.\<close>

lemma pg_detect:
  assumes "reg_inv w" and "faults w = []" and "c \<in> set (tags (store w))"
  shows "\<exists>result. detectDrift (NewDriftRepository px) (NewMetadataRepository mc pl) now (t_id c) w = (Inr result, w) \<and>
    (\<forall>e\<in>set (all_events result). ev_TagID e = t_id c \<and> ev_ModuleID e = t_module_id c) \<and>
    (let earlier = {t \<in> set (tags (store w)). t_module_id t = t_module_id c \<and> t_updated_at t < t_updated_at c} in
     if earlier = {} then all_events result = []
     else \<exists>p\<in>earlier. (\<forall>t\<in>earlier. t_updated_at t \<le> t_updated_at p) \<and>
       event_view ` set (all_events result) = drift_spec (severity_of (NewMetadataRepository mc pl) w (t_id p) (t_id c))
         (tag_hashes (\<lambda>h. h) w (t_id p)) (tag_hashes (\<lambda>h. h) w (t_id c)) \<and>
       distinct (map ev_Filename (all_events result)))"
proof -
  let ?dr = "NewDriftRepository px" and ?mr = "NewMetadataRepository mc pl"
  let ?P = "\<lambda>t. t_module_id t = t_module_id c \<and> t_id t \<noteq> t_id c \<and> t_updated_at t < t_updated_at c"
  let ?E = "{t \<in> set (tags (store w)). t_module_id t = t_module_id c \<and> t_updated_at t < t_updated_at c}"
  have dist: "distinct (map t_id (tags (store w)))" and ok: "drift_ok w"
    using assms(1,2) by (simp_all add: reg_inv_def registry_ok_def schema_ok_def drift_ok_def)
  then have E: "?P t \<longleftrightarrow> t \<in> ?E" if "t \<in> set (tags (store w))" for t
    using that assms(3) by (auto dest: distinct_map_inj_on)
  obtain i where prev: "pg_GetPreviousTagID (t_module_id c) (t_id c) w = (Inr i, w)" and latest: "latest_where ?P (store w) i"
    using pg_previous_latest [OF assms(2) dist assms(3)] by blast
  have info: "GetTagInfo ?dr (t_id c) w = (Inr (t_module_id c, t_tag c), w)"
    and prev': "GetPreviousTagID ?dr (t_module_id c) (t_id c) w = (Inr i, w)"
    using tag_info_ok [OF assms] prev by (simp_all add: NewDriftRepository_def)
  show ?thesis
  proof (cases "?E = {}")
    case True
    then have "i = []" using latest E by (auto simp: latest_where_def)
    with pg_drift.detect_first [where px = px and mc = mc and pl = pl, OF info, of now] prev' True show ?thesis by auto
  next
    case False
    then obtain p where p: "p \<in> set (tags (store w))" "t_id p = i" "?P p" "\<forall>t\<in>set (tags (store w)). ?P t \<longrightarrow> t_updated_at t \<le> t_updated_at p"
      using latest E unfolding latest_where_def by (auto split: if_splits)
    have "i \<noteq> []" using inv_tag_id [OF assms(1) p(1)] p(2) by simp
    from pg_drift.detect_ok [where px = px and mc = mc and pl = pl, OF ok info prev' this, of now] p E
    have "\<exists>result. detectDrift ?dr ?mr now (t_id c) w = (Inr result, w) \<and>
        (\<forall>e\<in>set (all_events result). ev_TagID e = t_id c \<and> ev_ModuleID e = t_module_id c) \<and> event_view ` set (all_events result) = drift_spec (severity_of ?mr w (t_id p) (t_id c))
         (tag_hashes (\<lambda>h. h) w (t_id p)) (tag_hashes (\<lambda>h. h) w (t_id c)) \<and> distinct (map ev_Filename (all_events result))" by auto
    moreover have "p \<in> ?E" "\<forall>t\<in>?E. t_updated_at t \<le> t_updated_at p" using p E by auto
    ultimately show ?thesis using False unfolding Let_def by (simp only: if_False) blast
  qed
qed

text \<open>
  C22: with a database that answers, the detection of drift of a tag succeeds (PostgreSQL).  When the
  module has no earlier tag there are no events.  Otherwise the tag is compared with the latest of
  the earlier tags, and the events are exactly the files that were added, modified or deleted between
  the two, one per file, with their hashes; an added file is graded info, a deleted one critical, a
  modified one by what changed in it.
\<close>

theorem pg_detect_drift:
  assumes "reg_inv w" and "faults w = []" and "c \<in> set (tags (store w))"
  shows "\<exists>result. detectDrift (NewDriftRepository px) (NewMetadataRepository mc pl) now (t_id c) w = (Inr result, w) \<and>
    (let earlier = {t \<in> set (tags (store w)). t_module_id t = t_module_id c \<and> t_updated_at t < t_updated_at c} in
     if earlier = {} then all_events result = []
     else \<exists>p\<in>earlier. (\<forall>t\<in>earlier. t_updated_at t \<le> t_updated_at p) \<and>
       event_view ` set (all_events result) = drift_spec (severity_of (NewMetadataRepository mc pl) w (t_id p) (t_id c))
         (tag_hashes (\<lambda>h. h) w (t_id p)) (tag_hashes (\<lambda>h. h) w (t_id c)) \<and>
       distinct (map ev_Filename (all_events result)))"
  using pg_detect [OF assms, of px mc pl] by (elim exE conjE) (rule exI, rule conjI)

definition demo_px :: pgx_lib where
  "demo_px = \<lparr>pgx_uuid = Some\<rparr>"

definition demo_mc :: meta_codec where
  "demo_mc = \<lparr>json_marshal_meta = \<lambda>_. Inr [], json_unmarshal_meta = \<lambda>_. Inl ErrDecode\<rparr>"

definition demo_pl :: "unit proto_lib" where
  "demo_pl = \<lparr>parser_Parse = \<lambda>_. Inr (), InterpretProto = \<lambda>_. Inr \<lparr>pr_ProtoBody = None\<rparr>, json_marshal_proto = \<lambda>_. Inr [],
     json_unmarshal_proto = \<lambda>_. Inr None\<rparr>"

theorem pg_detect_drift_witness:
  "\<exists>result. detectDrift (NewDriftRepository demo_px) (NewMetadataRepository demo_mc demo_pl) now ''aaa'' pg_two = (Inr result, pg_two) \<and>
     distinct (map ev_Filename (all_events result))"
proof -
  let ?c = "\<lparr>t_id = ''aaa'', t_module_id = ''a'', t_tag = ''v2'', t_updated_at = ((2024, 3, 10), (11, 0, 0), 0), t_is_processed = False\<rparr> :: instant tag_row"
  have "faults pg_two = []" "?c \<in> set (tags (store pg_two))" by (simp_all add: pg_two_def start_world_def two_tags_def)
  from pg_detect_drift [OF two_inv(1) this, of demo_px demo_mc demo_pl] show ?thesis
    by (auto simp: Let_def split: if_splits)
qed

text \<open>
  C23: in SQLite the tag a tag is compared with need not be an earlier one.  The time of the current
  tag is written with the letter T where the stored times have a blank, so every other tag of the
  same day sorts below it: the comparison is with the latest of all other tags of the module up to
  the end of that day.
\<close>

theorem lite_previous_tag_same_day:
  assumes "reg_inv w" and "faults w = []" and "c \<in> set (tags (store w))"
    and "\<forall>t\<in>set (tags (store w)). valid_instant (at t) \<and> t_updated_at t = datetime (at t)"
  shows "\<exists>i. lite_GetPreviousTagID (t_module_id c) (t_id c) w = (Inr i, w) \<and>
    (let others = {t \<in> set (tags (store w)). t_module_id t = t_module_id c \<and> t \<noteq> c \<and> fst (at t) \<le> fst (at c)} in
     if others = {} then i = []
     else \<exists>p\<in>others. t_id p = i \<and> (\<forall>t\<in>others. whole_seconds (at t) \<le> whole_seconds (at p)))"
proof -
  let ?P = "\<lambda>t. t_module_id t = t_module_id c \<and> t_id t \<noteq> t_id c \<and> t_updated_at t < fmtTime (parseTime (t_updated_at c))"
  let ?O = "{t \<in> set (tags (store w)). t_module_id t = t_module_id c \<and> t \<noteq> c \<and> fst (at t) \<le> fst (at c)}"
  have dist: "distinct (map t_id (tags (store w)))" using assms(1) by (simp add: reg_inv_def registry_ok_def schema_ok_def)
  have "t_updated_at t < fmtTime (parseTime (t_updated_at c)) \<longleftrightarrow> fst (at t) \<le> fst (at c)" if "t \<in> set (tags (store w))" for t
    using that assms(3,4) by (simp add: parseTime_datetime datetime_less_fmtTime)
  then have O: "?P t \<longleftrightarrow> t \<in> ?O" if "t \<in> set (tags (store w))" for t
    using that assms(3) distinct_map_inj_on [OF dist] by auto
  have le: "t_updated_at t \<le> t_updated_at p \<longleftrightarrow> whole_seconds (at t) \<le> whole_seconds (at p)" if "t \<in> ?O" "p \<in> ?O" for t p
    using that assms(4) datetime_less [of "at p" "at t"] by (auto simp: not_less [symmetric])
  obtain i where i: "lite_GetPreviousTagID (t_module_id c) (t_id c) w = (Inr i, w)" "latest_where ?P (store w) i"
    using lite_previous_latest [OF assms(2) dist assms(3)] by blast
  have "if ?O = {} then i = [] else \<exists>p\<in>?O. t_id p = i \<and> (\<forall>t\<in>?O. whole_seconds (at t) \<le> whole_seconds (at p))"
  proof (cases "?O = {}")
    case True
    then show ?thesis using i(2) O by (auto simp: latest_where_def)
  next
    case False
    then obtain p where "p \<in> ?O" "t_id p = i" "\<forall>t\<in>set (tags (store w)). ?P t \<longrightarrow> t_updated_at t \<le> t_updated_at p"
      using i(2) O unfolding latest_where_def by (auto split: if_splits)
    then show ?thesis using False O le by (auto intro!: bexI [of _ p])
  qed
  with i(1) show ?thesis unfolding Let_def by blast
qed

text \<open>The tag of ten o'clock is compared with that of eleven.\<close>

theorem lite_previous_tag_same_day_witness: "lite_GetPreviousTagID ''a'' ''aa'' lite_two = (Inr ''aaa'', lite_two)"
proof -
  let ?tag = "\<lambda>i v h. \<lparr>t_id = i, t_module_id = ''a'', t_tag = v, t_updated_at = datetime ((2024, 3, 10), (h, 0, 0), 0), t_is_processed = False\<rparr> :: string tag_row"
  let ?c = "?tag ''aa'' ''v1'' 10"
  let ?at = "\<lambda>t. ((2024, 3, 10), (if t_id t = ''aa'' then 10 else 11, 0, 0), 0) :: instant"
  have tags: "tags (store lite_two) = [?c, ?tag ''aaa'' ''v2'' 11]" by (simp add: lite_two_def two_tags_def)
  then have c: "?c \<in> set (tags (store lite_two))" by simp
  have "faults lite_two = []" by (simp add: lite_two_def start_world_def)
  moreover have "\<forall>t\<in>set (tags (store lite_two)). valid_instant (?at t) \<and> t_updated_at t = datetime (?at t)"
    by (simp add: tags valid_instant_def days_in_month_def)
  ultimately obtain i where i: "lite_GetPreviousTagID ''a'' ''aa'' lite_two = (Inr i, lite_two)"
    "let others = {t \<in> set (tags (store lite_two)). t_module_id t = t_module_id ?c \<and> t \<noteq> ?c \<and> fst (?at t) \<le> fst (?at ?c)} in
     if others = {} then i = [] else \<exists>p\<in>others. t_id p = i \<and> (\<forall>t\<in>others. whole_seconds (?at t) \<le> whole_seconds (?at p))"
    using lite_previous_tag_same_day [OF two_inv(2) _ c, of ?at] by auto
  have others: "{t \<in> set (tags (store lite_two)). t_module_id t = t_module_id ?c \<and> t \<noteq> ?c \<and> fst (?at t) \<le> fst (?at ?c)} = {?tag ''aaa'' ''v2'' 11}"
    by (auto simp: tags)
  from i(2) [unfolded Let_def others] have "i = ''aaa''" by simp
  with i(1) show ?thesis by simp
qed

section \<open>Storing events\<close>

text \<open>
  C24: saving drift events is atomic and idempotent (PostgreSQL).  A save that fails changes no
  table.  After one that succeeds every event is in the table, no two rows have the same tag, file,
  type and hashes, only new rows have been appended, and saving the same events again, whatever else
  may fail, changes nothing.
\<close>

theorem pg_save_events:
  assumes "events_unique coalesce (store w)" and "pg_SaveDriftEvents es w = (r, w1)" and "pg_SaveDriftEvents es w1 = (r', w2)"
  shows "(case r of
      Inl e \<Rightarrow> store w1 = store w
    | Inr _ \<Rightarrow> stored coalesce null_if_empty True es (store w1) \<and> events_unique coalesce (store w1) \<and>
        (\<exists>new. store w1 = (store w)\<lparr>drift_events := drift_events (store w) @ new\<rparr>) \<and>
        store w2 = store w1 \<and> (faults w1 = [] \<longrightarrow> r' = Inr ()))"
proof (cases r)
  case (Inl e)
  with assms(2) show ?thesis using save_events_atomic by (simp add: save_events_eqs) blast
next
  case (Inr x)
  note run = assms(2) [unfolded Inr save_events_eqs] and again = assms(3) [unfolded save_events_eqs]
  from save_events_stores [of coalesce null_if_empty "\<lambda>t. t" True es w w1] run assms(1) Inr
    save_events_again [of coalesce null_if_empty True es w1 "\<lambda>t. t" r' w2] again
  show ?thesis by simp
qed

definition demo_event :: DriftEvent where
  "demo_event = new_event ''a'' ''aaa'' zero_time ''a.proto'' DriftEventTypeModified ''x'' ''y'' DriftSeverityInfo"

theorem pg_save_events_witness:
  "\<exists>w1 w2. pg_SaveDriftEvents [demo_event, demo_event] pg_two = (Inr (), w1) \<and>
     pg_SaveDriftEvents [demo_event, demo_event] w1 = (Inr (), w2) \<and> store w2 = store w1"
proof -
  let ?es = "[demo_event, demo_event]"
  have unique: "events_unique coalesce (store pg_two)" by (simp add: events_unique_def pg_two_def two_tags_def empty_db_def)
  have ok: "wp (pg_SaveDriftEvents ?es) (\<lambda>r w. r = Inr () \<and> faults w = []) pg_two"
    by (simp add: pg_SaveDriftEvents_def wp_simps new_row_def pg_two_def start_world_def two_tags_def empty_db_def demo_event_def
        new_event_def event_row_of_def event_type_ok_def severity_ok_def event_key_def)
  obtain r w1 r' w2 where runs: "pg_SaveDriftEvents ?es pg_two = (r, w1)" "pg_SaveDriftEvents ?es w1 = (r', w2)"
    by (metis surj_pair)
  with ok have "r = Inr ()" "faults w1 = []" by (simp_all add: wp_def)
  with pg_save_events [OF unique runs] runs show ?thesis by simp
qed

text \<open>
  C25: acknowledging an event.  With a database that answers it succeeds whatever the identifier is:
  the unacknowledged events are afterwards those of before without the event of that identifier, so
  an identifier that no event has is accepted and changes nothing, not even an error is returned.
\<close>

theorem lite_acknowledge:
  assumes "faults w = []" and "lite_GetUnacknowledgedDriftEvents w = (Inr es, w1)"
  shows "\<exists>w'. lite_AcknowledgeDriftEvent i who w = (Inr (), w') \<and>
    lite_GetUnacknowledgedDriftEvents w' = (Inr (filter (\<lambda>e. ev_ID e \<noteq> i) es), w') \<and>
    (i \<notin> de_id ` set (drift_events (store w)) \<longrightarrow> w' = w)"
proof -
  let ?open = "\<lambda>d. filter (\<lambda>x. \<not> de_acknowledged (fst x)) (joined_events d)"
  let ?view = "\<lambda>x. unacknowledged (event_of (\<lambda>s. s) parseTime x)"
  obtain d' where ack: "acknowledge (datetime (clock w)) who i (store w) = Inr ((), d')" by (simp add: acknowledge_def)
  let ?w = "w\<lparr>store := d'\<rparr>"
  have run: "lite_AcknowledgeDriftEvent i who w = (Inr (), ?w)"
    using assms(1) ack by (simp add: lite_AcknowledgeDriftEvent_def bindE_def exec_ok)
  have es: "es = map ?view (sort_desc (de_detected_at \<circ> fst) (?open (store w)))"
    using assms by (auto simp: lite_GetUnacknowledgedDriftEvents_def query_default_ok)
  have "ev_ID (?view x) \<noteq> i \<longleftrightarrow> de_id (fst x) \<noteq> i" for x
    by (simp add: unacknowledged_def event_of_def split: prod.splits)
  then have "map ?view (filter (\<lambda>x. de_id (fst x) \<noteq> i) xs) = filter (\<lambda>e. ev_ID e \<noteq> i) (map ?view xs)" for xs
    by (intro map_filter_same) simp
  then have "map ?view (sort_desc (de_detected_at \<circ> fst) (?open d')) = filter (\<lambda>e. ev_ID e \<noteq> i) es"
    by (simp only: es acknowledged_events [OF ack] sort_desc_filter)
  then have "lite_GetUnacknowledgedDriftEvents ?w = (Inr (filter (\<lambda>e. ev_ID e \<noteq> i) es), ?w)"
    using assms(1) by (simp add: lite_GetUnacknowledgedDriftEvents_def query_default_ok)
  moreover have "?w = w" if "i \<notin> de_id ` set (drift_events (store w))"
  proof -
    have "map (\<lambda>e. if de_id e = i then e\<lparr>de_acknowledged := True, de_acknowledged_at := Some ts, de_acknowledged_by := Some who\<rparr> else e)
        (drift_events (store w)) = drift_events (store w)" for ts
      using that by (intro map_idI) auto
    with ack show ?thesis by (simp add: acknowledge_def)
  qed
  ultimately show ?thesis using run by blast
qed

theorem lite_acknowledge_witness: "lite_AcknowledgeDriftEvent ''no such event'' ''ann'' lite_two = (Inr (), lite_two)"
proof -
  have "faults lite_two = []" "drift_events (store lite_two) = []" by (simp_all add: lite_two_def start_world_def two_tags_def empty_db_def)
  then show ?thesis using lite_acknowledge [of lite_two "[]" lite_two "''no such event''" "''ann''"]
    by (simp add: lite_GetUnacknowledgedDriftEvents_def query_default_ok joined_events_alt sort_desc_def)
qed

section \<open>Grading\<close>


definition body_with :: "pMessage list \<Rightarrow> Proto" where
  "body_with msgs = \<lparr>pr_ProtoBody = Some \<lparr>pb_Packages = [], pb_Imports = [], pb_Options = [], pb_Messages = msgs, pb_Enums = [], pb_Services = []\<rparr>\<rparr>"


end
