(* ===== verification/MetadataProps.thy ===== *)
theory MetadataProps
  imports Daemons RegistryProps
begin

text \<open>
  The properties of the parsed metadata: what a save of the parsed files of a tag does, what the
  metadata of a tag holds, and what \<open>ToMetadata\<close> returns.
\<close>

section \<open>Saving the parsed files of a tag\<close>

text \<open>The loop changes the parsed files only.\<close>

lemma save_files_wp:
  fixes w :: "('a, 'b) world"
  assumes "\<And>e v. Q (Inl e) v"
    and "\<And>v :: ('a, 'b) world. store v = (store w)\<lparr>proto_parsed_data := proto_parsed_data (store v)\<rparr> \<Longrightarrow> (faults w = [] \<Longrightarrow> faults v = []) \<Longrightarrow> Q (Inr ()) v"
  shows "wp (forE files (save_parsed_file i)) Q w"
proof -
  let ?J = "\<lambda>pre v. store v = (store w)\<lparr>proto_parsed_data := proto_parsed_data (store v)\<rparr> \<and> (faults w = [] \<longrightarrow> faults v = [])"
  show ?thesis
  proof (rule wp_forE [where J = ?J])
    fix pre x and v :: "('a, 'b) world" assume J: "?J pre v"
    have upd: "d = e\<lparr>proto_parsed_data := proto_parsed_data d\<rparr> \<Longrightarrow> d\<lparr>proto_parsed_data := ps\<rparr> = e\<lparr>proto_parsed_data := ps\<rparr>"
      for d e :: "('a, 'b) db" and ps by (metis db.update_convs(6) db.surjective)
    show "wp (save_parsed_file i x) (\<lambda>r w'. case r of Inl e \<Rightarrow> Q (Inl e) w' | Inr _ \<Rightarrow> ?J (pre @ [x]) w') v"
      using assms(1) J upd [of "store v" "store w"] unfolding save_parsed_file_def wp_simps upsert_parsed_def
      by (auto split: if_splits)
  qed (use assms(2) in auto)
qed

lemma upsert_meta_rows:
  assumes "upsert_meta r d = Inr (x, d')"
  shows "\<exists>ms. d' = d\<lparr>tag_meta := ms\<rparr> \<and> (\<exists>rest. map tm_meta (filter (\<lambda>x. tm_tag_id x = tm_tag_id r) ms) = tm_meta r # rest)"
proof (cases "filter (\<lambda>x. tm_tag_id x = tm_tag_id r) (tag_meta d)")
  case Nil
  then have "\<not> clash tm_tag_id r (tag_meta d)" by (auto simp: filter_empty_conv)
  with assms Nil have "d' = d\<lparr>tag_meta := tag_meta d @ [r]\<rparr>" by (auto simp: upsert_meta_def split: if_splits)
  with Nil show ?thesis by auto
next
  case (Cons y ys)
  let ?g = "\<lambda>x. if tm_tag_id x = tm_tag_id r then x\<lparr>tm_meta := tm_meta r\<rparr> else x"
  have y: "y \<in> set (tag_meta d)" "tm_tag_id y = tm_tag_id r" using Cons by (auto simp: filter_eq_Cons_iff)
  then have "clash tm_tag_id r (tag_meta d)" by auto
  then have "d' = d\<lparr>tag_meta := map ?g (tag_meta d)\<rparr>" using assms by (simp add: upsert_meta_def del: clash_iff)
  moreover have "filter (\<lambda>x. tm_tag_id x = tm_tag_id r) (map ?g (tag_meta d)) = map ?g (filter (\<lambda>x. tm_tag_id x = tm_tag_id r) (tag_meta d))"
    by (simp add: filter_map comp_def if_distrib cong: if_cong)
  ultimately show ?thesis using Cons y by auto
qed

text \<open>What a save leaves: on an error all tables as they were, else the metadata and the mark of the tag.\<close>

definition saved :: "meta_codec \<Rightarrow> uuid \<Rightarrow> ParsedProtoFile list \<Rightarrow> ('h, 't) world \<Rightarrow> error + unit \<Rightarrow> ('h, 't) world \<Rightarrow> bool" where
  "saved mc i files w r w' \<longleftrightarrow> (case r of
     Inl e \<Rightarrow> store w' = store w
   | Inr _ \<Rightarrow> (\<exists>meta j rest. RetrieveMeta files = Some meta \<and> json_marshal_meta mc meta = Inr j \<and>
       store w' = (store w)\<lparr>proto_parsed_data := proto_parsed_data (store w'), tag_meta := tag_meta (store w'),
         tags := map (\<lambda>t. if t_id t = i then t\<lparr>t_is_processed := True\<rparr> else t) (tags (store w))\<rparr> \<and>
       map tm_meta (filter (\<lambda>x. tm_tag_id x = i) (tag_meta (store w'))) = j # rest \<and> (faults w = [] \<longrightarrow> faults w' = [])))"

lemma save_parsed_wp: "wp (pg_SaveParsedProtoFiles mc i files) (saved mc i files w) w"
proof (cases "RetrieveMeta files")
  case None
  then show ?thesis by (simp add: pg_SaveParsedProtoFiles_def wp_simps option_or_panic_def saved_def)
next
  case (Some meta)
  have mark: "d = e\<lparr>proto_parsed_data := proto_parsed_data d\<rparr> \<Longrightarrow> d\<lparr>tag_meta := ms, tags := f (tags d)\<rparr> =
      e\<lparr>proto_parsed_data := proto_parsed_data d, tag_meta := ms, tags := f (tags e)\<rparr>" for d e :: "('a, 'b) db" and ms f
    by (cases d; cases e) simp
  show ?thesis unfolding pg_SaveParsedProtoFiles_def option_or_panic_def Some option.case wp_bindE wp_liftR wp_inTx sum.case
  proof (simp, intro conjI impI, goal_cases)
    case 2
    show ?case
    proof (rule save_files_wp, goal_cases)
      case (2 v)
      from mark [OF 2(1)] show ?case using 2(2)
        by (auto simp: wp_simps saved_def Some set_processed_def split: sum.splits prod.splits dest!: upsert_meta_rows)
    qed (simp add: saved_def)
  qed (simp add: saved_def)
qed


text \<open>A module with one tag and one parsed file, and the codec of its metadata.\<close>

definition empty_meta :: TagMeta where
  "empty_meta = \<lparr>tgm_Packages = [''p''], tgm_Imports = [], tgm_RefPackages = [],
     tgm_FilesMeta = [\<lparr>fm_Filename = ''a.proto'', fm_Packages = [''p''], fm_Imports = [], fm_RefPackages = []\<rparr>]\<rparr>"

definition one_codec :: meta_codec where
  "one_codec = \<lparr>json_marshal_meta = \<lambda>m. if m = empty_meta then Inr ''meta'' else Inl ErrDecode,
     json_unmarshal_meta = \<lambda>s. if s = ''meta'' then Inr empty_meta else Inl ErrDecode\<rparr>"

definition parsed_file_p :: ParsedProtoFile where
  "parsed_file_p = \<lparr>ppf_Filename = ''a.proto'', ppf_Proto = Some \<lparr>pr_ProtoBody = Some \<lparr>pb_Packages = [''p''], pb_Imports = [],
     pb_Options = [], pb_Messages = [], pb_Enums = [], pb_Services = []\<rparr>\<rparr>, ppf_ProtoJson = ''json''\<rparr>"

definition pushed_pg :: "(string option, instant) world" where
  "pushed_pg = snd (pg_PushModule ''m'' ''v1'' [f1] demo_pg)"


section \<open>What the metadata hold\<close>



text \<open>All numbers of a message: of its fields, of its nested messages, of its enums.\<close>

fun message_tags :: "v1_Message \<Rightarrow> int list" where
  "message_tags (V1Message name flds nested enums) =
     map vf_Tag flds @ concat (map message_tags nested) @ concat (map (\<lambda>e. map vev_Tag (ven_Values e)) enums)"

definition is_int32 :: "int \<Rightarrow> bool" where
  "is_int32 n \<longleftrightarrow> - (2 ^ 31) \<le> n \<and> n < 2 ^ 31"

lemma is_int32_tags [simp]: "is_int32 (tag_number s)" "is_int32 0"
  using int32_range by (simp_all add: is_int32_def tag_number_def)

lemma enum_tags_range:
  "retrieveEnums enums = Some es \<Longrightarrow> \<forall>e\<in>set es. \<forall>v\<in>set (ven_Values e). is_int32 (vev_Tag v)"
  by (induction enums arbitrary: es) (auto simp: retrieveEnumValues_def split: option.splits)

lemma message_tags_range: "retrieveMessages msgs = Some ms \<Longrightarrow> \<forall>m\<in>set ms. \<forall>n\<in>set (message_tags m). is_int32 n"
proof (induction msgs arbitrary: ms rule: retrieveMessages.induct)
  case (3 name flds enums nested options oneofs mps messages)
  from "3.prems" obtain nm ne rest where parts: "retrieveMessages nested = Some nm" "retrieveEnums enums = Some ne"
    "retrieveMessages messages = Some rest"
    "ms = V1Message name (retrieveFields flds @ retrieveOneOfFields oneofs @ retrieveMapFields mps) nm ne # rest"
    by (auto split: option.splits)
  have "\<forall>f\<in>set (retrieveFields flds @ retrieveOneOfFields oneofs @ retrieveMapFields mps). is_int32 (vf_Tag f)"
    by (auto simp: retrieveFields_def retrieveOneOfFields_def retrieveMapFields_def empty_field_def)
  with "3.IH"(1) [OF parts(1)] "3.IH"(2) [OF parts(1,2,3)] enum_tags_range [OF parts(2)] show ?case
    unfolding parts(4) by auto
qed simp_all

definition has_package :: "ParsedProtoFile \<Rightarrow> string \<Rightarrow> bool" where
  "has_package f name \<longleftrightarrow> (\<exists>proto body. ppf_Proto f = Some proto \<and> pr_ProtoBody proto = Some body \<and> name \<in> set (pb_Packages body))"

lemma file_entries_Some:
  assumes "file_entries f = Some es"
  shows "(name, v) \<in> set es \<Longrightarrow> vp_Filename v = ppf_Filename f \<and> has_package f name \<and>
      (\<forall>m\<in>set (vp_Messages v). \<forall>n\<in>set (message_tags m). is_int32 n)"
    and "has_package f name \<Longrightarrow> \<exists>v. (name, v) \<in> set es \<and> vp_Filename v = ppf_Filename f"
  using assms message_tags_range
  by (auto simp: file_entries_def has_package_def image_iff split: option.splits if_splits)

text \<open>
  C29: the metadata served to clients.  The packages are sorted and without duplicates, a file is
  listed under a package exactly when it has that package statement, and every number of a field or
  of an enum value fits in 32 bits, as the API wants it, whatever digits the file has.
\<close>

theorem to_metadata_exact:
  assumes "ToMetadata files = Some pkgs"
  shows "sorted (map vpk_Name pkgs) \<and> distinct (map vpk_Name pkgs) \<and>
    (\<forall>name filename. (\<exists>p\<in>set pkgs. vpk_Name p = name \<and> filename \<in> vp_Filename ` set (vpk_ProtoFiles p)) \<longleftrightarrow>
      (\<exists>f\<in>set files. ppf_Filename f = filename \<and> has_package f name)) \<and>
    (\<forall>p\<in>set pkgs. \<forall>f\<in>set (vpk_ProtoFiles p). \<forall>m\<in>set (vp_Messages f). \<forall>n\<in>set (message_tags m). is_int32 n)"
proof -
  let ?entries = "concat (map (\<lambda>f. the (file_entries f)) files)"
  from assms have all: "\<forall>f\<in>set files. file_entries f \<noteq> None" and pkgs: "pkgs = map (\<lambda>name. \<lparr>vpk_Name = name,
      vpk_ProtoFiles = map snd (filter (\<lambda>e. fst e = name) ?entries)\<rparr>) (sorted_keys (map fst ?entries))"
    by (auto simp: ToMetadata_def Let_def list_all_iff split: if_splits)
  have entry: "vp_Filename v = ppf_Filename f \<and> has_package f name \<and> (\<forall>m\<in>set (vp_Messages v). \<forall>n\<in>set (message_tags m). is_int32 n)"
    if "f \<in> set files" "(name, v) \<in> set (the (file_entries f))" for f name v
    using that all file_entries_Some(1) [of f "the (file_entries f)"] by auto
  have listed: "\<exists>v. (name, v) \<in> set (the (file_entries f)) \<and> vp_Filename v = ppf_Filename f"
    if "f \<in> set files" "has_package f name" for f name
    using that all file_entries_Some(2) [of f "the (file_entries f)"] by auto
  have names: "map vpk_Name pkgs = sorted_keys (map fst ?entries)" unfolding pkgs by (simp add: comp_def)
  have in_entries: "(\<exists>p\<in>set pkgs. vpk_Name p = name \<and> filename \<in> vp_Filename ` set (vpk_ProtoFiles p)) \<longleftrightarrow>
      (\<exists>f\<in>set files. \<exists>v. (name, v) \<in> set (the (file_entries f)) \<and> vp_Filename v = filename)" for name filename
    unfolding pkgs by (force simp: image_iff)
  have lists: "(\<exists>p\<in>set pkgs. vpk_Name p = name \<and> filename \<in> vp_Filename ` set (vpk_ProtoFiles p)) \<longleftrightarrow>
      (\<exists>f\<in>set files. ppf_Filename f = filename \<and> has_package f name)" for name filename
    unfolding in_entries using entry listed by (metis (no_types, lifting))
  have "\<forall>p\<in>set pkgs. \<forall>v\<in>set (vpk_ProtoFiles p). \<exists>f\<in>set files. (vpk_Name p, v) \<in> set (the (file_entries f))"
    unfolding pkgs by auto
  then have "\<forall>p\<in>set pkgs. \<forall>f\<in>set (vpk_ProtoFiles p). \<forall>m\<in>set (vp_Messages f). \<forall>n\<in>set (message_tags m). is_int32 n"
    using entry by blast
  with lists show ?thesis unfolding names by simp
qed

theorem to_metadata_exact_witness:
  "\<exists>pkgs. ToMetadata [parsed_file_p] = Some pkgs \<and> map vpk_Name pkgs = [''p''] \<and> sorted (map vpk_Name pkgs)"
proof -
  have "map_option (map vpk_Name) (ToMetadata [parsed_file_p]) = Some [''p'']" by code_simp
  then obtain pkgs where run: "ToMetadata [parsed_file_p] = Some pkgs" "map vpk_Name pkgs = [''p'']" by auto
  with to_metadata_exact [OF run(1)] show ?thesis by simp
qed

end
