(* ===== verification/DaemonProps.thy ===== *)
theory DaemonProps
  imports DriftProps MetadataProps
begin

text \<open>
  The properties of the parsing daemon: what a run that succeeds has done, and what one that fails
  has not.
\<close>

section \<open>The second half of a run never fails\<close>

lemma hash_tags_Inr: "fst (hash_tags dr ids w) = Inr ()"
  by (induction ids arbitrary: w) (simp_all add: attempt_def split: prod.splits)

lemma drift_tags_Inr: "fst (drift_tags dr mr time_Now ids w) = Inr ()"
  by (induction ids arbitrary: w) (auto simp: attempt_def split: prod.splits sum.splits)

lemma runDriftDetection_Inr: "fst (runDriftDetection dr mr time_Now ids w) = Inr ()"
proof -
  obtain r w1 where r: "GetTagsWithoutHashes dr w = (r, w1)" by (cases "GetTagsWithoutHashes dr w")
  have "\<exists>w2. hash_tags dr ids' w1 = (Inr (), w2)" for ids' using hash_tags_Inr [of dr ids' w1] by (metis prod.collapse)
  then obtain next_w where h: "hash_tags dr ids' w1 = (Inr (), next_w ids')" for ids' by metis
  show ?thesis using drift_tags_Inr r h by (cases r) (simp_all add: runDriftDetection_def bindE_def attempt_def)
qed

section \<open>The first half\<close>

lemma keeps_saved:
  assumes "\<And>d ps ms ts. I d \<Longrightarrow> I (d\<lparr>proto_parsed_data := ps, tag_meta := ms, tags := ts\<rparr>)"
  shows "keeps (\<lambda>w. I (store w)) (pg_SaveParsedProtoFiles mc i files)"
proof (rule hoareI)
  fix w :: "('a, 'b) world" assume I: "I (store w)"
  let ?r = "pg_SaveParsedProtoFiles mc i files w"
  have "saved mc i files w (fst ?r) (snd ?r)" using save_parsed_wp [of mc i files w] by (simp add: wp_def)
  then consider "store (snd ?r) = store w" | ps ms ts where "store (snd ?r) = (store w)\<lparr>proto_parsed_data := ps, tag_meta := ms, tags := ts\<rparr>"
    unfolding saved_def by (auto split: sum.splits)
  then show "I (store (snd ?r))" by cases (simp_all add: I assms)
qed

lemma keeps_parse_tags:
  assumes "\<And>d ps ms ts. I d \<Longrightarrow> I (d\<lparr>proto_parsed_data := ps, tag_meta := ms, tags := ts\<rparr>)"
  shows "keeps (\<lambda>w. I (store w)) (parse_tags (NewMetadataRepository mc pl) pl' ids done)"
proof (induction ids arbitrary: "done")
  case (Cons i ids)
  have read: "keeps (\<lambda>w. I (store w)) (GetProtoFilesForTagId (NewMetadataRepository mc pl) i)"
    by (simp add: NewMetadataRepository_def pg_GetProtoFilesForTagId_def) (intro hoare_rules)
  have save: "keeps (\<lambda>w. I (store w)) (SaveParsedProtoFiles (NewMetadataRepository mc pl) i files)" for files
    using keeps_saved [of I, OF assms] by (simp add: NewMetadataRepository_def)
  show ?case unfolding parse_tags.simps by (intro hoare_rules Cons.IH read save)
qed (simp add: keeps_ret)

text \<open>
  C30: a run of the parsing daemon that fails has looked for no drift.  It stores no events and
  computes no hashes, also for the tags it had parsed before the failure; these are marked as
  processed all the same, so no later run looks at them again.
\<close>

theorem parsing_error_no_drift:
  assumes "protoParsing_Run (NewMetadataRepository mc pl) dr pl' time_Now w = (Inl e, w')"
  shows "drift_events (store w') = drift_events (store w) \<and> protofiles (store w') = protofiles (store w)"
proof -
  let ?mr = "NewMetadataRepository mc pl"
  let ?I = "\<lambda>d. drift_events d = drift_events (store w) \<and> protofiles d = protofiles (store w)"
  have reads: "keeps (\<lambda>w. ?I (store w)) (GetUnprocessedTagIds ?mr)"
    by (simp add: NewMetadataRepository_def pg_GetUnprocessedTagIds_def) (intro hoare_rules)
  have parse: "keeps (\<lambda>w. ?I (store w)) (parse_tags ?mr pl' ids [])" for ids
    by (rule keeps_parse_tags) simp
  from assms have "\<exists>ids w1. GetUnprocessedTagIds ?mr w = (Inl e, w') \<or>
      GetUnprocessedTagIds ?mr w = (Inr ids, w1) \<and> parse_tags ?mr pl' ids [] w1 = (Inl e, w')"
    using runDriftDetection_Inr [of dr ?mr time_Now]
    by (auto simp: protoParsing_Run_def bindE_def split: prod.splits sum.splits if_splits) (metis fst_conv sum.distinct(1))
  then show ?thesis using keepsD [OF reads, of w] keepsD [OF parse] by (metis (no_types, lifting) snd_conv)
qed

text \<open>A parser that accepts some files; the first of two tags has the file \<open>x\<close>, the second \<open>y\<close>.\<close>

definition only_pl :: "string list \<Rightarrow> unit proto_lib" where
  "only_pl good = \<lparr>parser_Parse = \<lambda>s. if s \<in> set good then Inr () else Inl ErrParse,
     InterpretProto = \<lambda>_. Inr \<lparr>pr_ProtoBody = Some \<lparr>pb_Packages = [], pb_Imports = [], pb_Options = [], pb_Messages = [], pb_Enums = [], pb_Services = []\<rparr>\<rparr>,
     json_marshal_proto = \<lambda>_. Inr [], json_unmarshal_proto = \<lambda>_. Inr None\<rparr>"

theorem parsing_error_no_drift_witness:
  "\<exists>e w'. protoParsing_Run (NewMetadataRepository demo_mc (only_pl [''x''])) (NewDriftRepository demo_px) (only_pl [''x'']) now pg_two = (Inl e, w') \<and>
     drift_events (store w') = [] \<and> map t_is_processed (tags (store w')) = [True, False]"
proof -
  let ?run = "protoParsing_Run (NewMetadataRepository demo_mc (only_pl [''x''])) (NewDriftRepository demo_px) (only_pl [''x'']) now pg_two"
  have "isl (fst ?run)" "map t_is_processed (tags (store (snd ?run))) = [True, False]" "drift_events (store pg_two) = []" by code_simp+
  then obtain e w' where run: "?run = (Inl e, w')" "map t_is_processed (tags (store w')) = [True, False]"
    by (metis isl_def prod.collapse)
  with parsing_error_no_drift [OF run(1)] \<open>drift_events (store pg_two) = []\<close> show ?thesis by simp
qed

section \<open>A run that succeeds\<close>

lemma parse_tags_done:
  fixes w :: "('h, 't) world"
  assumes "faults w = []" and "parse_tags (NewMetadataRepository mc pl) pl' ids done w = (Inr r, w')"
  shows "faults w' = [] \<and> r = done @ ids \<and>
    tags (store w') = map (\<lambda>t. if t_id t \<in> set ids then t\<lparr>t_is_processed := True\<rparr> else t) (tags (store w))"
  using assms
proof (induction ids arbitrary: "done" w)
  case (Cons i ids)
  let ?fs = "map (\<lambda>p. \<lparr>pf_Filename = p_filename p, pf_Content = p_content p\<rparr>) (filter (\<lambda>p. p_tag_id p = i) (protofiles (store w)))"
  have "GetProtoFilesForTagId (NewMetadataRepository mc pl) i w = (Inr ?fs, w)"
    using Cons.prems(1) by (simp add: NewMetadataRepository_def pg_GetProtoFilesForTagId_def attempt_def)
  then obtain ps w1 where save: "pg_SaveParsedProtoFiles mc i ps w = (Inr (), w1)"
    and rest: "parse_tags (NewMetadataRepository mc pl) pl' ids (done @ [i]) w1 = (Inr r, w')"
    using Cons.prems(2) by (auto simp: attempt_def bindE_Inr_iff NewMetadataRepository_def split: sum.splits)
  from wpD [OF save_parsed_wp save] Cons.prems(1) have "faults w1 = []" and eq: "store w1 = (store w)\<lparr>
      proto_parsed_data := proto_parsed_data (store w1), tag_meta := tag_meta (store w1),
      tags := map (\<lambda>t. if t_id t = i then t\<lparr>t_is_processed := True\<rparr> else t) (tags (store w))\<rparr>"
    by (auto simp: saved_def)
  moreover have "tags (store w1) = map (\<lambda>t. if t_id t = i then t\<lparr>t_is_processed := True\<rparr> else t) (tags (store w))"
    by (subst eq) simp
  ultimately show ?case using Cons.IH [OF _ rest] by (auto simp: comp_def)
qed simp

lemma keeps_detect_changes:
  assumes "\<And>i. keeps I (GetParsedProtoFiles mr i)"
  shows "keeps I (detect_changes mr mid i p ts prev cur cp pp result)"
proof -
  have load: "keeps I (load_parsed mr j cached)" for j cached
    unfolding load_parsed_def getParsedProtoMap_def by (intro hoare_rules assms)
  show ?thesis
  proof (induction cur arbitrary: cp pp result)
    case (Cons x cur)
    then show ?case by (cases x) (simp only: detect_changes.simps, intro hoare_rules load)
  qed (simp add: keeps_ret)
qed

lemma keeps_runDriftDetection:
  assumes "keeps I (GetTagsWithoutHashes dr)" "\<And>i. keeps I (ComputeAndStoreHashes dr i)" "\<And>i. keeps I (GetTagInfo dr i)"
    "\<And>m i. keeps I (GetPreviousTagID dr m i)" "\<And>i. keeps I (GetFileHashesForTag dr i)" "\<And>i. keeps I (GetParsedProtoFiles mr i)"
    "\<And>es. keeps I (SaveDriftEvents dr es)" "keeps I time_Now"
  shows "keeps I (runDriftDetection dr mr time_Now ids)"
proof -
  have detect: "keeps I (detectDrift dr mr time_Now i)" for i
    unfolding detectDrift_def Let_def by (intro hoare_rules assms keeps_detect_changes)
  have "keeps I (drift_tags dr mr time_Now js)" for js
    by (induction js) (simp_all only: drift_tags.simps, (intro hoare_rules assms detect | assumption)+)
  moreover have "keeps I (hash_tags dr js)" for js
    by (induction js) (simp_all only: hash_tags.simps, (intro hoare_rules assms | assumption)+)
  ultimately show ?thesis unfolding runDriftDetection_def by (intro hoare_rules assms)
qed

text \<open>The detection of drift leaves the marks and the metadata of the tags alone.\<close>

lemma keeps_tags_drift: "keeps (\<lambda>w. tags (store w) = T \<and> tag_meta (store w) = M) (runDriftDetection (NewDriftRepository px) (NewMetadataRepository mc pl) now ids)"
proof -
  have set_hash: "keeps (\<lambda>w. tags (store w) = T \<and> tag_meta (store w) = M) (exec (set_hash h i))" for h i
    by (rule keeps_exec) (auto simp: set_hash_def)
  have insert: "keeps (\<lambda>w. tags (store w) = T \<and> tag_meta (store w) = M) (exec (insert_events hk fk es))" for hk fk es
    by (rule keeps_exec) (auto dest: insert_events_ok)
  have row: "keeps (\<lambda>w. tags (store w) = T \<and> tag_meta (store w) = M) (new_row h tm e)" for h :: "string \<Rightarrow> string option" and tm :: "instant \<Rightarrow> instant" and e
    unfolding new_row_def by (intro hoare_rules keeps_newUUID [where I = "\<lambda>d. tags d = T \<and> tag_meta d = M"])
  have parsed: "keeps (\<lambda>w. tags (store w) = T \<and> tag_meta (store w) = M) (parsed_file pl x)" for x
    unfolding parsed_file_def by (intro hoare_rules)
  note rules = hoare_rules keeps_query [where I = "\<lambda>d. tags d = T \<and> tag_meta d = M"] keeps_queryRow [where I = "\<lambda>d. tags d = T \<and> tag_meta d = M"] keeps_queryRows [where I = "\<lambda>d. tags d = T \<and> tag_meta d = M"]
    keeps_inTx [where I = "\<lambda>d. tags d = T \<and> tag_meta d = M"] set_hash insert row parsed
  show ?thesis
    by (rule keeps_runDriftDetection; (unfold NewDriftRepository_def NewMetadataRepository_def DriftRepository.select_convs
          MetadataRepository.select_convs pg_GetTagsWithoutHashes_def pg_ComputeAndStoreHashes_def pg_GetTagInfo_def
          pg_GetPreviousTagID_def pg_GetFileHashesForTag_def pg_GetParsedProtoFiles_def pg_SaveDriftEvents_def)?; intro rules)
qed



end
