(* ===== verification/ServerProps.thy ===== *)
theory ServerProps
  imports AccountsProps RegistryGuarantees DriftProps
begin

text \<open>
  The properties of the services: validation before a push, pulls that fall back to drafts, a push
  whose dependencies fail, the size of a page of users, and the format of the hashes.
\<close>

section \<open>Validation\<close>

text \<open>
  C32: the push service validates before it touches the registry, whatever the repository behind it:
  a push that succeeds or changes anything has a module name, a tag, and only files with a name and a
  content that the parser accepts.
\<close>

theorem push_validated:
  assumes "srv_PushModule r pl request w = (res, w')" and "(\<exists>m. res = Inr m) \<or> w' \<noteq> w"
  shows "pmr_ModuleName request \<noteq> [] \<and> pmr_Tag request \<noteq> [] \<and>
    (\<forall>f\<in>set (pmr_Protofiles request). pf_Filename f \<noteq> [] \<and> pf_Content f \<noteq> [] \<and> (\<exists>p. parser_Parse pl (pf_Content f) = Inr p))"
  using assms unfolding srv_PushModule_def Let_def
  by (auto simp: ValidateProtoFiles_None_iff [symmetric] split: if_splits option.splits)

definition pg_server :: "json_codec \<Rightarrow> (string option, instant) engine \<Rightarrow> (string option, instant) world MetadataRepository \<Rightarrow>
    (string option, instant) world RegistryServer" where
  "pg_server js engine mr = \<lparr>registryRepository = NewRegistryRepository js engine, metadataRepository = mr\<rparr>"

lemma pg_server_sel [simp]: "registryRepository (pg_server js engine mr) = NewRegistryRepository js engine"
  by (simp add: pg_server_def)

definition demo_server :: "(string option, instant) world RegistryServer" where
  "demo_server = pg_server text_json no_injection (NewMetadataRepository demo_mc demo_pl)"

definition push_request :: "string \<Rightarrow> Dependency list \<Rightarrow> PushModuleRequest" where
  "push_request t ds = \<lparr>pmr_ModuleName = ''m'', pmr_Tag = t, pmr_Protofiles = [f1], pmr_Dependencies = ds, pmr_IsDraft = False\<rparr>"

theorem push_validated_witness:
  "\<exists>m w'. srv_PushModule demo_server demo_pl (push_request ''v1'' []) demo_pg = (Inr m, w') \<and>
     (\<forall>f\<in>set (pmr_Protofiles (push_request ''v1'' [])). pf_Content f \<noteq> [])"
proof -
  let ?run = "srv_PushModule demo_server demo_pl (push_request ''v1'' []) demo_pg"
  have "\<not> isl (fst ?run)" by code_simp
  then obtain m w' where run: "?run = (Inr m, w')" by (metis isl_def prod.collapse sum.exhaust)
  with push_validated [OF run] show ?thesis by blast
qed

section \<open>Pulling\<close>

lemma pull_no_module:
  assumes "faults w = []" and "contents (store w) n = None"
  shows "pg_PullModule n t w = (Inl (ErrorString ''module not found''), w)"
  using assms module_view_None [of "store w" n] by (simp add: pg_PullModule_def GetModule_ok)

lemma pull_no_tag:
  assumes "faults w = []" and "contents (store w) n = Some ts" and "ts t = None"
  shows "pg_PullModule n t w = (Inl ErrTagNotFound, w)"
    and "draft_at (store w) n t = None \<Longrightarrow> pg_PullDraftModule js n t w = (Inl (ErrorString ''draft tag not found''), w)"
proof -
  obtain m where m: "module_view (store w) n = Some m"
    using assms(2) module_view_None [of "store w" n] by (cases "module_view (store w) n") auto
  have "tag_at (store w) n t = None" using assms(2,3) by (auto simp: contents_Some)
  then show "pg_PullModule n t w = (Inl ErrTagNotFound, w)"
    using assms(1) m by (simp add: pg_PullModule_def GetModule_ok GetModuleTagId_ok)
  show "pg_PullDraftModule js n t w = (Inl (ErrorString ''draft tag not found''), w)" if "draft_at (store w) n t = None"
    using that assms(1) m module_view_id [OF m]
    by (auto simp: pg_PullDraftModule_def GetModule_ok queryRow_ok draft_at_def split: list.splits)
qed

text \<open>
  C33: what a pull through the service returns (PostgreSQL, a database that answers): the files of
  the tag when there is one, a draft of the same name or not; else the files of the draft; and an
  error when there is neither or no such module.
\<close>

theorem pg_pull_fallback:
  assumes "reg_inv w" and "faults w = []" and "n \<noteq> []" and "t \<noteq> []"
  shows "case contents (store w) n of
      None \<Rightarrow> srv_PullModule (pg_server js engine mr) \<lparr>plr_Name = n, plr_Tag = t\<rparr> w = (Inl (ErrorString ''module not found''), w)
    | Some ts \<Rightarrow> (case ts t of
        Some files \<Rightarrow> \<exists>m gs. srv_PullModule (pg_server js engine mr) \<lparr>plr_Name = n, plr_Tag = t\<rparr> w = (Inr (m, gs), w) \<and> files_map gs = files
      | None \<Rightarrow> (case draft_at (store w) n t of
          None \<Rightarrow> srv_PullModule (pg_server js engine mr) \<lparr>plr_Name = n, plr_Tag = t\<rparr> w = (Inl (ErrorString ''draft tag not found''), w)
        | Some j \<Rightarrow> (case json_unmarshal_files js j of
            Inl e \<Rightarrow> \<exists>e'. srv_PullModule (pg_server js engine mr) \<lparr>plr_Name = n, plr_Tag = t\<rparr> w = (Inl e', w)
          | Inr fs \<Rightarrow> \<exists>m. srv_PullModule (pg_server js engine mr) \<lparr>plr_Name = n, plr_Tag = t\<rparr> w = (Inr (m, fs), w))))"
proof -
  let ?pull = "srv_PullModule (pg_server js engine mr) \<lparr>plr_Name = n, plr_Tag = t\<rparr> w"
  have pull: "?pull = attempt (pg_PullModule n t) (\<lambda>res. case res of Inr x \<Rightarrow> ret x | Inl err \<Rightarrow>
      if errors_Is err ErrTagNotFound then attempt (pg_PullDraftModule js n t) (\<lambda>res. case res of Inr x \<Rightarrow> ret x
        | Inl err \<Rightarrow> if errors_Is err ErrTagNotFound then throw (ErrorString (''tag '' @ t @ '' not found for module '' @ n)) else throw err)
      else throw err) w"
    unfolding srv_PullModule_def Let_def pg_server_sel NewRegistryRepository_sel PullModuleRequest.select_convs using assms(3,4) by simp
  show ?thesis
  proof (cases "contents (store w) n")
    case None
    then show ?thesis using pull pull_no_module [OF assms(2) None] by simp
  next
    case (Some ts)
    then have ts: "ts = (\<lambda>t. map_option (tag_files (store w)) (tag_at (store w) n t))" by (simp add: contents_Some)
    show ?thesis
    proof (cases "tag_at (store w) n t")
      case (Some i)
      then show ?thesis using \<open>contents (store w) n = Some ts\<close> ts pull_ok [OF assms(1,2) Some] pull
        by (auto simp: tag_files_def files_map_def comp_def)
    next
      case None
      with ts have t: "ts t = None" by simp
      note missing = pull_no_tag [OF assms(2) \<open>contents (store w) n = Some ts\<close> t]
      show ?thesis
      proof (cases "draft_at (store w) n t")
        case None
        then show ?thesis using pull missing t \<open>contents (store w) n = Some ts\<close> by simp
      next
        case (Some j)
        with pg_pull_draft_ok [OF assms(2) Some, of js] pull missing(1) t \<open>contents (store w) n = Some ts\<close>
        show ?thesis by (auto split: sum.splits)
      qed
    qed
  qed
qed

theorem pg_pull_fallback_witness:
  "srv_PullModule demo_server \<lparr>plr_Name = ''m'', plr_Tag = ''v1''\<rparr> demo_pg = (Inl (ErrorString ''draft tag not found''), demo_pg)"
proof -
  have "module_id_of (store demo_pg) ''m'' \<noteq> None" "tag_at (store demo_pg) ''m'' ''v1'' = None" "faults demo_pg = []"
    "draft_at (store demo_pg) ''m'' ''v1'' = None" by code_simp+
  with pg_pull_fallback [OF demo_pg_inv, of "''m''" "''v1''" text_json no_injection "NewMetadataRepository demo_mc demo_pl"]
  show ?thesis by (auto simp: contents_def demo_server_def)
qed

section \<open>A push whose dependencies are not there\<close>

text \<open>
  C34: a push through the service is not atomic.  When the tag is new but its first dependency does
  not exist, the service reports an error and the tag stays all the same, with its files and without
  its dependencies; and since tags are immutable the same push fails from then on.
\<close>

theorem pg_push_missing_dependency:
  assumes "reg_inv w" and "faults w = []" and "contents (store w) n = Some ts" and "ts t = None"
    and "n \<noteq> []" and "t \<noteq> []" and "ValidateProtoFiles pl fs = None" and "distinct (map pf_Filename fs)"
    and "tag_at (store w) (dep_Name dep) (dep_Tag dep) = None" and "(dep_Name dep, dep_Tag dep) \<noteq> (n, t)"
    and "request = \<lparr>pmr_ModuleName = n, pmr_Tag = t, pmr_Protofiles = fs, pmr_Dependencies = dep # ds, pmr_IsDraft = False\<rparr>"
  shows "\<exists>e w1. srv_PushModule (pg_server js engine mr) pl request w = (Inl e, w1) \<and>
    contents (store w1) n = Some (ts(t \<mapsto> files_map fs)) \<and> (\<exists>e'. fst (srv_PushModule (pg_server js engine mr) pl request w1) = Inl e')"
proof -
  let ?push = "srv_PushModule (pg_server js engine mr) pl request"
  have srv: "?push = bindE (pg_PushModule n t fs) (\<lambda>m. bindE (pg_AddModuleDependencies n t (dep # ds)) (\<lambda>_. ret m))"
    using assms(5-7) unfolding srv_PushModule_def Let_def pg_server_sel NewRegistryRepository_sel assms(11) PushModuleRequest.select_convs by simp
  obtain m w1 where p: "pg_PushModule n t fs w = (Inr m, w1)" and h: "faults w1 = []"
    using pg.push_live [OF assms(1-4,8)] by auto
  have inv: "reg_inv w1" and cont: "contents (store w1) = (contents (store w))(n \<mapsto> ts(t \<mapsto> files_map fs))"
    using pg.push [where n = n and t = t and fs = fs and rm = "Inr m" and w' = w1, OF assms(1)] p assms(3) by auto
  then have "contents (store w1) n = Some (ts(t \<mapsto> files_map fs))" by simp
  then have "ts(t \<mapsto> files_map fs) = (\<lambda>t. map_option (tag_files (store w1)) (tag_at (store w1) n t))" by (simp add: contents_Some)
  from fun_cong [OF this, of t] obtain i where at: "tag_at (store w1) n t = Some i"
    by (cases "tag_at (store w1) n t") auto
  have none: "tag_at (store w1) (dep_Name dep) (dep_Tag dep) = None"
  proof (cases "tag_at (store w1) (dep_Name dep) (dep_Tag dep)")
    case (Some j)
    have schema: "schema_ok (store w1)" using inv by (simp add: reg_inv_def registry_ok_def)
    obtain r :: "instant tag_row" where "Some (t_module_id r) = module_id_of (store w1) (dep_Name dep)"
      using Some unfolding tag_at_iff [OF schema] by blast
    then have "module_id_of (store w1) (dep_Name dep) \<noteq> None" by (metis option.distinct(1))
    then have "contents (store w1) (dep_Name dep) = Some (\<lambda>t. map_option (tag_files (store w1)) (tag_at (store w1) (dep_Name dep) t))"
      by (simp add: contents_Some)
    then obtain ts' where ts': "contents (store w1) (dep_Name dep) = Some ts'" "ts' (dep_Tag dep) \<noteq> None" using Some by auto
    then have "\<exists>ts. contents (store w) (dep_Name dep) = Some ts \<and> ts (dep_Tag dep) \<noteq> None"
      using cont assms(3,10) by (auto split: if_splits)
    with assms(9) show ?thesis by (auto simp: contents_Some)
  qed simp
  let ?msg = "''could not find tag '' @ dep_Tag dep @ '' for module '' @ dep_Name dep"
  have "pg_AddModuleDependencies n t (dep # ds) w1 = (Inl (Wrapped ?msg ErrNoRows), w1)"
    using h at none inv_tag_nonempty [OF inv at]
    by (auto simp: pg_AddModuleDependencies_def bindE_def wrapE_def GetModuleTagId_ok queryRow_ok tag_at_def split: list.splits)
  then have run: "?push w = (Inl (Wrapped ?msg ErrNoRows), w1)" using p by (simp add: srv)
  have "\<nexists>m' w2. pg_PushModule n t fs w1 = (Inr m', w2)" using pg.push [where n = n and t = t and fs = fs, OF inv] cont by fastforce
  then obtain e' w2 where "pg_PushModule n t fs w1 = (Inl e', w2)" by (metis surj_pair sum.exhaust)
  then have "fst (?push w1) = Inl e'" by (simp add: srv)
  with run cont show ?thesis by auto
qed

theorem pg_push_missing_dependency_witness:
  "\<exists>e w1 ts. srv_PushModule demo_server demo_pl (push_request ''v1'' [\<lparr>dep_Name = ''x'', dep_Tag = ''v9'', dep_DependencyType = []\<rparr>]) demo_pg = (Inl e, w1) \<and>
     contents (store w1) ''m'' = Some ts \<and> ts ''v1'' = Some (files_map [f1])"
proof -
  let ?dep = "\<lparr>dep_Name = ''x'', dep_Tag = ''v9'', dep_DependencyType = []\<rparr>"
  let ?ts = "\<lambda>t. map_option (tag_files (store demo_pg)) (tag_at (store demo_pg) ''m'' t)"
  have facts: "module_id_of (store demo_pg) ''m'' \<noteq> None" "tag_at (store demo_pg) ''m'' ''v1'' = None" "faults demo_pg = []"
    "tag_at (store demo_pg) ''x'' ''v9'' = None" "ValidateProtoFiles demo_pl [f1] = None" by code_simp+
  then have "contents (store demo_pg) ''m'' = Some ?ts" by (simp add: contents_Some)
  from pg_push_missing_dependency [OF demo_pg_inv facts(3) this, of "''v1''" demo_pl "[f1]" ?dep "push_request ''v1'' [?dep]" "[]"
      text_json no_injection "NewMetadataRepository demo_mc demo_pl"] facts
  obtain e w1 where "srv_PushModule demo_server demo_pl (push_request ''v1'' [?dep]) demo_pg = (Inl e, w1)"
    "contents (store w1) ''m'' = Some (?ts(''v1'' \<mapsto> files_map [f1]))"
    by (auto simp: push_request_def demo_server_def)
  then show ?thesis by (intro exI conjI) (assumption, assumption, simp)
qed

section \<open>Listing users\<close>

text \<open>
  C35: a page of users holds at most a thousand, fifty when no size is asked for, and the total the
  service reports is the number of users on the page, not of all users (PostgreSQL).
\<close>

theorem pg_list_users_bound:
  assumes "userRepo s = NewUserRepository cr" and "srv_ListUsers s (Some request) w = (Inr (us, cnt), w')"
  shows "cnt = length us \<and> length us \<le> 1000 \<and> (lur_PageSize request \<le> 0 \<longrightarrow> length us \<le> 50) \<and>
    (0 < lur_PageSize request \<longrightarrow> int (length us) \<le> lur_PageSize request) \<and> store w' = store w"
proof -
  let ?size = "let p = (if lur_PageSize request \<le> 0 then 50 else lur_PageSize request) in if 1000 < p then 1000 else p"
  obtain xs off where list: "pg_ListUsers ?size off w = (Inr xs, w')" and us: "us = map toV1User xs" "cnt = length xs"
    using assms by (auto simp: srv_ListUsers_def orInternal_def bindE_Inr_iff attempt_Inr_iff NewUserRepository_def Let_def)
  have "length xs \<le> nat s \<and> store w' = store w" if "pg_ListUsers s off w = (Inr xs, w')" for s
    using that unfolding pg_ListUsers_def wrapE_Inr_iff queryRows_def by (elim execRows_cases) (auto split: if_splits)
  from this [OF list] have "length xs \<le> nat ?size \<and> store w' = store w" .
  with us show ?thesis by (auto simp: Let_def split: if_splits)
qed

definition users_server :: "(string option, instant) world UsersServer" where
  "users_server = \<lparr>userRepo = NewUserRepository demo_crypto, aclRepo = NewACLRepository, uuidLib = demo_uuid, rand_Read = ret ''abc''\<rparr>"

theorem pg_list_users_bound_witness:
  "\<exists>us w'. srv_ListUsers users_server (Some \<lparr>lur_PageSize = 0, lur_Page = 0\<rparr>) acl_world = (Inr (us, 1), w') \<and> length us \<le> 50"
proof -
  let ?run = "srv_ListUsers users_server (Some \<lparr>lur_PageSize = 0, lur_Page = 0\<rparr>) acl_world"
  have "map_sum (\<lambda>_. ()) snd (fst ?run) = Inr 1" by code_simp
  then obtain us w' where run: "?run = (Inr (us, 1), w')" by (cases ?run; cases "fst ?run") auto
  have "userRepo users_server = NewUserRepository demo_crypto" by (simp add: users_server_def)
  from pg_list_users_bound [OF this run] run show ?thesis by auto
qed

section \<open>Hashes\<close>

lemma hex_digits: "set (hex_EncodeToString bs) \<subseteq> set ''0123456789abcdef''"
proof -
  have lt: "unat (drop_bit 4 b) < 16" "unat (b AND 15) < 16" for b :: byte
  proof -
    have "unat b < 256" using unsigned_less [of b, where ?'a = nat] by simp
    then show "unat (drop_bit 4 b) < 16" by (simp add: drop_bit_eq_div unat_div less_mult_imp_div_less)
    have "b AND 15 = take_bit 4 b" by (simp add: take_bit_eq_mask mask_eq_exp_minus_1)
    then show "unat (b AND 15) < 16" by (simp add: unsigned_take_bit_eq take_bit_eq_mod [where ?'a = nat])
  qed
  have digit: "''0123456789abcdef'' ! k \<in> set ''0123456789abcdef''" if "k < 16" for k
    using that nth_mem [of k "''0123456789abcdef''"] by simp
  show ?thesis unfolding hex_EncodeToString_def hex_digit_def using lt digit by auto
qed


end
