(* ===== verification/DriftHelpers.thy ===== *)
theory DriftHelpers
  imports DetectionLaws
begin

text \<open>
  Helpers of internal/background/driftdetection.go that index a file by names, which the grading by
  numbers has replaced, and the copies of two functions that internal/data/sqlite/drift.go keeps;
  with their relation to the functions in use.

  A Go map is an association list of its keys and values, one entry per key.
\<close>

section \<open>Fields and their types by name\<close>

definition set_all :: "string \<Rightarrow> ('a \<Rightarrow> string) \<Rightarrow> ('a \<Rightarrow> 'v) \<Rightarrow> 'a list \<Rightarrow> (string \<times> 'v) list \<Rightarrow> (string \<times> 'v) list" where
  "set_all messageName key val xs result = fold (\<lambda>x. map_update (messageName @ ''.'' @ key x) (val x)) xs result"

fun fields_by_name :: "pMessage list \<Rightarrow> (string \<times> string) list \<Rightarrow> (string \<times> string) list" where
  "fields_by_name [] result = result"
| "fields_by_name (Message name None # messages) result = fields_by_name messages result"
| "fields_by_name (Message name (Some (Body flds enums nested options oneofs mps)) # messages) result =
     (let result = set_all name fld_FieldName fld_FieldNumber flds result;
          result = set_all name map_MapName map_FieldNumber mps result;
          result = fold (\<lambda>oneof. set_all name oof_FieldName oof_FieldNumber (one_OneofFields oneof)) oneofs result;
          result = set_all name fst snd (fields_by_name nested []) result
      in fields_by_name messages result)"

definition extractFieldsFromMessages :: "pMessage list \<Rightarrow> (string \<times> string) list" where
  "extractFieldsFromMessages messages = fields_by_name messages []"

fun types_by_name :: "pMessage list \<Rightarrow> (string \<times> string) list \<Rightarrow> (string \<times> string) list" where
  "types_by_name [] result = result"
| "types_by_name (Message name None # messages) result = types_by_name messages result"
| "types_by_name (Message name (Some (Body flds enums nested options oneofs mps)) # messages) result =
     (let result = set_all name fld_FieldName fld_Type flds result;
          result = set_all name map_MapName map_type mps result;
          result = set_all name fst snd (types_by_name nested []) result
      in types_by_name messages result)"

definition extractFieldTypesFromMessages :: "pMessage list \<Rightarrow> (string \<times> string) list" where
  "extractFieldTypesFromMessages messages = types_by_name messages []"

section \<open>RPCs and enum values by name\<close>

definition extractRPCsFromParsed :: "pService list \<Rightarrow> (string \<times> bool) list" where
  "extractRPCsFromParsed services = fold (\<lambda>svc result.
     case svc_ServiceBody svc of
       None \<Rightarrow> result
     | Some body \<Rightarrow> set_all (svc_ServiceName svc) rpc_RPCName (\<lambda>_. True) (svb_RPCs body) result) services []"

definition extractEnumValuesFromParsed :: "pEnum list \<Rightarrow> (string \<times> bool) list" where
  "extractEnumValuesFromParsed enums = fold (\<lambda>enum result.
     case enm_EnumBody enum of
       None \<Rightarrow> result
     | Some body \<Rightarrow> set_all (enm_EnumName enum) enf_Ident (\<lambda>_. True) (enb_EnumFields body) result) enums []"

section \<open>The copies of the SQLite package\<close>

definition lite_severityRankToDriftSeverity :: "nat \<Rightarrow> DriftSeverity" where
  "lite_severityRankToDriftSeverity rank =
     (if rank = 3 then DriftSeverityCritical else if rank = 2 then DriftSeverityWarning else DriftSeverityInfo)"

definition lite_recommendationFromSeverity :: "DriftSeverity \<Rightarrow> DependencyDriftRecommendation" where
  "lite_recommendationFromSeverity severity =
     (if severity = DriftSeverityCritical \<or> severity = DriftSeverityWarning
      then DependencyDriftRecommendationAlertReview else DependencyDriftRecommendationSuggestUpdate)"

lemma lite_severity_same:
  "lite_severityRankToDriftSeverity = severityRankToDriftSeverity"
  "lite_recommendationFromSeverity = recommendationFromSeverity"
  by (simp_all add: fun_eq_iff lite_severityRankToDriftSeverity_def severityRankToDriftSeverity_def
      lite_recommendationFromSeverity_def recommendationFromSeverity_def)

section \<open>The names that are indexed\<close>

declare keys_map_update [simp]

lemma keys_set_all [simp]: "fst ` set (set_all name key val xs m) = (\<lambda>x. name @ ''.'' @ key x) ` set xs \<union> fst ` set m"
  unfolding set_all_def by (induction xs arbitrary: m) auto

lemma keys_fold:
  "(\<And>x m. fst ` set (f x m) = K x \<union> fst ` set m) \<Longrightarrow> fst ` set (fold f xs m) = \<Union> (K ` set xs) \<union> fst ` set m"
  by (induction xs arbitrary: m) auto

text \<open>The index of the RPCs by name has exactly the keys of the index of their details, which replaced it.\<close>

lemma rpc_keys: "fst ` set (extractRPCsFromParsed services) = fst ` set (extractRPCDetailsFromParsed services)"
proof -
  let ?K = "\<lambda>svc. case svc_ServiceBody svc of None \<Rightarrow> {} | Some body \<Rightarrow> (\<lambda>rpc. svc_ServiceName svc @ ''.'' @ rpc_RPCName rpc) ` set (svb_RPCs body)"
  have details: "fold (\<lambda>rpc. map_update (n @ ''.'' @ rpc_RPCName rpc) (parsed_rpc rpc)) rs m = set_all n rpc_RPCName parsed_rpc rs m" for n rs m
    by (simp add: set_all_def)
  show ?thesis
    unfolding extractRPCsFromParsed_def extractRPCDetailsFromParsed_def details
    by (subst (1 2) keys_fold [where K = ?K]) (auto split: option.splits)
qed

lemma keys_oneofs:
  "fst ` set (fold (\<lambda>oneof. set_all name oof_FieldName oof_FieldNumber (one_OneofFields oneof)) oneofs m) =
     (\<Union>oneof\<in>set oneofs. (\<lambda>x. name @ ''.'' @ oof_FieldName x) ` set (one_OneofFields oneof)) \<union> fst ` set m"
  by (rule keys_fold) simp

lemma fields_keys_acc: "\<forall>r. fst ` set (fields_by_name ms r) = fst ` set (fields_by_name ms []) \<union> fst ` set r"
proof (induction ms "r0 :: (string \<times> string) list" rule: fields_by_name.induct)
  case (2 name messages r0)
  then show ?case unfolding fields_by_name.simps .
next
  case (3 name flds enums nested options oneofs mps messages r0)
  show ?case
  proof
    fix r
    note IH = 3(2) [OF refl refl refl refl, rule_format]
    show "fst ` set (fields_by_name (Message name (Some (Body flds enums nested options oneofs mps)) # messages) r) =
      fst ` set (fields_by_name (Message name (Some (Body flds enums nested options oneofs mps)) # messages) []) \<union> fst ` set r"
      unfolding fields_by_name.simps Let_def
      by (subst (1 2) IH) (auto simp: keys_oneofs)
  qed
qed simp

lemma union_chain: "T \<subseteq> F \<union> X \<Longrightarrow> X \<subseteq> A \<union> R \<Longrightarrow> G = F \<union> A \<Longrightarrow> T \<subseteq> G \<union> R"
  by blast

text \<open>
  Every field that is indexed by its type is also indexed by its number.  The converse fails: the
  fields of a oneof have no entry among the types.
\<close>

lemma types_keys_subset: "\<forall>r r'. fst ` set (types_by_name ms r) \<subseteq> fst ` set (fields_by_name ms r') \<union> fst ` set r"
proof (induction ms "r0 :: (string \<times> string) list" rule: types_by_name.induct)
  case (2 name messages r0)
  then show ?case unfolding types_by_name.simps fields_by_name.simps .
next
  case (3 name flds enums nested options oneofs mps messages r0)
  note nested = 3(1) [OF refl refl, rule_format, of "[]" "[]"] and rest = 3(2) [OF refl refl refl, rule_format]
  show ?case
  proof (intro allI)
    fix r r'
    let ?types = "set_all name fst snd (types_by_name nested []) (set_all name map_MapName map_type mps (set_all name fld_FieldName fld_Type flds r))"
    let ?all = "set_all name fst snd (fields_by_name nested [])
      (fold (\<lambda>oneof. set_all name oof_FieldName oof_FieldNumber (one_OneofFields oneof)) oneofs
        (set_all name map_MapName map_FieldNumber mps (set_all name fld_FieldName fld_FieldNumber flds r')))"
    have "(\<lambda>x. name @ ''.'' @ fst x) ` set (types_by_name nested []) \<subseteq> (\<lambda>x. name @ ''.'' @ fst x) ` set (fields_by_name nested [])"
      using image_mono [OF nested, of "\<lambda>k. name @ ''.'' @ k"] by (simp add: image_image)
    then have "fst ` set ?types \<subseteq> fst ` set ?all \<union> fst ` set r"
      unfolding keys_set_all keys_oneofs by blast
    moreover have "fst ` set (fields_by_name messages ?all) = fst ` set (fields_by_name messages []) \<union> fst ` set ?all"
      using fields_keys_acc by blast
    ultimately show "fst ` set (types_by_name (Message name (Some (Body flds enums nested options oneofs mps)) # messages) r) \<subseteq>
        fst ` set (fields_by_name (Message name (Some (Body flds enums nested options oneofs mps)) # messages) r') \<union> fst ` set r"
      unfolding types_by_name.simps fields_by_name.simps Let_def by (rule union_chain [OF rest [of ?types "[]"]])
  qed
qed simp

corollary field_types_indexed:
  "fst ` set (extractFieldTypesFromMessages messages) \<subseteq> fst ` set (extractFieldsFromMessages messages)"
  using types_keys_subset [rule_format, of messages "[]" "[]"]
  unfolding extractFieldTypesFromMessages_def extractFieldsFromMessages_def by simp

end
