(* ===== verification/Startup.thy ===== *)
theory Startup
  imports Daemons Middleware
begin

text \<open>
  Opening the database: internal/data/factory.go, postgres_init.go, sqlite/db.go and
  sqlite/register.go, with migrations/migration.go.

  Start-up code ends in one of three ways: it returns, it panics, or it calls \<open>log.Fatalf\<close>, which
  exits the process without running deferred calls.  The calls of pgx, database/sql and goose are
  recorded in a trace; whether such a call fails is what the record \<open>driver_env\<close> says of it.
\<close>

section \<open>How start-up code ends\<close>

datatype 'a ends = Returns 'a | Panics error | Fatal error

type_synonym ('w, 'a) proc = "'w \<Rightarrow> 'a ends \<times> 'w"

definition yields :: "'a \<Rightarrow> ('w, 'a) proc" where
  "yields x w = (Returns x, w)"

definition andThen :: "('w, 'a) proc \<Rightarrow> ('a \<Rightarrow> ('w, 'b) proc) \<Rightarrow> ('w, 'b) proc" where
  "andThen m f w = (case m w of
       (Returns x, w') \<Rightarrow> f x w'
     | (Panics e, w') \<Rightarrow> (Panics e, w')
     | (Fatal e, w') \<Rightarrow> (Fatal e, w'))"

lemma yields_simp [simp]: "yields x w = (Returns x, w)"
  by (simp add: yields_def)

lemma andThen_simps [simp]:
  "m w = (Returns x, w') \<Longrightarrow> andThen m f w = f x w'"
  "m w = (Panics e, w') \<Longrightarrow> andThen m f w = (Panics e, w')"
  "m w = (Fatal e, w') \<Longrightarrow> andThen m f w = (Fatal e, w')"
  by (simp_all add: andThen_def)

section \<open>Calls to the database drivers\<close>

datatype conn = PgxPool | MigrationDB | SqliteDB

datatype db_call = Opened conn | Closed conn | Executed conn string | Migrated conn string

text \<open>
  The outcome of each call, by its arguments; \<open>None\<close> is success.  \<open>sql.Open\<close> takes the name of
  the driver and the DSN, \<open>goose.Up\<close> the directory of the migrations.
\<close>

record driver_env =
  pgxpool_New :: "string \<Rightarrow> error option"
  sql_Open :: "string \<Rightarrow> string \<Rightarrow> error option"
  db_Exec :: "string \<Rightarrow> error option"
  db_Close :: "error option"
  goose_SetDialect :: "string \<Rightarrow> error option"
  goose_Up :: "string \<Rightarrow> error option"

definition record_call :: "db_call \<Rightarrow> (db_call list, unit) proc" where
  "record_call c cs = (Returns (), cs @ [c])"

text \<open>A call that takes effect when it succeeds and returns its error.\<close>

definition try_call :: "error option \<Rightarrow> db_call \<Rightarrow> (db_call list, error option) proc" where
  "try_call outcome c = (case outcome of None \<Rightarrow> andThen (record_call c) (\<lambda>_. yields None) | Some err \<Rightarrow> yields (Some err))"

section \<open>Migrations\<close>

definition panic :: "error \<Rightarrow> ('w, 'a) proc" where
  "panic e w = (Panics e, w)"

definition Migrate :: "driver_env \<Rightarrow> conn \<Rightarrow> (db_call list, unit) proc" where
  "Migrate env db =
     (case goose_SetDialect env ''postgres'' of
        Some err \<Rightarrow> panic err
      | None \<Rightarrow> (case goose_Up env ''.'' of
          Some err \<Rightarrow> panic err
        | None \<Rightarrow> record_call (Migrated db ''.'')))"

definition MigrateSQLite :: "driver_env \<Rightarrow> conn \<Rightarrow> (db_call list, unit) proc" where
  "MigrateSQLite env db =
     (case goose_SetDialect env ''sqlite3'' of
        Some err \<Rightarrow> panic err
      | None \<Rightarrow> (case goose_Up env ''sqlite'' of
          Some err \<Rightarrow> panic err
        | None \<Rightarrow> record_call (Migrated db ''sqlite'')))"

section \<open>The repositories of a backend\<close>

record 'w RepositorySet =
  rs_Registry :: "'w RegistryRepository"
  rs_Metadata :: "'w MetadataRepository"
  rs_Users :: "'w UserRepository"
  rs_ACL :: "'w ACLRepository"
  rs_Drift :: "'w DriftRepository"

type_synonym pg_world = "(string option, instant) world"
type_synonym lite_world = "(string, string) world"

text \<open>The libraries the repositories call, as in their own theories.\<close>

record 'p libraries =
  lib_json :: json_codec
  lib_pg_engine :: "(string option, instant) engine"
  lib_lite_engine :: "(string, string) engine"
  lib_meta :: meta_codec
  lib_proto :: "'p proto_lib"
  lib_pgcrypto :: pgcrypto
  lib_pgx :: pgx_lib
  lib_uuid :: uuid_lib

definition pg_repositories :: "'p libraries \<Rightarrow> pg_world RepositorySet" where
  "pg_repositories lib = \<lparr>
     rs_Registry = NewRegistryRepository (lib_json lib) (lib_pg_engine lib),
     rs_Metadata = NewMetadataRepository (lib_meta lib) (lib_proto lib),
     rs_Users = NewUserRepository (lib_pgcrypto lib),
     rs_ACL = NewACLRepository,
     rs_Drift = NewDriftRepository (lib_pgx lib)\<rparr>"

definition lite_repositories :: "'p libraries \<Rightarrow> lite_world RepositorySet" where
  "lite_repositories lib = \<lparr>
     rs_Registry = lite_NewRegistryRepository (lib_json lib) (lib_lite_engine lib),
     rs_Metadata = lite_NewMetadataRepository (lib_meta lib) (lib_proto lib),
     rs_Users = lite_NewUserRepository (lib_uuid lib),
     rs_ACL = lite_NewACLRepository (lib_uuid lib),
     rs_Drift = lite_NewDriftRepository\<rparr>"

text \<open>
  The fields of a \<open>RepositorySet\<close> are interfaces; behind them are the types of one of the two
  packages.  With them comes the function that closes the database.
\<close>

datatype repositories = Postgres "pg_world RepositorySet" | SQLite "lite_world RepositorySet"

type_synonym opened = "repositories \<times> (db_call list, unit) proc"
type_synonym driverFactory = "string \<Rightarrow> (db_call list, error + opened) proc"

section \<open>The drivers\<close>

definition openPostgres :: "driver_env \<Rightarrow> 'p libraries \<Rightarrow> driverFactory" where
  "openPostgres env lib dsn =
     andThen (try_call (pgxpool_New env dsn) (Opened PgxPool)) (\<lambda>err.
     case err of
       Some e \<Rightarrow> yields (Inl (Wrapped ''failed to connect to postgres'' e))
     | None \<Rightarrow>
     andThen (try_call (sql_Open env ''pgx'' dsn) (Opened MigrationDB)) (\<lambda>err.
     case err of
       Some e \<Rightarrow> andThen (record_call (Closed PgxPool)) (\<lambda>_.
         yields (Inl (Wrapped ''failed to open sql.DB for migrations'' e)))
     | None \<Rightarrow>
     andThen (Migrate env MigrationDB) (\<lambda>_.
     andThen (record_call (Closed MigrationDB)) (\<lambda>_.
     case db_Close env of
       Some e \<Rightarrow> andThen (record_call (Closed PgxPool)) (\<lambda>_.
         yields (Inl (Wrapped ''failed to close migration db'' e)))
     | None \<Rightarrow> yields (Inr (Postgres (pg_repositories lib), record_call (Closed PgxPool)))))))"

text \<open>\<open>sqlite.Open\<close>: a pragma that fails closes the database again.\<close>

definition pragma :: "driver_env \<Rightarrow> string \<Rightarrow> string \<Rightarrow> (db_call list, error + unit) proc \<Rightarrow> (db_call list, error + unit) proc" where
  "pragma env stmt msg k =
     andThen (try_call (db_Exec env stmt) (Executed SqliteDB stmt)) (\<lambda>err.
     case err of
       Some e \<Rightarrow> andThen (record_call (Closed SqliteDB)) (\<lambda>_. yields (Inl (Wrapped msg e)))
     | None \<Rightarrow> k)"

definition sqlite_Open :: "driver_env \<Rightarrow> string \<Rightarrow> (db_call list, error + unit) proc" where
  "sqlite_Open env path =
     andThen (try_call (sql_Open env ''sqlite'' path) (Opened SqliteDB)) (\<lambda>err.
     case err of
       Some e \<Rightarrow> yields (Inl (Wrapped ''could not open sqlite database'' e))
     | None \<Rightarrow>
       pragma env ''PRAGMA foreign_keys = ON'' ''could not enable foreign keys''
         (pragma env ''PRAGMA journal_mode = WAL'' ''could not enable WAL mode''
           (pragma env ''PRAGMA busy_timeout = 5000'' ''could not set busy timeout'' (yields (Inr ())))))"

definition openSQLite :: "driver_env \<Rightarrow> 'p libraries \<Rightarrow> driverFactory" where
  "openSQLite env lib dsn =
     andThen (sqlite_Open env dsn) (\<lambda>r.
     case r of
       Inl e \<Rightarrow> yields (Inl (Wrapped ''failed to open sqlite'' e))
     | Inr _ \<Rightarrow>
         andThen (MigrateSQLite env SqliteDB) (\<lambda>_.
         yields (Inr (SQLite (lite_repositories lib), record_call (Closed SqliteDB)))))"

section \<open>The factory\<close>

type_synonym drivers = "string \<rightharpoonup> driverFactory"

definition RegisterDriver :: "string \<Rightarrow> driverFactory \<Rightarrow> drivers \<Rightarrow> drivers" where
  "RegisterDriver name f registeredDrivers = registeredDrivers(name \<mapsto> f)"

text \<open>The \<open>init\<close> functions of the packages data and sqlite, which the command imports, have run.\<close>

definition registeredDrivers :: "driver_env \<Rightarrow> 'p libraries \<Rightarrow> drivers" where
  "registeredDrivers env lib =
     RegisterDriver ''sqlite'' (openSQLite env lib) (RegisterDriver ''postgres'' (openPostgres env lib) Map.empty)"

text \<open>The message of the error is the source's up to the quotes around the name and the advice after it.\<close>

definition Open :: "drivers \<Rightarrow> string \<Rightarrow> driverFactory" where
  "Open registered driver dsn =
     (let driver = (if driver = [] then ''postgres'' else driver) in
      case registered driver of
        None \<Rightarrow> yields (Inl (ErrorString (''unknown database driver '' @ driver)))
      | Some f \<Rightarrow> f dsn)"

section \<open>Connections that are open\<close>

text \<open>The connections a trace leaves open.\<close>

fun open_conns :: "db_call list \<Rightarrow> conn set \<Rightarrow> conn set" where
  "open_conns [] cs = cs"
| "open_conns (Opened c # es) cs = open_conns es (insert c cs)"
| "open_conns (Closed c # es) cs = open_conns es (cs - {c})"
| "open_conns (_ # es) cs = open_conns es cs"

lemma open_conns_append [simp]: "open_conns (es @ fs) cs = open_conns fs (open_conns es cs)"
  by (induction es cs rule: open_conns.induct) simp_all

lemmas startup_defs = openPostgres_def openSQLite_def sqlite_Open_def pragma_def Migrate_def MigrateSQLite_def
  try_call_def record_call_def panic_def andThen_def

end
