(* ===== verification/Launch.thy ===== *)
theory Launch
  imports Startup
begin

text \<open>
  From the configuration to a running process: internal/config/config.go, internal/server/grpc.go,
  http.go and debug.go, cmd/main.go and cmd/root.go.

  viper, kratos, cobra and gocron are third-party code.  What the program hands to them (the options
  of a server, the commands, the job of a scheduler) is modelled; what they do with it is a
  parameter: the record \<open>viper\<close>, the outcome of \<open>tls.LoadX509KeyPair\<close>, the command that cobra selects
  for the arguments, and the moments at which gocron starts the job of a daemon.
\<close>

section \<open>Configuration\<close>

record TLS =
  tls_Enabled :: bool
  tls_CertFile :: string
  tls_KeyFile :: string

record HTTP_config =
  http_Addr :: string
  http_Timeout :: int
  http_Auth :: Auth

record GRPC_config =
  grpc_Addr :: string
  grpc_Timeout :: int
  grpc_TLS :: TLS
  grpc_Auth :: Auth

record Debug_config =
  debug_Addr :: string
  debug_Timeout :: int

record Server_config =
  HTTP :: HTTP_config
  GRPC :: GRPC_config
  Debug :: Debug_config

record Config =
  Server :: Server_config
  Driver :: string
  DSN :: string
  Compaction_Cron :: string
  ProtoParsing_Cron :: string
  DriftDetection_Cron :: string

text \<open>
  A \<open>viper.Viper\<close> is a value that each call changes; \<open>ReadConfig\<close> and \<open>Unmarshal\<close> can fail.  A
  \<open>strings.Replacer\<close> is the pair of its old and new string.
\<close>

record 'v viper =
  viper_New :: 'v
  SetConfigType :: "string \<Rightarrow> 'v \<Rightarrow> 'v"
  SetEnvPrefix :: "string \<Rightarrow> 'v \<Rightarrow> 'v"
  SetDefault :: "string \<Rightarrow> string \<Rightarrow> 'v \<Rightarrow> 'v"
  AutomaticEnv :: "'v \<Rightarrow> 'v"
  SetEnvKeyReplacer :: "string \<times> string \<Rightarrow> 'v \<Rightarrow> 'v"
  ReadConfig :: "string \<Rightarrow> 'v \<Rightarrow> error + 'v"
  Unmarshal :: "'v \<Rightarrow> error + Config"

record Loader =
  ld_defaults :: "(string \<times> string) list"
  ld_automaticEnv :: bool
  ld_envPrefix :: string
  ld_replacer :: "(string \<times> string) option"
  ld_configType :: string
  ld_embeddedConfig :: string

text \<open>The embedded file config.yaml is an argument.\<close>

definition NewLoader :: "string \<Rightarrow> Loader" where
  "NewLoader embeddedConfigBytes = \<lparr>ld_defaults = [], ld_automaticEnv = True, ld_envPrefix = [],
     ld_replacer = Some (''.'', ''_''), ld_configType = ''yaml'', ld_embeddedConfig = embeddedConfigBytes\<rparr>"

definition decorateViper :: "'v viper \<Rightarrow> Loader \<Rightarrow> 'v \<Rightarrow> error + 'v" where
  "decorateViper vp loader v =
     (let v = SetConfigType vp (ld_configType loader) v;
          v = (if ld_envPrefix loader \<noteq> [] then SetEnvPrefix vp (ld_envPrefix loader) v else v);
          v = fold (\<lambda>(key, val). SetDefault vp key val) (ld_defaults loader) v;
          v = (if ld_automaticEnv loader then AutomaticEnv vp v else v);
          v = (case ld_replacer loader of None \<Rightarrow> v | Some r \<Rightarrow> SetEnvKeyReplacer vp r v)
      in if ld_embeddedConfig loader \<noteq> [] then ReadConfig vp (ld_embeddedConfig loader) v else Inr v)"

definition MustLoad :: "'v viper \<Rightarrow> Loader \<Rightarrow> ('w, Config) proc" where
  "MustLoad vp loader =
     (case decorateViper vp loader (viper_New vp) of
        Inl err \<Rightarrow> panic err
      | Inr v \<Rightarrow> (case Unmarshal vp v of Inl err \<Rightarrow> panic err | Inr cfg \<Rightarrow> yields cfg))"

section \<open>Servers\<close>

record 'c TLSConfig =
  Certificates :: "'c list"

text \<open>
  The options a kratos server is made with, and the services registered with it.  \<open>None\<close> as a TLS
  configuration is the nil the option is given when TLS is off.
\<close>

record ('w, 'p, 'c) transport_server =
  ts_Address :: string
  ts_Timeout :: int
  ts_TLSConfig :: "'c TLSConfig option"
  ts_Middleware :: "('w, reply) Middleware list"
  ts_Services :: "('w, 'p) services"

definition createTLSConfig :: "(string \<Rightarrow> string \<Rightarrow> error + 'c) \<Rightarrow> Server_config \<Rightarrow> error + 'c TLSConfig option" where
  "createTLSConfig LoadX509KeyPair cfg =
     (let t = grpc_TLS (GRPC cfg) in
      if \<not> tls_Enabled t then Inr None
      else case LoadX509KeyPair (tls_CertFile t) (tls_KeyFile t) of
        Inl err \<Rightarrow> Inl err
      | Inr cert \<Rightarrow> Inr (Some \<lparr>Certificates = [cert]\<rparr>))"

text \<open>\<open>Fatalf\<close> on an error, as both constructors do with the error of the middlewares.\<close>

definition orFatal :: "error + 'a \<Rightarrow> ('w, 'a) proc" where
  "orFatal r w = (case r of Inl e \<Rightarrow> (Fatal e, w) | Inr x \<Rightarrow> (Returns x, w))"

definition wrap_error :: "string \<Rightarrow> error + 'a \<Rightarrow> error + 'a" where
  "wrap_error msg r = (case r of Inl e \<Rightarrow> Inl (Wrapped msg e) | Inr x \<Rightarrow> Inr x)"

definition NewGRPCServer :: "(string \<Rightarrow> string \<Rightarrow> error + 'c) \<Rightarrow> string \<Rightarrow> Server_config \<Rightarrow> ('w, 'p) services \<Rightarrow>
    'w UserRepository option \<Rightarrow> 'w ACLRepository option \<Rightarrow> ('s, ('w, 'p, 'c) transport_server) proc" where
  "NewGRPCServer LoadX509KeyPair env_token cfg srvs ur ar =
     andThen (orFatal (wrap_error ''failed to create TLS config'' (createTLSConfig LoadX509KeyPair cfg))) (\<lambda>tlsConfig.
     andThen (orFatal (serverMiddlewares (grpc_Auth (GRPC cfg)) env_token ur ar)) (\<lambda>ms.
     yields \<lparr>ts_Address = grpc_Addr (GRPC cfg), ts_Timeout = grpc_Timeout (GRPC cfg), ts_TLSConfig = tlsConfig,
       ts_Middleware = ms, ts_Services = srvs\<rparr>))"

definition NewHTTPServer :: "string \<Rightarrow> Server_config \<Rightarrow> ('w, 'p) services \<Rightarrow>
    'w UserRepository option \<Rightarrow> 'w ACLRepository option \<Rightarrow> ('s, ('w, 'p, 'c) transport_server) proc" where
  "NewHTTPServer env_token cfg srvs ur ar =
     andThen (orFatal (serverMiddlewares (http_Auth (HTTP cfg)) env_token ur ar)) (\<lambda>ms.
     yields \<lparr>ts_Address = http_Addr (HTTP cfg), ts_Timeout = http_Timeout (HTTP cfg), ts_TLSConfig = None,
       ts_Middleware = ms, ts_Services = srvs\<rparr>)"

text \<open>The debug server: one handler, which answers \<open>GET\<close> and refuses every other method.\<close>

record http_response =
  StatusCode :: nat
  Headers :: "(string \<times> string) list"
  Body :: string

record debug_server =
  ds_Address :: string
  ds_Timeout :: int
  ds_healthz :: "string \<Rightarrow> http_response"

text \<open>\<open>http.Error\<close> sets its own headers and ends the text with a newline.\<close>

definition http_Error :: "string \<Rightarrow> nat \<Rightarrow> http_response" where
  "http_Error err code = \<lparr>StatusCode = code,
     Headers = [(''Content-Type'', ''text/plain; charset=utf-8''), (''X-Content-Type-Options'', ''nosniff'')],
     Body = err @ [CHR 0x0A]\<rparr>"

definition healthz :: "string \<Rightarrow> http_response" where
  "healthz method =
     (if method \<noteq> ''GET'' then http_Error ''method not allowed'' 405
      else \<lparr>StatusCode = 200,
        Headers = [(''Content-Type'', ''application/json; charset=utf-8''),
          (''Cache-Control'', ''no-cache, no-store, must-revalidate''), (''Pragma'', ''no-cache''), (''Expires'', ''0'')],
        Body = ''{}'' @ [CHR 0x0A]\<rparr>)"

definition NewDebugServer :: "Server_config \<Rightarrow> debug_server" where
  "NewDebugServer cfg = \<lparr>ds_Address = debug_Addr (Debug cfg), ds_Timeout = debug_Timeout (Debug cfg), ds_healthz = healthz\<rparr>"

section \<open>Daemons\<close>

record 'w Daemon =
  Name :: string
  Run :: "('w, unit) go"

definition NewCompactionDaemon :: "'w RegistryRepository \<Rightarrow> 'w Daemon" where
  "NewCompactionDaemon repo = \<lparr>Name = ''compaction'', Run = compaction_Run repo\<rparr>"

definition NewProtoParsingDaemon :: "'w MetadataRepository \<Rightarrow> 'w DriftRepository \<Rightarrow> 'p proto_lib \<Rightarrow> ('w, instant) go \<Rightarrow> 'w Daemon" where
  "NewProtoParsingDaemon mr dr pl time_Now = \<lparr>Name = ''proto parsing'', Run = protoParsing_Run mr dr pl time_Now\<rparr>"

text \<open>
  What happens to the process of a daemon: gocron starts the job, or the debug application stops,
  with an error or without.  The runs of a job are taken one after the other.
\<close>

datatype daemon_event = Tick | DebugStops "error option"

text \<open>The task of the job: an error of the run is a \<open>Fatalf\<close>.\<close>

definition daemon_task :: "'w Daemon \<Rightarrow> ('w, unit) proc" where
  "daemon_task daemon w =
     (case Run daemon w of
        (Inl err, w') \<Rightarrow> (Fatal (Wrapped (''failed to run '' @ Name daemon @ '' daemon'') err), w')
      | (Inr _, w') \<Rightarrow> (Returns (), w'))"

text \<open>\<open>None\<close>: after these events the process is still running.\<close>

fun daemon_process :: "'w Daemon \<Rightarrow> daemon_event list \<Rightarrow> 'w \<Rightarrow> unit ends option \<times> 'w" where
  "daemon_process daemon [] w = (None, w)"
| "daemon_process daemon (Tick # es) w =
     (case daemon_task daemon w of
        (Returns _, w') \<Rightarrow> daemon_process daemon es w'
      | (e, w') \<Rightarrow> (Some e, w'))"
| "daemon_process daemon (DebugStops (Some err) # es) w = (Some (Fatal (Wrapped ''failed to run debug app'' err)), w)"
| "daemon_process daemon (DebugStops None # es) w = (Some (Returns ()), w)"

text \<open>The outcomes of \<open>gocron.NewScheduler\<close> and of \<open>NewJob\<close>, by the schedule, are arguments.\<close>

definition runBackgroundDaemon ::
  "error option \<Rightarrow> (string \<Rightarrow> error option) \<Rightarrow> string \<Rightarrow> 'w Daemon \<Rightarrow> daemon_event list \<Rightarrow> 'w \<Rightarrow> unit ends option \<times> 'w" where
  "runBackgroundDaemon new_scheduler new_job cronSchedule daemon es w =
     (case new_scheduler of
        Some err \<Rightarrow> (Some (Fatal (Wrapped ''failed to create scheduler'' err)), w)
      | None \<Rightarrow> (case new_job cronSchedule of
          Some err \<Rightarrow> (Some (Fatal (Wrapped ''failed to create cron job'' err)), w)
        | None \<Rightarrow> daemon_process daemon es w))"

section \<open>The command\<close>

record ('w, 'p, 'c) Launcher =
  la_config :: Config
  la_grpc :: "('w, 'p, 'c) transport_server"
  la_http :: "('w, 'p, 'c) transport_server"
  la_debug :: debug_server
  la_compactionDaemon :: "'w Daemon"
  la_protoParsingDaemon :: "'w Daemon"

text \<open>What a process turns into: the application with its three servers, or a daemon with its schedule.\<close>

datatype ('w, 'p, 'c) role =
    MainApp "('w, 'p, 'c) transport_server" "('w, 'p, 'c) transport_server" debug_server
  | BackgroundDaemon string "'w Daemon" debug_server

record ('w, 'p, 'c) Command =
  cmd_Use :: string
  cmd_Run :: "('w, 'p, 'c) role"

definition CreateCompactionDaemon :: "('w, 'p, 'c) Launcher \<Rightarrow> ('w, 'p, 'c) Command" where
  "CreateCompactionDaemon launcher = \<lparr>cmd_Use = ''compaction'',
     cmd_Run = BackgroundDaemon (Compaction_Cron (la_config launcher)) (la_compactionDaemon launcher) (la_debug launcher)\<rparr>"

definition CreateProtoParsingDaemon :: "('w, 'p, 'c) Launcher \<Rightarrow> ('w, 'p, 'c) Command" where
  "CreateProtoParsingDaemon launcher = \<lparr>cmd_Use = ''proto-parsing'',
     cmd_Run = BackgroundDaemon (ProtoParsing_Cron (la_config launcher)) (la_protoParsingDaemon launcher) (la_debug launcher)\<rparr>"

text \<open>The root command and its subcommands.\<close>

definition CreateRootCommand :: "('w, 'p, 'c) Launcher \<Rightarrow> ('w, 'p, 'c) Command \<times> ('w, 'p, 'c) Command list" where
  "CreateRootCommand launcher =
     (\<lparr>cmd_Use = ''pbuf-registry'', cmd_Run = MainApp (la_grpc launcher) (la_http launcher) (la_debug launcher)\<rparr>,
      [CreateCompactionDaemon launcher, CreateProtoParsingDaemon launcher])"

text \<open>
  cobra's choice for the arguments of the process: \<open>Inr None\<close> is the root command, \<open>Inr (Some use)\<close>
  the subcommand of that name.
\<close>

type_synonym cobra = "string list \<Rightarrow> string list \<Rightarrow> error + string option"

definition Execute :: "cobra \<Rightarrow> ('w, 'p, 'c) Command \<times> ('w, 'p, 'c) Command list \<Rightarrow> string list \<Rightarrow> error + ('w, 'p, 'c) role" where
  "Execute select cmds args =
     (case select (map cmd_Use (snd cmds)) args of
        Inl err \<Rightarrow> Inl err
      | Inr None \<Rightarrow> Inr (cmd_Run (fst cmds))
      | Inr (Some use) \<Rightarrow> (case find (\<lambda>c. cmd_Use c = use) (snd cmds) of
          None \<Rightarrow> Inl (ErrorString (''unknown command '' @ use))
        | Some c \<Rightarrow> Inr (cmd_Run c)))"

text \<open>
  What \<open>main\<close> makes of the repositories before it executes the command: the services, the servers and
  the daemons.  \<open>SERVER_STATIC_TOKEN\<close> and \<open>tls.LoadX509KeyPair\<close> are the environment of the process.
\<close>

record 'c process_env =
  pe_token :: string
  pe_LoadX509KeyPair :: "string \<Rightarrow> string \<Rightarrow> error + 'c"

definition services_of :: "'p libraries \<Rightarrow> ('w, string) go \<Rightarrow> 'w RepositorySet \<Rightarrow> ('w, 'p) services" where
  "services_of lib rand repos = \<lparr>
     registryServer = \<lparr>registryRepository = rs_Registry repos, metadataRepository = rs_Metadata repos\<rparr>,
     usersServer = \<lparr>userRepo = rs_Users repos, aclRepo = rs_ACL repos, uuidLib = lib_uuid lib, rand_Read = rand\<rparr>,
     driftServer = rs_Drift repos,
     protoLib = lib_proto lib\<rparr>"

definition launcher :: "'c process_env \<Rightarrow> 'p libraries \<Rightarrow> ('w, string) go \<Rightarrow> ('w, instant) go \<Rightarrow> Config \<Rightarrow> 'w RepositorySet \<Rightarrow>
    ('s, ('w, 'p, 'c) Launcher) proc" where
  "launcher env lib rand time_Now cfg repos =
     (let srvs = services_of lib rand repos in
      andThen (NewGRPCServer (pe_LoadX509KeyPair env) (pe_token env) (Server cfg) srvs (Some (rs_Users repos)) (Some (rs_ACL repos))) (\<lambda>grpc.
      andThen (NewHTTPServer (pe_token env) (Server cfg) srvs (Some (rs_Users repos)) (Some (rs_ACL repos))) (\<lambda>http.
      yields \<lparr>la_config = cfg, la_grpc = grpc, la_http = http, la_debug = NewDebugServer (Server cfg),
        la_compactionDaemon = NewCompactionDaemon (rs_Registry repos),
        la_protoParsingDaemon = NewProtoParsingDaemon (rs_Metadata repos) (rs_Drift repos) (lib_proto lib) time_Now\<rparr>)))"

text \<open>An error of the command is logged and \<open>main\<close> returns, which closes the database.\<close>

definition run_command :: "cobra \<Rightarrow> string list \<Rightarrow> ('s, unit) proc \<Rightarrow> ('w, 'p, 'c) Launcher \<Rightarrow> ('s, ('w, 'p, 'c) role option) proc" where
  "run_command select args closeDB l =
     (case Execute select (CreateRootCommand l) args of
        Inl err \<Rightarrow> andThen closeDB (\<lambda>_. yields None)
      | Inr role \<Rightarrow> yields (Some role))"

datatype ('p, 'c) process =
    Exited
  | PgProcess "(pg_world, 'p, 'c) role"
  | LiteProcess "(lite_world, 'p, 'c) role"

definition process_of :: "('r \<Rightarrow> ('p, 'c) process) \<Rightarrow> 'r option \<Rightarrow> ('p, 'c) process" where
  "process_of f r = (case r of None \<Rightarrow> Exited | Some role \<Rightarrow> f role)"

text \<open>
  \<open>main\<close>: the process it leads to, with the database calls made on the way.  \<open>rand.Read\<close> is given for
  each kind of world; the clock is the world's.
\<close>

definition main :: "'v viper \<Rightarrow> string \<Rightarrow> driver_env \<Rightarrow> 'c process_env \<Rightarrow> 'p libraries \<Rightarrow>
    (pg_world, string) go \<Rightarrow> (lite_world, string) go \<Rightarrow> cobra \<Rightarrow> string list \<Rightarrow> (db_call list, ('p, 'c) process) proc" where
  "main vp embeddedConfigBytes denv env lib pg_rand lite_rand select args =
     andThen (MustLoad vp (NewLoader embeddedConfigBytes)) (\<lambda>cfg.
     andThen (Open (registeredDrivers denv lib) (Driver cfg) (DSN cfg)) (\<lambda>r.
     case r of
       Inl err \<Rightarrow> yields Exited
     | Inr (Postgres repos, closeDB) \<Rightarrow>
         andThen (launcher env lib pg_rand now cfg repos) (\<lambda>l.
         andThen (run_command select args closeDB l) (\<lambda>p. yields (process_of PgProcess p)))
     | Inr (SQLite repos, closeDB) \<Rightarrow>
         andThen (launcher env lib lite_rand now cfg repos) (\<lambda>l.
         andThen (run_command select args closeDB l) (\<lambda>p. yields (process_of LiteProcess p)))))"

end
