(* ===== verification/System.thy ===== *)
theory System
  imports Launch DaemonProps
begin

text \<open>
  The deployed system: the process that serves the API over gRPC and HTTP, the compaction daemon and
  the parsing daemon, three processes of the one command over one database.

  A step of the system is a request, with its headers, served by one of the two servers, a run of a daemon, the start or
  stop of a process, or a move of the environment (time passes, database calls start or stop to fail).
  A daemon whose run fails exits.  Requests and runs are taken one after the other.

  The locale \<open>repository_invariant\<close> is the interface between the repositories and the processes: an
  invariant that every repository call keeps, except for the calls a request has to name a module or a
  tag for, is kept by every request and every run.
\<close>

section \<open>Steps\<close>

record 'w system =
  database :: 'w
  serving :: bool
  compacting :: bool
  parsing :: bool

datatype system_event = Request "string \<Rightarrow> string" request | CompactionTick | ParsingTick | Restart | Elapse

definition served :: "('w, 'p, 'c) transport_server \<Rightarrow> (string \<Rightarrow> string) \<Rightarrow> request \<Rightarrow> ('w, reply) go" where
  "served srv header req = serve (ts_Services srv) (ts_Middleware srv) header req"

inductive system_step :: "('w, 'p, 'c) Launcher \<Rightarrow> ('w \<Rightarrow> 'w \<Rightarrow> bool) \<Rightarrow> system_event \<Rightarrow> 'w system \<Rightarrow> 'w system \<Rightarrow> bool"
  for l env where
  grpc_request: "serving s \<Longrightarrow> served (la_grpc l) header req (database s) = (r, w') \<Longrightarrow>
    system_step l env (Request header req) s (s\<lparr>database := w'\<rparr>)"
| http_request: "serving s \<Longrightarrow> served (la_http l) header req (database s) = (r, w') \<Longrightarrow>
    system_step l env (Request header req) s (s\<lparr>database := w'\<rparr>)"
| compaction_run: "compacting s \<Longrightarrow> daemon_task (la_compactionDaemon l) (database s) = (e, w') \<Longrightarrow>
    system_step l env CompactionTick s (s\<lparr>database := w', compacting := (e = Returns ())\<rparr>)"
| parsing_run: "parsing s \<Longrightarrow> daemon_task (la_protoParsingDaemon l) (database s) = (e, w') \<Longrightarrow>
    system_step l env ParsingTick s (s\<lparr>database := w', parsing := (e = Returns ())\<rparr>)"
| restart: "system_step l env Restart s (s\<lparr>serving := a, compacting := b, parsing := c\<rparr>)"
| elapse: "env (database s) w' \<Longrightarrow> system_step l env Elapse s (s\<lparr>database := w'\<rparr>)"

inductive system_run :: "('w, 'p, 'c) Launcher \<Rightarrow> ('w \<Rightarrow> 'w \<Rightarrow> bool) \<Rightarrow> system_event list \<Rightarrow> 'w system \<Rightarrow> 'w system \<Rightarrow> bool"
  for l env where
  no_event: "system_run l env [] s s"
| next_event: "system_step l env e s s1 \<Longrightarrow> system_run l env es s1 s2 \<Longrightarrow> system_run l env (e # es) s s2"

inductive_cases system_run_ConsE: "system_run l env (e # es) s s'"

section \<open>Invariants of the repositories\<close>

text \<open>A request whose deletion or listing, if it is one, is among the allowed ones.\<close>

fun admissible :: "(string \<Rightarrow> bool) \<Rightarrow> (string \<Rightarrow> string \<Rightarrow> bool) \<Rightarrow> (string \<Rightarrow> bool) \<Rightarrow> request \<Rightarrow> bool" where
  "admissible may_delete may_delete_tag may_list (DeleteModuleReq r) = may_delete (dmr_Name r)"
| "admissible may_delete may_delete_tag may_list (DeleteModuleTagReq r) = may_delete_tag (dtr_Name r) (dtr_Tag r)"
| "admissible may_delete may_delete_tag may_list (ListModulesReq r) = may_list (lmr_PageToken r)"
| "admissible may_delete may_delete_tag may_list _ = True"

lemmas service_defs = srv_RegisterModule_def srv_GetModule_def srv_ListModules_def srv_DeleteModule_def srv_PushModule_def
  srv_PullModule_def srv_DeleteModuleTag_def srv_GetModuleDependencies_def srv_GetMetadata_def
  srv_CreateUser_def srv_ListUsers_def srv_GetUser_def srv_UpdateUser_def srv_DeleteUser_def srv_RegenerateToken_def
  srv_GrantPermission_def srv_RevokePermission_def srv_ListUserPermissions_def
  srv_ListDriftEvents_def srv_GetModuleDriftEvents_def srv_GetModuleDependencyDriftStatus_def srv_AcknowledgeDriftEvent_def
  orInternal_def orUserNotFound_def generateToken_def reply_with_def Let_def

lemma keeps_case_list: "keeps I m \<Longrightarrow> (\<And>x xs. keeps I (f x xs)) \<Longrightarrow> keeps I (case z of [] \<Rightarrow> m | x # xs \<Rightarrow> f x xs)"
  by (cases z) simp_all

text \<open>The servers and daemons of a launcher that was made.\<close>

lemma launcher_made:
  assumes "launcher env lib rand time_Now cfg repos es = (Returns l, es')"
  shows "ts_Services (la_grpc l) = services_of lib rand repos" "ts_Services (la_http l) = services_of lib rand repos"
    and "serverMiddlewares (grpc_Auth (GRPC (Server cfg))) (pe_token env) (Some (rs_Users repos)) (Some (rs_ACL repos)) = Inr (ts_Middleware (la_grpc l))"
    and "serverMiddlewares (http_Auth (HTTP (Server cfg))) (pe_token env) (Some (rs_Users repos)) (Some (rs_ACL repos)) = Inr (ts_Middleware (la_http l))"
    and "Run (la_compactionDaemon l) = compaction_Run (rs_Registry repos)"
    and "Run (la_protoParsingDaemon l) = protoParsing_Run (rs_Metadata repos) (rs_Drift repos) (lib_proto lib) time_Now"
  using assms
  by (auto simp: launcher_def NewGRPCServer_def NewHTTPServer_def orFatal_def andThen_def Let_def
      NewCompactionDaemon_def NewProtoParsingDaemon_def split: ends.splits prod.splits sum.splits)

text \<open>
  The three predicates say of which modules and tags a deletion keeps the invariant, and with which
  page tokens a listing does.
\<close>

locale repository_invariant =
  fixes repos :: "'w RepositorySet"
    and I :: "'w \<Rightarrow> bool"
    and may_delete :: "string \<Rightarrow> bool"
    and may_delete_tag :: "string \<Rightarrow> string \<Rightarrow> bool"
    and may_list :: "string \<Rightarrow> bool"
  assumes registry_kept:
      "keeps I (RegisterModule (rs_Registry repos) n)"
      "keeps I (PushModule (rs_Registry repos) n t fs)"
      "keeps I (PullModule (rs_Registry repos) n t)"
      "keeps I (PushDraftModule (rs_Registry repos) n t fs ds)"
      "keeps I (PullDraftModule (rs_Registry repos) n t)"
      "keeps I (GetModule (rs_Registry repos) n)"
      "keeps I (GetModuleTagId (rs_Registry repos) n t)"
      "keeps I (AddModuleDependencies (rs_Registry repos) n t ds)"
      "keeps I (GetModuleDependencies (rs_Registry repos) n t)"
      "keeps I (GetTransitiveDependencies (rs_Registry repos) n t)"
      "keeps I (DeleteObsoleteDraftTags (rs_Registry repos))"
    and restricted_kept:
      "may_delete n \<Longrightarrow> keeps I (DeleteModule (rs_Registry repos) n)"
      "may_delete_tag n t \<Longrightarrow> keeps I (DeleteModuleTag (rs_Registry repos) n t)"
      "may_list tok \<Longrightarrow> keeps I (ListModules (rs_Registry repos) k tok)"
    and metadata_kept:
      "keeps I (GetUnprocessedTagIds (rs_Metadata repos))"
      "keeps I (GetProtoFilesForTagId (rs_Metadata repos) i)"
      "keeps I (SaveParsedProtoFiles (rs_Metadata repos) i ps)"
      "keeps I (GetParsedProtoFiles (rs_Metadata repos) i)"
      "keeps I (GetTagMetaByTagId (rs_Metadata repos) i)"
    and users_kept:
      "keeps I (CreateUser (rs_Users repos) u)"
      "keeps I (GetUser (rs_Users repos) i)"
      "keeps I (GetUserByToken (rs_Users repos) tok)"
      "keeps I (ListUsers (rs_Users repos) k off)"
      "keeps I (UpdateUser (rs_Users repos) u)"
      "keeps I (DeleteUser (rs_Users repos) i)"
    and acl_kept:
      "keeps I (GrantPermission (rs_ACL repos) a)"
      "keeps I (RevokePermission (rs_ACL repos) i n)"
      "keeps I (ListUserPermissions (rs_ACL repos) i)"
      "keeps I (CheckPermission (rs_ACL repos) i n p)"
      "keeps I (DeleteUserPermissions (rs_ACL repos) i)"
    and drift_kept:
      "keeps I (GetTagsWithoutHashes (rs_Drift repos))"
      "keeps I (ComputeAndStoreHashes (rs_Drift repos) i)"
      "keeps I (GetTagInfo (rs_Drift repos) i)"
      "keeps I (GetPreviousTagID (rs_Drift repos) m i)"
      "keeps I (GetFileHashesForTag (rs_Drift repos) i)"
      "keeps I (SaveDriftEvents (rs_Drift repos) es)"
      "keeps I (GetUnacknowledgedDriftEvents (rs_Drift repos))"
      "keeps I (AcknowledgeDriftEvent (rs_Drift repos) ev by)"
      "keeps I (GetDriftEventsForModule (rs_Drift repos) n t)"
      "keeps I (GetModuleDependencyDriftStatuses (rs_Drift repos) n t)"
begin

lemmas repository_kept = registry_kept metadata_kept users_kept acl_kept drift_kept

lemmas kept_rules = hoare_rules repository_kept

lemma keeps_dispatch:
  assumes "keeps I rand" and "admissible may_delete may_delete_tag may_list req"
  shows "keeps I (dispatch (services_of lib rand repos) ctx req)"
proof -
  note rules = kept_rules assms(1) keeps_case_list
  show ?thesis
    using assms(2)
    by (cases req; hypsubst;
        simp only: dispatch.simps admissible.simps services_of_def services.select_convs RegistryServer.select_convs UsersServer.select_convs service_defs;
        intro rules restricted_kept; assumption?)
qed

lemma keeps_middlewares:
  assumes "serverMiddlewares cfg tok (Some (rs_Users repos)) (Some (rs_ACL repos)) = Inr ms"
    and "\<And>ctx. keeps I (handler ctx req)"
  shows "keeps I (chain ms handler ctx req)"
proof -
  have authz: "keeps I (authz_handle (rs_ACL repos) handler ctx req)" for ctx
    unfolding authz_handle_def Let_def by (intro kept_rules assms(2))
  have acl: "keeps I (aclAuth tok (rs_Users repos) h ctx req)" if "\<And>ctx. keeps I (h ctx req)" for h :: "('w, 'r) Handler" and ctx
    unfolding aclAuth_def Let_def by (intro kept_rules that)
  have static: "keeps I (staticTokenAuth tok handler ctx req)"
    unfolding staticTokenAuth_def by (intro kept_rules assms(2))
  from assms(1) consider "ms = [noAuth]" | "ms = [staticTokenAuth tok]" | "ms = [aclAuth tok (rs_Users repos), authz_handle (rs_ACL repos)]"
    by (auto simp: serverMiddlewares_def CreateAuthMiddleware_def split: if_splits sum.splits)
  then show ?thesis
    by cases (simp_all add: noAuth_def [abs_def] assms(2) static acl authz)
qed

lemma keeps_compaction: "keeps I (compaction_Run (rs_Registry repos))"
  unfolding compaction_Run_def by (intro kept_rules)

lemma keeps_parsing:
  assumes "keeps I time_Now"
  shows "keeps I (protoParsing_Run (rs_Metadata repos) (rs_Drift repos) pl time_Now)"
proof -
  have "keeps I (parse_tags (rs_Metadata repos) pl ids d)" for ids d
    by (induction ids arbitrary: d) (simp_all only: parse_tags.simps, (intro kept_rules | assumption)+)
  then show ?thesis
    unfolding protoParsing_Run_def by (intro kept_rules keeps_runDriftDetection assms)
qed

lemma keeps_task: "keeps I (Run d) \<Longrightarrow> I w \<Longrightarrow> daemon_task d w = (e, w') \<Longrightarrow> I w'"
  by (auto simp: daemon_task_def split: prod.splits sum.splits dest: hoareD)

text \<open>Every event but a request that is not admissible keeps the invariant.\<close>

lemma step_kept:
  assumes "system_step l env e s s'" and "I (database s)"
    and l: "launcher penv lib rand time_Now cfg repos es = (Returns l, es')"
    and "keeps I rand" and "keeps I time_Now" and env: "\<And>w w'. I w \<Longrightarrow> env w w' \<Longrightarrow> I w'"
    and "\<And>header req. e = Request header req \<Longrightarrow> admissible may_delete may_delete_tag may_list req"
  shows "I (database s')"
  using assms(1,2,7)
proof (cases rule: system_step.cases)
  case (grpc_request header req r w')
  have "keeps I (served (la_grpc l) header req)"
    unfolding served_def serve_def launcher_made(1) [OF l]
    by (intro keeps_middlewares [OF launcher_made(3) [OF l]] keeps_dispatch assms(4) assms(7) [OF grpc_request(1)])
  with grpc_request assms(2) show ?thesis by (auto dest: hoareD)
next
  case (http_request header req r w')
  have "keeps I (served (la_http l) header req)"
    unfolding served_def serve_def launcher_made(2) [OF l]
    by (intro keeps_middlewares [OF launcher_made(4) [OF l]] keeps_dispatch assms(4) assms(7) [OF http_request(1)])
  with http_request assms(2) show ?thesis by (auto dest: hoareD)
next
  case (compaction_run e w')
  with keeps_task [of "la_compactionDaemon l"] keeps_compaction launcher_made(5) [OF l] assms(2) show ?thesis by auto
next
  case (parsing_run e w')
  with keeps_task [of "la_protoParsingDaemon l"] keeps_parsing [OF assms(5)] launcher_made(6) [OF l] assms(2) show ?thesis by auto
next
  case (elapse w')
  with env assms(2) show ?thesis by auto
qed (use assms(2) in simp)

lemma run_kept:
  assumes "system_run l env evs s s'" and "I (database s)"
    and "launcher penv lib rand time_Now cfg repos es = (Returns l, es')"
    and "keeps I rand" and "keeps I time_Now" and "\<And>w w'. I w \<Longrightarrow> env w w' \<Longrightarrow> I w'"
    and "\<And>header req. Request header req \<in> set evs \<Longrightarrow> admissible may_delete may_delete_tag may_list req"
  shows "I (database s')"
  using assms(1,2,7)
proof (induction rule: system_run.induct)
  case (next_event e s s1 es s2)
  have "I (database s1)" by (rule step_kept [OF next_event.hyps(1) next_event.prems(1) assms(3-6)]) (use next_event.prems(2) in auto)
  then show ?case by (rule next_event.IH) (use next_event.prems(2) in auto)
qed

end

end
