(* ===== verification/SystemProps.thy ===== *)
theory SystemProps
  imports System ServerProps
begin

text \<open>
  What holds of the whole system: the accounts, metadata and drift repositories leave the registry
  alone, so a tag keeps its files through everything the three processes do.
\<close>

section \<open>Statements that leave the registry alone\<close>

definition tag_core :: "'t tag_row \<Rightarrow> uuid \<times> uuid \<times> string" where
  "tag_core t = (t_id t, t_module_id t, t_tag t)"

definition file_core :: "'h protofile_row \<Rightarrow> uuid \<times> uuid \<times> string \<times> string" where
  "file_core p = (p_id p, p_tag_id p, p_filename p, p_content p)"

definition same_registry :: "('h, 't) db \<Rightarrow> ('h, 't) db \<Rightarrow> bool" where
  "same_registry d d' \<longleftrightarrow> modules d' = modules d \<and> map tag_core (tags d') = map tag_core (tags d) \<and>
     map file_core (protofiles d') = map file_core (protofiles d) \<and>
     dependencies d' = dependencies d \<and> draft_tags d' = draft_tags d"

lemma core_maps:
  "map t_id ts = map fst (map tag_core ts)"
  "map (\<lambda>t. (t_module_id t, t_tag t)) ts = map snd (map tag_core ts)"
  "map p_id ps = map fst (map file_core ps)"
  "map (\<lambda>p. (p_tag_id p, p_filename p)) ps = map (\<lambda>x. (fst (snd x), fst (snd (snd x)))) (map file_core ps)"
  "t_id ` set ts = fst ` set (map tag_core ts)"
  "t_module_id ` set ts = (fst \<circ> snd) ` set (map tag_core ts)"
  "p_tag_id ` set ps = (fst \<circ> snd) ` set (map file_core ps)"
  "p_id ` set ps = fst ` set (map file_core ps)"
  by (auto simp: tag_core_def file_core_def image_iff comp_def)

lemma same_registry_ok: "same_registry d d' \<Longrightarrow> registry_ok d' = registry_ok d"
  unfolding same_registry_def registry_ok_def schema_ok_def refs_ok_def core_maps by simp

lemma tag_files_core:
  "tag_files d i = map_of (map (\<lambda>x. snd (snd x)) (filter (\<lambda>x. fst (snd x) = i) (map file_core (protofiles d))))"
  by (simp add: tag_files_def filter_map comp_def file_core_def)

lemma tag_at_core:
  "tag_at d n t = (case filter (\<lambda>x. Some (fst (snd x)) = module_id_of d n \<and> snd (snd x) = t) (map tag_core (tags d)) of
     [] \<Rightarrow> None | x # _ \<Rightarrow> Some (fst x))"
  by (auto simp: tag_at_def filter_map comp_def tag_core_def split: list.splits)

lemma same_registry_contents: "same_registry d d' \<Longrightarrow> contents d' = contents d"
  by (simp only: same_registry_def contents_def [abs_def] tag_at_core tag_files_core [abs_def] module_id_of_def)

definition issued :: "('h, 't) world \<Rightarrow> uuid set" where
  "issued w = uuid_gen w ` {..<uuid_next w}"

text \<open>The registry is in order and has the contents \<open>R\<close>; the identifiers \<open>S\<close> have been handed out.\<close>

definition settled :: "registry \<Rightarrow> uuid set \<Rightarrow> ('h, 't) world \<Rightarrow> bool" where
  "settled R S w \<longleftrightarrow> reg_inv w \<and> contents (store w) = R \<and> S \<subseteq> issued w"

definition harmless :: "uuid set \<Rightarrow> ('h, 't, 'a) stmt \<Rightarrow> bool" where
  "harmless S s \<longleftrightarrow> (\<forall>d x d'. s d = Inr (x, d') \<longrightarrow> same_registry d d' \<and> db_ids d' \<subseteq> db_ids d \<union> S)"

lemma settled_exec:
  assumes "harmless S s"
  shows "keeps (settled R S) (exec s)"
proof (rule hoareI)
  fix w :: "('a, 'b) world" assume w: "settled R S w"
  show "settled R S (snd (exec s w))"
  proof (cases rule: exec_cases [of s w, OF prod.collapse [symmetric]])
    case (3 fs x d)
    with assms have "same_registry (store w) d" "db_ids d \<subseteq> db_ids (store w) \<union> S" by (auto simp: harmless_def)
    with w 3 same_registry_ok same_registry_contents show ?thesis
      by (auto simp: settled_def reg_inv_def uuids_ok_def issued_def)
  qed (use w in \<open>auto simp: settled_def reg_inv_def uuids_ok_def issued_def\<close>)
qed

lemma settled_reads:
  assumes "reads m"
  shows "keeps (settled R S) m"
proof (rule hoareI)
  fix w :: "('a, 'b) world" assume w: "settled R S w"
  have "snd (m w) = w\<lparr>faults := faults (snd (m w))\<rparr>" using assms by (simp add: reads_def)
  then obtain fs where "snd (m w) = w\<lparr>faults := fs\<rparr>" by blast
  with w show "settled R S (snd (m w))" by (simp add: settled_def reg_inv_def uuids_ok_def issued_def)
qed

text \<open>An identifier is handed out and then used.\<close>

lemma settled_newUUID:
  assumes "\<And>i. keeps (settled R (insert i S)) (f i)"
  shows "keeps (settled R S) (bindE newUUID f)"
proof (rule hoareI)
  fix w :: "('a, 'b) world" assume "settled R S w"
  then have "settled R (insert (uuid_gen w (uuid_next w)) S) (w\<lparr>uuid_next := Suc (uuid_next w)\<rparr>)"
    by (auto simp: settled_def reg_inv_def uuids_ok_def issued_def less_Suc_eq)
  with assms have "settled R (insert (uuid_gen w (uuid_next w)) S) (snd (f (uuid_gen w (uuid_next w)) (w\<lparr>uuid_next := Suc (uuid_next w)\<rparr>)))"
    by (rule keepsD)
  then show "settled R S (snd (bindE newUUID f w))" by (simp add: bindE_def newUUID_def settled_def)
qed

lemma settled_inTx:
  assumes "\<And>S'. S \<subseteq> S' \<Longrightarrow> keeps (settled R S') m"
  shows "keeps (settled R S) (inTx eb ec m)"
proof (rule hoareI)
  fix w :: "('a, 'b) world" assume w: "settled R S w"
  obtain b w1 where t1: "take_fault w = (b, w1)" by (cases "take_fault w")
  let ?S = "S \<union> db_ids (store w)"
  have w1: "settled R ?S w1" "store w1 = store w"
    using w take_fault_frame [of w] by (auto simp: t1 settled_def reg_inv_def uuids_ok_def issued_def)
  have undo: "settled R S (v\<lparr>store := store w\<rparr>)" if "settled R ?S v" for v
    using that w by (auto simp: settled_def reg_inv_def uuids_ok_def issued_def)
  obtain r w2 where m: "m w1 = (r, w2)" by (cases "m w1")
  with keepsD [OF assms, of ?S w1] w1 have w2: "settled R ?S w2" by simp
  obtain b' w3 where t2: "take_fault w2 = (b', w3)" by (cases "take_fault w2")
  have w3: "settled R ?S w3" using w2 take_fault_frame [of w2] by (simp add: t2 settled_def reg_inv_def uuids_ok_def issued_def)
  show "settled R S (snd (inTx eb ec m w))"
    using w1 undo [OF w2] undo [OF w3] w3 m t1 t2
    by (auto simp: inTx_def settled_def split: bool.splits sum.splits)
qed

section \<open>The calls of the other repositories\<close>

lemma same_registry_refl [simp]: "same_registry d d"
  by (simp add: same_registry_def)

lemma same_registry_updates [simp]:
  "same_registry d (d\<lparr>users := us\<rparr>)" "same_registry d (d\<lparr>acl := as\<rparr>)" "same_registry d (d\<lparr>users := us, acl := as\<rparr>)"
  "same_registry d (d\<lparr>drift_events := es\<rparr>)" "same_registry d (d\<lparr>proto_parsed_data := ps\<rparr>)" "same_registry d (d\<lparr>tag_meta := ms\<rparr>)"
  by (simp_all add: same_registry_def)

lemma harmless_accounts:
  "u_id u \<in> S \<Longrightarrow> harmless S (insert_user u)"
  "(\<And>r. u_id (f r) = u_id r) \<Longrightarrow> harmless S (update_users f i)"
  "harmless S (delete_users fk i)"
  "a_id a \<in> S \<Longrightarrow> harmless S (upsert_acl fk a)"
  "harmless S (delete_acl P)"
  by (auto simp: harmless_def insert_user_def update_users_def delete_users_def upsert_acl_def delete_acl_def db_ids_def Let_def
      image_iff simp del: clash_iff split: if_splits)

lemma harmless_returning: "harmless S s \<Longrightarrow> harmless S (returning_acl i n s)"
  by (fastforce simp: harmless_def returning_acl_def split: sum.splits prod.splits list.splits)

lemma harmless_metadata:
  "pp_id r \<in> S \<Longrightarrow> harmless S (upsert_parsed r)"
  "tm_id m \<in> S \<Longrightarrow> harmless S (upsert_meta m)"
  "harmless S (set_processed i)"
  by (auto simp: harmless_def upsert_parsed_def upsert_meta_def set_processed_def same_registry_def tag_core_def db_ids_def
      image_iff simp del: clash_iff split: if_splits)

lemma harmless_drift:
  "harmless S (set_hash h i)"
  "harmless S (acknowledge ts who i)"
  by (auto simp: harmless_def set_hash_def acknowledge_def same_registry_def file_core_def db_ids_def image_iff split: if_splits)

lemma db_ids_events: "db_ids (d\<lparr>drift_events := drift_events d @ new\<rparr>) = db_ids d \<union> de_id ` set new"
  by (simp add: db_ids_def image_Un ac_simps)

lemma harmless_insert_events:
  assumes "de_id ` set rows \<subseteq> S"
  shows "harmless S (insert_events hk fk rows)"
  unfolding harmless_def
proof (intro allI impI)
  fix d x d' assume "insert_events hk fk rows d = Inr (x, d')"
  then obtain new where "d' = d\<lparr>drift_events := drift_events d @ new\<rparr>" "set new \<subseteq> set rows" using insert_events_ok by blast
  with assms show "same_registry d d' \<and> db_ids d' \<subseteq> db_ids d \<union> S" by (auto simp: db_ids_events)
qed

lemma bindE_ret_left: "bindE (ret x) f = f x"
  by (rule ext) (simp add: bindE_def)

lemma settled_new_rows:
  assumes "\<And>rows. keeps (settled R (S \<union> de_id ` set rows)) (f rows)"
  shows "keeps (settled R S) (bindE (mapE es (new_row h tm)) f)"
  using assms
proof (induction es arbitrary: S f)
  case Nil
  from Nil [of "[]"] show ?case by (simp add: bindE_def hoare_def)
next
  case (Cons e es)
  have "keeps (settled R S) (bindE newUUID (\<lambda>i. bindE (mapE es (new_row h tm)) (\<lambda>rows. f (event_row_of h tm e i # rows))))"
  proof (rule settled_newUUID, rule Cons.IH)
    fix i rows
    show "keeps (settled R (insert i S \<union> de_id ` set rows)) (f (event_row_of h tm e i # rows))"
      using Cons.prems [of "event_row_of h tm e i # rows"] by (simp add: event_row_of_def insert_commute)
  qed
  then show ?case by (simp only: mapE.simps new_row_def [of h tm e] bindE_assoc bindE_ret_left)
qed

lemma settled_liftR: "keeps (settled R S) (liftR r)"
  by (cases r) (simp_all add: liftR_def hoare_def)

lemma settled_query: "keeps (settled R S) (query f)" "keeps (settled R S) (queryRows h)" "keeps (settled R S) (queryRow g)"
  by (intro settled_reads reads_rules)+

lemmas settled_rules = settled_newUUID settled_new_rows settled_inTx settled_query settled_liftR settled_exec
  harmless_accounts harmless_returning harmless_metadata harmless_drift harmless_insert_events hoare_rules

lemma settled_pg_users:
  "keeps (settled R S) (pg_CreateUser cr u)" "keeps (settled R S) (pg_GetUser i)" "keeps (settled R S) (pg_GetUserByToken cr t)"
  "keeps (settled R S) (pg_UpdateUser cr u)" "keeps (settled R S) (pg_DeleteUser i)" "keeps (settled R S) (pg_ListUsers k off)"
  unfolding pg_account_defs by (intro settled_rules; simp)+

lemma settled_pg_acl:
  "keeps (settled R S) (pg_GrantPermission a)" "keeps (settled R S) (pg_RevokePermission i n)"
  "keeps (settled R S) (pg_ListUserPermissions i)" "keeps (settled R S) (pg_CheckPermission i n p)"
  "keeps (settled R S) (pg_DeleteUserPermissions i)"
  unfolding pg_account_defs by (intro settled_rules; simp)+

lemma settled_lite_users:
  "keeps (settled R S) (lite_CreateUser ul u)" "keeps (settled R S) (lite_GetUser ul i)" "keeps (settled R S) (lite_GetUserByToken ul t)"
  "keeps (settled R S) (lite_ListUsers ul k off)" "keeps (settled R S) (lite_UpdateUser u)" "keeps (settled R S) (lite_DeleteUser i)"
  unfolding lite_account_defs by (intro settled_rules; simp)+

lemma settled_lite_acl:
  "keeps (settled R S) (lite_GrantPermission ul a)" "keeps (settled R S) (lite_RevokePermission i n)"
  "keeps (settled R S) (lite_ListUserPermissions ul i)" "keeps (settled R S) (lite_CheckPermission i n p)"
  "keeps (settled R S) (lite_DeleteUserPermissions i)"
  unfolding lite_account_defs lite_CheckPermission_def by (intro settled_rules; simp)+

lemma settled_metadata:
  "keeps (settled R S) pg_GetUnprocessedTagIds" "keeps (settled R S) (pg_GetProtoFilesForTagId i)"
  "keeps (settled R S) (pg_SaveParsedProtoFiles mc i ps)" "keeps (settled R S) (pg_GetParsedProtoFiles pl i)"
  "keeps (settled R S) (pg_GetTagMetaByTagId mc i)"
  unfolding pg_GetUnprocessedTagIds_def pg_GetProtoFilesForTagId_def pg_SaveParsedProtoFiles_def pg_GetParsedProtoFiles_def
    pg_GetTagMetaByTagId_def save_parsed_file_def parsed_file_def
  by (intro settled_rules; simp)+

lemma settled_statuses: "keeps (settled R S) (dependency_status r)"
  unfolding dependency_status_def newer_status_def Let_def by (intro settled_rules)

lemma settled_pg_drift:
  "keeps (settled R S) pg_GetTagsWithoutHashes" "keeps (settled R S) (pg_ComputeAndStoreHashes i)" "keeps (settled R S) (pg_GetTagInfo i)"
  "keeps (settled R S) (pg_GetPreviousTagID m i)" "keeps (settled R S) (pg_GetFileHashesForTag i)" "keeps (settled R S) (pg_SaveDriftEvents es)"
  "keeps (settled R S) pg_GetUnacknowledgedDriftEvents" "keeps (settled R S) (pg_GetDriftEventsForModule n t)"
  "keeps (settled R S) (pg_GetModuleDependencyDriftStatuses n t)"
  unfolding pg_GetTagsWithoutHashes_def pg_ComputeAndStoreHashes_def pg_GetTagInfo_def pg_GetPreviousTagID_def pg_GetFileHashesForTag_def
    pg_SaveDriftEvents_def pg_GetUnacknowledgedDriftEvents_def pg_GetDriftEventsForModule_def pg_GetModuleDependencyDriftStatuses_def Let_def
  by (intro settled_rules settled_statuses; simp)+

lemma settled_pg_acknowledge: "keeps (settled R S) (pg_AcknowledgeDriftEvent px ev who)"
proof -
  have "harmless S (\<lambda>d. case z of None \<Rightarrow> Inl ErrDB | Some i \<Rightarrow> acknowledge ts who i d)" for z ts
    using harmless_drift(2) by (cases z) (simp_all add: harmless_def)
  then show ?thesis unfolding pg_AcknowledgeDriftEvent_def by (intro settled_rules)
qed

lemma settled_lite_drift:
  "keeps (settled R S) lite_GetTagsWithoutHashes" "keeps (settled R S) (lite_ComputeAndStoreHashes i)" "keeps (settled R S) (lite_GetTagInfo i)"
  "keeps (settled R S) (lite_GetPreviousTagID m i)" "keeps (settled R S) (lite_GetFileHashesForTag i)" "keeps (settled R S) (lite_SaveDriftEvents es)"
  "keeps (settled R S) lite_GetUnacknowledgedDriftEvents" "keeps (settled R S) (lite_AcknowledgeDriftEvent ev who)"
  "keeps (settled R S) (lite_GetDriftEventsForModule n t)" "keeps (settled R S) (lite_GetModuleDependencyDriftStatuses n t)"
  unfolding lite_GetTagsWithoutHashes_def lite_ComputeAndStoreHashes_def lite_GetTagInfo_def lite_GetPreviousTagID_def lite_GetFileHashesForTag_def
    lite_SaveDriftEvents_def lite_GetUnacknowledgedDriftEvents_def lite_AcknowledgeDriftEvent_def lite_GetDriftEventsForModule_def
    lite_GetModuleDependencyDriftStatuses_def Let_def
  by (intro settled_rules settled_statuses; simp)+

section \<open>A tag keeps its files\<close>

definition tag_kept :: "string \<Rightarrow> string \<Rightarrow> files \<Rightarrow> ('h, 't) world \<Rightarrow> bool" where
  "tag_kept n t x w \<longleftrightarrow> reg_inv w \<and> (\<exists>ts. contents (store w) n = Some ts \<and> ts t = Some x)"

lemma settled_kept: "(\<And>R. keeps (settled R {}) m) \<Longrightarrow> keeps (tag_kept n t x) m"
  by (auto simp: hoare_def settled_def tag_kept_def)

context registry_repository
begin

lemma call_keeps_tag:
  assumes "\<And>w r w'. m w = (r, w') \<Longrightarrow> registry_step repo env c w w'" and "\<not> deletes c n t"
  shows "keeps (\<lambda>w. ok w \<and> (\<exists>ts. cont w n = Some ts \<and> ts t = Some x)) m"
proof (rule hoareI, elim conjE exE, intro conjI)
  fix w ts assume "ok w" "cont w n = Some ts" "ts t = Some x"
  moreover have "registry_step repo env c w (snd (m w))" by (rule assms(1)) (rule prod.collapse [symmetric])
  ultimately show "ok (snd (m w))" "\<exists>ts. cont (snd (m w)) n = Some ts \<and> ts t = Some x"
    using step_ok step_keeps_tag assms(2) by blast+
qed

lemma calls_keep_tag:
  fixes n t x
  defines "J \<equiv> \<lambda>w. ok w \<and> (\<exists>ts. cont w n = Some ts \<and> ts t = Some x)"
  shows "keeps J (RegisterModule repo n')" "keeps J (PushModule repo n' t' fs)" "keeps J (PullModule repo n' t')"
    "keeps J (PushDraftModule repo n' t' fs ds)" "keeps J (PullDraftModule repo n' t')" "keeps J (GetModule repo n')"
    "keeps J (GetModuleTagId repo n' t')" "keeps J (AddModuleDependencies repo n' t' ds)"
    "keeps J (GetModuleDependencies repo n' t')" "keeps J (GetTransitiveDependencies repo n' t')"
    "keeps J (DeleteObsoleteDraftTags repo)"
    "n' \<noteq> n \<Longrightarrow> keeps J (DeleteModule repo n')" "(n', t') \<noteq> (n, t) \<Longrightarrow> keeps J (DeleteModuleTag repo n' t')"
  unfolding J_def by (rule call_keeps_tag, erule registry_step.intros, simp)+

lemma list_keeps_tag:
  "safe_token tok \<Longrightarrow> keeps (\<lambda>w. ok w \<and> (\<exists>ts. cont w n = Some ts \<and> ts t = Some x)) (ListModules repo k tok)"
  by (rule call_keeps_tag, erule (1) do_list, simp)

end

text \<open>Both backends keep the files of a tag, whatever is called, unless the call deletes them.\<close>

lemma tag_kept_eq: "tag_kept n t x = (\<lambda>w. reg_inv w \<and> (\<exists>ts. contents (store w) n = Some ts \<and> ts t = Some x))"
  by (simp add: tag_kept_def fun_eq_iff)

lemmas repository_sels = RepositorySet.select_convs MetadataRepository.select_convs UserRepository.select_convs
  ACLRepository.select_convs DriftRepository.select_convs

interpretation pg_sys: repository_invariant "pg_repositories lib" "tag_kept n t x" "\<lambda>m. m \<noteq> n" "\<lambda>m u. (m, u) \<noteq> (n, t)" safe_token
  for lib n t x
proof (unfold_locales, goal_cases)
  case 12 then show ?case unfolding pg_repositories_def repository_sels by (intro pg.calls_keep_tag [folded tag_kept_eq])
next
  case 13 then show ?case unfolding pg_repositories_def repository_sels by (intro pg.calls_keep_tag [folded tag_kept_eq])
next
  case 14 then show ?case unfolding pg_repositories_def repository_sels by (rule pg.list_keeps_tag [folded tag_kept_eq])
qed (simp only: pg_repositories_def repository_sels,
  (intro pg.calls_keep_tag [folded tag_kept_eq] |
   (simp only: NewMetadataRepository_def NewUserRepository_def NewACLRepository_def NewDriftRepository_def repository_sels,
    intro settled_kept settled_metadata settled_pg_users settled_pg_acl settled_pg_drift settled_pg_acknowledge)))+

interpretation lite_sys: repository_invariant "lite_repositories lib" "tag_kept n t x" "\<lambda>m. m \<noteq> n" "\<lambda>m u. (m, u) \<noteq> (n, t)" safe_token
  for lib n t x
proof (unfold_locales, goal_cases)
  case 12 then show ?case unfolding lite_repositories_def repository_sels by (intro lite.calls_keep_tag [folded tag_kept_eq])
next
  case 13 then show ?case unfolding lite_repositories_def repository_sels by (intro lite.calls_keep_tag [folded tag_kept_eq])
next
  case 14 then show ?case unfolding lite_repositories_def repository_sels by (rule lite.list_keeps_tag [folded tag_kept_eq])
qed (simp only: lite_repositories_def repository_sels,
  (intro lite.calls_keep_tag [folded tag_kept_eq] |
   (simp only: lite_metadata_same NewMetadataRepository_def lite_NewUserRepository_def lite_NewACLRepository_def
      lite_NewDriftRepository_def repository_sels,
    intro settled_kept settled_metadata settled_lite_users settled_lite_acl settled_lite_drift)))+

lemma env_step_kept: "tag_kept n t x w \<Longrightarrow> env_step w w' \<Longrightarrow> tag_kept n t x w'"
  using env_step_frame by (auto simp: tag_kept_def)

lemma reads_kept: "reads m \<Longrightarrow> keeps (tag_kept n t x) m"
  by (intro settled_kept settled_reads)

text \<open>The requests that can take the files of the tag \<open>t\<close> of \<open>n\<close> away: the deletions of the tag and of
  the module, and a listing whose page token is pasted into the statement and leaves the literal there.\<close>

abbreviation spares :: "string \<Rightarrow> string \<Rightarrow> request \<Rightarrow> bool" where
  "spares n t \<equiv> admissible (\<lambda>m. m \<noteq> n) (\<lambda>m u. (m, u) \<noteq> (n, t)) safe_token"


text \<open>The configuration of config.yaml, as it is shipped, and a database with one tag.\<close>

definition demo_lib :: "unit libraries" where
  "demo_lib = \<lparr>lib_json = text_json, lib_pg_engine = no_injection, lib_lite_engine = no_injection, lib_meta = demo_mc,
     lib_proto = demo_pl, lib_pgcrypto = demo_crypto, lib_pgx = demo_px, lib_uuid = demo_uuid\<rparr>"

definition no_auth :: Auth where
  "no_auth = \<lparr>Enabled = False, AuthType = []\<rparr>"

definition demo_server_config :: "Auth \<Rightarrow> Server_config" where
  "demo_server_config auth = \<lparr>
     HTTP = \<lparr>http_Addr = ''0.0.0.0:8080'', http_Timeout = 30000000000, http_Auth = auth\<rparr>,
     GRPC = \<lparr>grpc_Addr = ''0.0.0.0:6777'', grpc_Timeout = 30000000000,
       grpc_TLS = \<lparr>tls_Enabled = False, tls_CertFile = [], tls_KeyFile = []\<rparr>, grpc_Auth = auth\<rparr>,
     Debug = \<lparr>debug_Addr = ''0.0.0.0:8082'', debug_Timeout = 10000000000\<rparr>\<rparr>"

definition demo_config :: "Auth \<Rightarrow> Config" where
  "demo_config auth = \<lparr>Server = demo_server_config auth, Driver = ''postgres'', DSN = ''postgres://localhost'',
     Compaction_Cron = ''0 * * * *'', ProtoParsing_Cron = ''*/1 * * * *'', DriftDetection_Cron = ''*/5 * * * *''\<rparr>"

definition demo_env :: "unit process_env" where
  "demo_env = \<lparr>pe_token = ''secret'', pe_LoadX509KeyPair = \<lambda>_ _. Inr ()\<rparr>"

lemma demo_starts:
  "\<exists>l. launcher demo_env demo_lib (ret ''r'') now (demo_config no_auth) (pg_repositories demo_lib) [] = (Returns l, [])"
  by (simp add: launcher_def NewGRPCServer_def NewHTTPServer_def createTLSConfig_def wrap_error_def orFatal_def
      serverMiddlewares_def CreateAuthMiddleware_def demo_config_def demo_server_config_def no_auth_def Let_def)


text \<open>The same of the SQLite backend.\<close>

lemma lite_system_tag_immutable:
  assumes "launcher penv lib rand now cfg (lite_repositories lib) calls = (Returns l, calls')" and "reads rand"
    and "system_run l env_step evs s s'" and "tag_kept n t x (database s)"
    and "\<forall>header req. Request header req \<in> set evs \<longrightarrow> spares n t req"
  shows "tag_kept n t x (database s')"
  using assms(3,4,1)
  by (rule lite_sys.run_kept) (use assms(2,5) in \<open>auto intro: reads_kept reads_rules env_step_kept\<close>)

end
