(* ===== verification/SystemAuth.thy ===== *)
theory SystemAuth
  imports SystemProps
begin

text \<open>
  Who can take a tag away from the running system.  The locale joins the two interfaces of the
  repositories, the invariant every call keeps and the accounts the middlewares consult: when both
  servers run in \<open>acl\<close> mode, the event that breaks the invariant is a request of somebody who was
  entitled to it when it was served.
\<close>

section \<open>Repositories behind the middlewares\<close>

definition acl_mode :: "Config \<Rightarrow> bool" where
  "acl_mode cfg \<longleftrightarrow> http_Auth (HTTP (Server cfg)) = acl_config \<and> grpc_Auth (GRPC (Server cfg)) = acl_config"

locale guarded_repositories =
  repository_invariant repos I may_delete may_delete_tag may_list +
  account_store "rs_Users repos" "rs_ACL repos" authentic may same
  for repos :: "'w RepositorySet" and I may_delete may_delete_tag may_list authentic may same +
  assumes same_kept: "I w \<Longrightarrow> same w w' \<Longrightarrow> I w'"
begin

lemma guarded_request:
  assumes "serverMiddlewares acl_config tok (Some (rs_Users repos)) (Some (rs_ACL repos)) = Inr ms"
    and "serve s ms header req w = (r, w')" and "I w" and "\<not> I w'"
  shows "entitled (authentic w) (may w) tok (header authorizationKey) req"
proof -
  have "ms = [aclAuth tok (rs_Users repos), authz_handle (rs_ACL repos)]"
    using assms(1) by (auto simp: serverMiddlewares_def CreateAuthMiddleware_def acl_config_def split: if_splits)
  with acl_chain_guard [of tok "dispatch s" header req w r w'] assms(2-4) same_kept show ?thesis
    by (auto simp: serve_def)
qed

lemma step_guarded:
  assumes "system_step l env e s s'" and "I (database s)" and "\<not> I (database s')"
    and l: "launcher penv lib rand time_Now cfg repos es = (Returns l, es')" and acl: "acl_mode cfg"
    and "keeps I rand" and "keeps I time_Now" and "\<And>w w'. I w \<Longrightarrow> env w w' \<Longrightarrow> I w'"
  shows "\<exists>header req. e = Request header req \<and> \<not> admissible may_delete may_delete_tag may_list req \<and>
    entitled (authentic (database s)) (may (database s)) (pe_token penv) (header authorizationKey) req"
proof -
  have "\<exists>header req. e = Request header req \<and> \<not> admissible may_delete may_delete_tag may_list req"
  proof (rule ccontr)
    assume "\<not> ?thesis"
    then have "I (database s')" by (intro step_kept [OF assms(1,2) l assms(6,7)]) (use assms(8) in blast)+
    with assms(3) show False ..
  qed
  then obtain header req where e: "e = Request header req" "\<not> admissible may_delete may_delete_tag may_list req" by blast
  note ms = launcher_made(3,4) [OF l] acl [unfolded acl_mode_def]
  from assms(1) show ?thesis
  proof (cases rule: system_step.cases)
    case (grpc_request header req r w')
    with guarded_request [of _ "ts_Middleware (la_grpc l)"] ms assms(2,3) e show ?thesis
      by (auto simp: served_def)
  next
    case (http_request header req r w')
    with guarded_request [of _ "ts_Middleware (la_http l)"] ms assms(2,3) e show ?thesis
      by (auto simp: served_def)
  qed (use e in simp_all)
qed

text \<open>The run is cut at the request that is responsible.\<close>

lemma run_guarded:
  assumes "system_run l env evs s s'" and "I (database s)" and "\<not> I (database s')"
    and "launcher penv lib rand time_Now cfg repos es = (Returns l, es')" and "acl_mode cfg"
    and "keeps I rand" and "keeps I time_Now" and "\<And>w w'. I w \<Longrightarrow> env w w' \<Longrightarrow> I w'"
  shows "\<exists>pre header req post s1. evs = pre @ Request header req # post \<and> system_run l env pre s s1 \<and>
    \<not> admissible may_delete may_delete_tag may_list req \<and>
    entitled (authentic (database s1)) (may (database s1)) (pe_token penv) (header authorizationKey) req"
  using assms(1-3)
proof (induction rule: system_run.induct)
  case (next_event e s s1 evs s2)
  show ?case
  proof (cases "I (database s1)")
    case True
    from next_event.IH [OF True next_event.prems(2)] obtain pre header req post s3 where
      "evs = pre @ Request header req # post" "system_run l env pre s1 s3"
      and who: "\<not> admissible may_delete may_delete_tag may_list req"
        "entitled (authentic (database s3)) (may (database s3)) (pe_token penv) (header authorizationKey) req" by blast
    then have "e # evs = (e # pre) @ Request header req # post" "system_run l env (e # pre) s s3"
      using system_run.next_event [OF next_event.hyps(1)] by simp_all
    with who show ?thesis by blast
  next
    case False
    have "\<exists>header req. e = Request header req \<and> \<not> admissible may_delete may_delete_tag may_list req \<and>
        entitled (authentic (database s)) (may (database s)) (pe_token penv) (header authorizationKey) req"
      by (rule step_guarded [OF next_event.hyps(1) next_event.prems(1) False assms(4-7)]) (rule assms(8))
    then show ?thesis using no_event [of l env s] by (metis append_Nil)
  qed
qed simp

end

section \<open>Both backends\<close>

lemma same_tables_kept: "tag_kept n t x w \<Longrightarrow> same_tables w w' \<Longrightarrow> tag_kept n t x w'"
  by (auto simp: tag_kept_def same_tables_def)

lemma repositories_accounts:
  "rs_Users (pg_repositories lib) = NewUserRepository (lib_pgcrypto lib)" "rs_ACL (pg_repositories lib) = NewACLRepository"
  "rs_Users (lite_repositories lib) = lite_NewUserRepository (lib_uuid lib)" "rs_ACL (lite_repositories lib) = lite_NewACLRepository (lib_uuid lib)"
  by (simp_all add: pg_repositories_def lite_repositories_def)

interpretation pg_guard: guarded_repositories "pg_repositories lib" "tag_kept n t x" "\<lambda>m. m \<noteq> n" "\<lambda>m u. (m, u) \<noteq> (n, t)" safe_token
  "pg_authentic (lib_pgcrypto lib)" "\<lambda>w. allowed (store w)" same_tables
  for lib n t x
proof (rule guarded_repositories.intro [OF pg_sys.repository_invariant_axioms])
  show "account_store (rs_Users (pg_repositories lib)) (rs_ACL (pg_repositories lib)) (pg_authentic (lib_pgcrypto lib)) (\<lambda>w. allowed (store w)) same_tables"
    unfolding repositories_accounts by (rule pg_acc.account_store_axioms)
qed (rule guarded_repositories_axioms.intro, rule same_tables_kept)

interpretation lite_guard: guarded_repositories "lite_repositories lib" "tag_kept n t x" "\<lambda>m. m \<noteq> n" "\<lambda>m u. (m, u) \<noteq> (n, t)" safe_token
  "lite_authentic (lib_uuid lib)" "\<lambda>w. allowed (store w)" same_tables
  for lib n t x
proof (rule guarded_repositories.intro [OF lite_sys.repository_invariant_axioms])
  show "account_store (rs_Users (lite_repositories lib)) (rs_ACL (lite_repositories lib)) (lite_authentic (lib_uuid lib)) (\<lambda>w. allowed (store w)) same_tables"
    unfolding repositories_accounts by (rule lite_acc.account_store_axioms)
qed (rule guarded_repositories_axioms.intro, rule same_tables_kept)

section \<open>Who took a tag away\<close>

inductive_simps system_run_Nil: "system_run l env [] s s'"

text \<open>The admin token, or the token of an active user who may do \<open>p\<close> on the module \<open>name\<close>.\<close>

definition permitted ::
  "(string \<Rightarrow> User \<Rightarrow> bool) \<Rightarrow> (uuid \<Rightarrow> string \<Rightarrow> Permission \<Rightarrow> bool) \<Rightarrow> string \<Rightarrow> string \<Rightarrow> string \<Rightarrow> Permission \<Rightarrow> bool" where
  "permitted authentic may adminToken authHeader name p \<longleftrightarrow> authHeader \<noteq> [] \<and>
     (header_token authHeader = adminToken \<or>
      (\<exists>u. authentic (header_token authHeader) u \<and> may (usr_ID u) name p))"

lemma entitled_required:
  "entitled authentic may adminToken authHeader req =
     permitted authentic may adminToken authHeader (snd (required req)) (fst (required req))"
  using required_nonempty [of req]
  by (cases "required req") (auto simp: entitled_def permitted_def getRequiredPermission_required)

fun removes :: "string \<Rightarrow> string \<Rightarrow> request \<Rightarrow> bool" where
  "removes n t (DeleteModuleReq r) = (dmr_Name r = n)"
| "removes n t (DeleteModuleTagReq r) = (dtr_Name r = n \<and> dtr_Tag r = t)"
| "removes n t _ = False"

lemma not_spares:
  assumes "\<not> spares n t req" and "n \<noteq> []"
  shows "removes n t req \<and> required req = (PermissionAdmin, n) \<or>
    (\<exists>r. req = ListModulesReq r \<and> \<not> safe_token (lmr_PageToken r)) \<and> required req = (PermissionRead, ''*'')"
  using assms by (cases req) (auto simp: or_wildcard_def)

text \<open>
  C2: in the running system only an authorised request takes a tag away (PostgreSQL).  When both
  servers run in \<open>acl\<close> mode and a tag has lost files after some run of the system, through whatever
  requests, daemon runs, restarts and failures of the database, then the run holds a request that
  deletes the tag or its module, whose sender had the admin token or, in the tables of that moment,
  the token of an active user with admin permission on the module; or it holds a listing whose page
  token leaves the SQL literal it is pasted into, whose sender had the admin token or permission to
  read every module.
\<close>

theorem pg_system_loss_authorised:
  assumes "launcher penv lib rand now cfg (pg_repositories lib) calls = (Returns l, calls')" and "acl_mode cfg" and "reads rand"
    and "system_run l env_step evs s s'" and "n \<noteq> []"
    and "reg_inv (database s)" and "contents (store (database s)) n = Some ts" and "ts t = Some x"
    and "\<nexists>ts'. contents (store (database s')) n = Some ts' \<and> ts' t = Some x"
  shows "\<exists>pre header req post s1. evs = pre @ Request header req # post \<and> system_run l env_step pre s s1 \<and>
    (let who = permitted (pg_authentic (lib_pgcrypto lib) (database s1)) (allowed (store (database s1))) (pe_token penv) (header authorizationKey) in
      removes n t req \<and> who n PermissionAdmin \<or>
      (\<exists>r. req = ListModulesReq r \<and> \<not> safe_token (lmr_PageToken r)) \<and> who ''*'' PermissionRead)"
proof -
  have "tag_kept n t x (database s)" "\<not> tag_kept n t x (database s')" using assms(6-9) by (auto simp: tag_kept_def)
  note guarded = pg_guard.run_guarded [OF assms(4) this assms(1,2) reads_kept [OF assms(3)] reads_kept [OF reads_basic(3)]]
  obtain pre header req post s1 where run: "evs = pre @ Request header req # post" "system_run l env_step pre s s1"
    and req: "\<not> spares n t req"
    and who: "entitled (pg_authentic (lib_pgcrypto lib) (database s1)) (allowed (store (database s1))) (pe_token penv) (header authorizationKey) req"
    using guarded env_step_kept by meson
  from not_spares [OF req assms(5)] who [unfolded entitled_required] run show ?thesis unfolding Let_def by (metis fst_conv snd_conv)
qed

text \<open>The shipped configuration in \<open>acl\<close> mode, and a request of the administrator that deletes the tag.\<close>

definition demo_tagged :: pg_world where
  "demo_tagged = snd (pg_PushModule ''m'' ''v1'' [f1] demo_pg)"

definition demo_delete :: request where
  "demo_delete = DeleteModuleTagReq \<lparr>dtr_Name = ''m'', dtr_Tag = ''v1''\<rparr>"

lemma demo_acl_starts:
  "\<exists>l. launcher demo_env demo_lib (ret ''r'') now (demo_config acl_config) (pg_repositories demo_lib) [] = (Returns l, [])"
  by (simp add: launcher_def NewGRPCServer_def NewHTTPServer_def createTLSConfig_def wrap_error_def orFatal_def demo_env_def
      serverMiddlewares_def CreateAuthMiddleware_def demo_config_def demo_server_config_def acl_config_def Let_def)

theorem pg_system_loss_authorised_witness:
  "\<exists>(l :: (pg_world, unit, unit) Launcher) s s'.
     system_run l env_step [Request (bearer ''secret'') demo_delete] s s' \<and> contents (store (database s')) ''m'' \<noteq> contents (store (database s)) ''m'' \<and>
     permitted (pg_authentic demo_crypto demo_tagged) (allowed (store demo_tagged)) ''secret'' (bearer ''secret'' authorizationKey) ''m'' PermissionAdmin"
proof -
  obtain l where l: "launcher demo_env demo_lib (ret ''r'') now (demo_config acl_config) (pg_repositories demo_lib) [] = (Returns l, [])"
    using demo_acl_starts by blast
  let ?s = "\<lparr>database = demo_tagged, serving = True, compacting = True, parsing = True\<rparr>"
  let ?ms = "[aclAuth ''secret'' (NewUserRepository demo_crypto), authz_handle NewACLRepository]"
  let ?run = "serve (services_of demo_lib (ret ''r'') (pg_repositories demo_lib)) ?ms (bearer ''secret'') demo_delete demo_tagged"
  have "ts_Middleware (la_grpc l) = ?ms"
    using launcher_made(3) [OF l] by (simp add: serverMiddlewares_def CreateAuthMiddleware_def demo_config_def demo_server_config_def
        acl_config_def demo_env_def repositories_accounts demo_lib_def)
  then have "served (la_grpc l) (bearer ''secret'') demo_delete demo_tagged = ?run"
    by (simp add: served_def launcher_made(1) [OF l])
  then have "system_step l env_step (Request (bearer ''secret'') demo_delete) ?s (?s\<lparr>database := snd ?run\<rparr>)"
    by (intro grpc_request [where r = "fst ?run"]) simp_all
  then have step: "system_run l env_step [Request (bearer ''secret'') demo_delete] ?s (?s\<lparr>database := snd ?run\<rparr>)"
    by (rule next_event [OF _ no_event])
  have gone: "tag_at (store (snd ?run)) ''m'' ''v1'' = None" by code_simp
  obtain m where push: "pg_PushModule ''m'' ''v1'' [f1] demo_pg = (Inr m, demo_tagged)" using demo_push by (auto simp: demo_tagged_def)
  from pg.push [OF demo_pg_inv, unfolded NewRegistryRepository_sel, OF push]
  obtain ts where w1: "reg_inv demo_tagged" "contents (store demo_tagged) ''m'' = Some ts" "ts ''v1'' = Some (files_map [f1])" by auto
  have lost: "\<nexists>ts'. contents (store (snd ?run)) ''m'' = Some ts' \<and> ts' ''v1'' = Some (files_map [f1])"
    using gone by (auto simp: contents_Some)
  have "acl_mode (demo_config acl_config)" by (simp add: acl_mode_def demo_config_def demo_server_config_def)
  from pg_system_loss_authorised [OF l this _ step, of "''m''" ts "''v1''" "files_map [f1]"] w1 lost
  have "permitted (pg_authentic demo_crypto demo_tagged) (allowed (store demo_tagged)) ''secret'' (bearer ''secret'' authorizationKey) ''m'' PermissionAdmin"
    by (auto simp: Cons_eq_append_conv system_run_Nil demo_delete_def Let_def demo_lib_def demo_env_def intro: reads_basic(1))
  moreover have "contents (store (snd ?run)) ''m'' \<noteq> contents (store demo_tagged) ''m''" using lost w1 by auto
  ultimately show ?thesis using step by force
qed

end
