(* ===== verification/LaunchProps.thy ===== *)
theory LaunchProps
  imports SystemProps
begin

text \<open>
  The properties of start-up and of the daemons' processes: which backend is opened and what is
  released when it is not, when a process starts, and what a tag that cannot be parsed does to the
  parsing daemon.
\<close>

section \<open>Opening the database\<close>

text \<open>How each of the two drivers ends, and the connections it leaves open.\<close>

definition goose_fails :: "driver_env \<Rightarrow> error \<Rightarrow> bool" where
  "goose_fails env e \<longleftrightarrow> (\<exists>x. goose_SetDialect env x = Some e \<or> goose_Up env x = Some e)"

lemma pg_open_cases:
  assumes "openPostgres env lib dsn [] = (res, calls)"
  shows "(\<exists>e. res = Panics e \<and> goose_fails env e) \<or>
    (\<exists>e. res = Returns (Inl e) \<and> open_conns calls {} = {}) \<or>
    res = Returns (Inr (Postgres (pg_repositories lib), record_call (Closed PgxPool))) \<and>
      open_conns calls {} = {PgxPool} \<and> Migrated MigrationDB ''.'' \<in> set calls"
  using assms unfolding goose_fails_def by (auto simp: startup_defs split: option.splits)

lemma lite_open_cases:
  assumes "openSQLite env lib dsn [] = (res, calls)"
  shows "(\<exists>e. res = Panics e \<and> goose_fails env e) \<or>
    (\<exists>e. res = Returns (Inl e) \<and> open_conns calls {} = {}) \<or>
    res = Returns (Inr (SQLite (lite_repositories lib), record_call (Closed SqliteDB))) \<and>
      open_conns calls {} = {SqliteDB} \<and> Migrated SqliteDB ''sqlite'' \<in> set calls"
  using assms unfolding goose_fails_def by (auto simp: startup_defs split: option.splits)

lemma Open_cases:
  "driver \<in> {[], ''postgres''} \<Longrightarrow> Open (registeredDrivers env lib) driver dsn = openPostgres env lib dsn"
  "Open (registeredDrivers env lib) ''sqlite'' dsn = openSQLite env lib dsn"
  "driver \<notin> {[], ''postgres'', ''sqlite''} \<Longrightarrow>
    Open (registeredDrivers env lib) driver dsn = yields (Inl (ErrorString (''unknown database driver '' @ driver)))"
  by (auto simp: Open_def registeredDrivers_def RegisterDriver_def)

lemma record_call_snd [simp]: "snd (record_call c calls) = calls @ [c]"
  by (simp add: record_call_def)

text \<open>
  C37: opening the database, whatever the drivers answer.  The empty name and \<open>postgres\<close> select the
  PostgreSQL repositories, \<open>sqlite\<close> the SQLite ones, any other name is an error and nothing is
  touched.  An error leaves no connection open.  After a success the schema has been migrated, exactly
  one connection is open, and the returned function closes it.  Only a migration that fails panics.
\<close>

theorem open_releases:
  "case Open (registeredDrivers env lib) driver dsn [] of (res, calls) \<Rightarrow>
     (case res of
        Fatal e \<Rightarrow> False
      | Panics e \<Rightarrow> driver \<in> {[], ''postgres'', ''sqlite''} \<and> goose_fails env e
      | Returns (Inl e) \<Rightarrow> open_conns calls {} = {} \<and> (driver \<in> {[], ''postgres'', ''sqlite''} \<or> calls = [])
      | Returns (Inr (Postgres repos, close)) \<Rightarrow> driver \<in> {[], ''postgres''} \<and> repos = pg_repositories lib \<and>
          Migrated MigrationDB ''.'' \<in> set calls \<and> open_conns calls {} = {PgxPool} \<and> open_conns (snd (close calls)) {} = {}
      | Returns (Inr (SQLite repos, close)) \<Rightarrow> driver = ''sqlite'' \<and> repos = lite_repositories lib \<and>
          Migrated SqliteDB ''sqlite'' \<in> set calls \<and> open_conns calls {} = {SqliteDB} \<and> open_conns (snd (close calls)) {} = {})"
proof -
  consider "driver \<in> {[], ''postgres''}" | "driver = ''sqlite''" | "driver \<notin> {[], ''postgres'', ''sqlite''}" by blast
  then show ?thesis
  proof cases
    case 1
    obtain res calls where run: "openPostgres env lib dsn [] = (res, calls)" by fastforce
    with pg_open_cases [OF run] 1 show ?thesis by (elim disjE conjE exE) (simp_all add: Open_cases(1) [OF 1], blast+)
  next
    case 2
    obtain res calls where run: "openSQLite env lib dsn [] = (res, calls)" by fastforce
    with 2 lite_open_cases [OF run] show ?thesis by (elim disjE conjE exE) (simp_all add: Open_cases(2))
  next
    case 3
    then show ?thesis by (simp add: Open_cases)
  qed
qed

section \<open>Starting a process\<close>

text \<open>What a server needs of its configuration and of the environment.\<close>

definition auth_ok :: "string \<Rightarrow> Auth \<Rightarrow> bool" where
  "auth_ok tok a \<longleftrightarrow> \<not> Enabled a \<or> AuthType a \<in> {''static-token'', ''acl''} \<and> tok \<noteq> []"

definition tls_ok :: "(string \<Rightarrow> string \<Rightarrow> error + 'c) \<Rightarrow> TLS \<Rightarrow> bool" where
  "tls_ok load t \<longleftrightarrow> \<not> tls_Enabled t \<or> \<not> isl (load (tls_CertFile t) (tls_KeyFile t))"

lemma serverMiddlewares_cases:
  "(\<exists>ms. serverMiddlewares a tok (Some ur) (Some ar) = Inr ms) \<and> auth_ok tok a \<or>
   (\<exists>e. serverMiddlewares a tok (Some ur) (Some ar) = Inl e) \<and> \<not> auth_ok tok a"
  by (auto simp: serverMiddlewares_def CreateAuthMiddleware_def auth_ok_def)

lemma createTLSConfig_cases:
  "(\<exists>t. createTLSConfig load cfg = Inr t) \<and> tls_ok load (grpc_TLS (GRPC cfg)) \<or>
   (\<exists>e. createTLSConfig load cfg = Inl e) \<and> \<not> tls_ok load (grpc_TLS (GRPC cfg))"
  by (auto simp: createTLSConfig_def tls_ok_def Let_def split: sum.splits)

definition startable :: "'c process_env \<Rightarrow> Config \<Rightarrow> bool" where
  "startable env cfg \<longleftrightarrow> tls_ok (pe_LoadX509KeyPair env) (grpc_TLS (GRPC (Server cfg))) \<and>
     auth_ok (pe_token env) (grpc_Auth (GRPC (Server cfg))) \<and> auth_ok (pe_token env) (http_Auth (HTTP (Server cfg)))"

lemma launcher_cases:
  fixes repos :: "'w RepositorySet"
  shows "(\<exists>l. launcher env lib rand time_Now cfg repos es = (Returns l, es)) \<and> startable env cfg \<or>
   (\<exists>e. launcher env lib rand time_Now cfg repos es = (Fatal e, es)) \<and> \<not> startable env cfg"
proof -
  let ?ms = "\<lambda>a. serverMiddlewares a (pe_token env) (Some (rs_Users repos)) (Some (rs_ACL repos)) :: error + ('w, reply) Middleware list"
  have ms: "(\<exists>ms. ?ms a = Inr ms) \<and> auth_ok (pe_token env) a \<or> (\<exists>e. ?ms a = Inl e) \<and> \<not> auth_ok (pe_token env) a" for a
    by (rule serverMiddlewares_cases)
  show ?thesis
    using createTLSConfig_cases [of "pe_LoadX509KeyPair env" "Server cfg"]
      ms [of "grpc_Auth (GRPC (Server cfg))"] ms [of "http_Auth (HTTP (Server cfg))"]
    by (elim disjE conjE exE) (simp_all add: launcher_def NewGRPCServer_def NewHTTPServer_def wrap_error_def orFatal_def
      andThen_def Let_def startable_def)
qed

lemma launcher_config: "launcher env lib rand time_Now cfg repos es = (Returns l, es') \<Longrightarrow> la_config l = cfg"
  by (auto simp: launcher_def NewGRPCServer_def NewHTTPServer_def orFatal_def andThen_def Let_def split: ends.splits prod.splits sum.splits)

text \<open>The process that the selected command stands for.\<close>

definition command_role :: "string option \<Rightarrow> ('w, 'p, 'c) Launcher \<Rightarrow> ('w, 'p, 'c) role" where
  "command_role use l = (case use of
     None \<Rightarrow> MainApp (la_grpc l) (la_http l) (la_debug l)
   | Some u \<Rightarrow> if u = ''compaction'' then BackgroundDaemon (Compaction_Cron (la_config l)) (la_compactionDaemon l) (la_debug l)
               else BackgroundDaemon (ProtoParsing_Cron (la_config l)) (la_protoParsingDaemon l) (la_debug l))"

lemma Execute_role:
  assumes "select [''compaction'', ''proto-parsing''] args = Inr use" and "use \<in> {None, Some ''compaction'', Some ''proto-parsing''}"
  shows "Execute select (CreateRootCommand l) args = Inr (command_role use l)"
  using assms by (auto simp: Execute_def CreateRootCommand_def CreateCompactionDaemon_def CreateProtoParsingDaemon_def command_role_def)

text \<open>
  C38: when a process starts, with the PostgreSQL driver.  Once the configuration is loaded and the
  database open, every command, a daemon like the API server, starts exactly when the TLS key pair
  loads or TLS is off, and the authentication of both servers is off or of a known type with
  \<open>SERVER_STATIC_TOKEN\<close> set; otherwise the process exits.  Both servers then run the middlewares of
  their configuration over the repositories that were opened, and a daemon runs on its own schedule.
\<close>

theorem main_starts:
  assumes "MustLoad vp (NewLoader bytes) [] = (Returns cfg, [] :: db_call list)"
    and "Open (registeredDrivers denv lib) (Driver cfg) (DSN cfg) [] = (Returns (Inr (Postgres repos, close)), calls)"
    and "select [''compaction'', ''proto-parsing''] args = Inr use" and "use \<in> {None, Some ''compaction'', Some ''proto-parsing''}"
  shows "if startable env cfg
    then \<exists>l. main vp bytes denv env lib pg_rand lite_rand select args [] = (Returns (PgProcess (command_role use l)), calls) \<and>
      serverMiddlewares (grpc_Auth (GRPC (Server cfg))) (pe_token env) (Some (rs_Users repos)) (Some (rs_ACL repos)) = Inr (ts_Middleware (la_grpc l)) \<and>
      serverMiddlewares (http_Auth (HTTP (Server cfg))) (pe_token env) (Some (rs_Users repos)) (Some (rs_ACL repos)) = Inr (ts_Middleware (la_http l)) \<and>
      la_config l = cfg \<and> Run (la_compactionDaemon l) = compaction_Run (rs_Registry repos) \<and>
      Run (la_protoParsingDaemon l) = protoParsing_Run (rs_Metadata repos) (rs_Drift repos) (lib_proto lib) now
    else \<exists>e. main vp bytes denv env lib pg_rand lite_rand select args [] = (Fatal e, calls)"
proof -
  have main: "main vp bytes denv env lib pg_rand lite_rand select args [] =
      andThen (launcher env lib pg_rand now cfg repos) (\<lambda>l.
        andThen (run_command select args close l) (\<lambda>p. yields (process_of PgProcess p))) calls"
    unfolding main_def using assms(1,2) by simp
  from launcher_cases [of env lib pg_rand now cfg repos calls] show ?thesis
  proof (elim disjE conjE exE)
    fix l assume l: "launcher env lib pg_rand now cfg repos calls = (Returns l, calls)" and "startable env cfg"
    moreover have "main vp bytes denv env lib pg_rand lite_rand select args [] = (Returns (PgProcess (command_role use l)), calls)"
      using l Execute_role [where select = select and args = args and l = l, OF assms(3,4)] by (simp add: main run_command_def andThen_def process_of_def)
    ultimately show ?thesis using launcher_made [OF l] launcher_config [OF l] by auto
  qed (simp add: main andThen_def)
qed

text \<open>A viper that returns one configuration; access control with a token; the arguments select by name.\<close>

definition demo_viper :: "Config \<Rightarrow> unit viper" where
  "demo_viper cfg = \<lparr>viper_New = (), SetConfigType = \<lambda>_ _. (), SetEnvPrefix = \<lambda>_ _. (), SetDefault = \<lambda>_ _ _. (),
     AutomaticEnv = \<lambda>_. (), SetEnvKeyReplacer = \<lambda>_ _. (), ReadConfig = \<lambda>_ _. Inr (), Unmarshal = \<lambda>_. Inr cfg\<rparr>"

definition demo_drivers :: driver_env where
  "demo_drivers = \<lparr>pgxpool_New = \<lambda>_. None, sql_Open = \<lambda>_ _. None, db_Exec = \<lambda>_. None, db_Close = None,
     goose_SetDialect = \<lambda>_. None, goose_Up = \<lambda>_. None\<rparr>"

definition demo_cobra :: cobra where
  "demo_cobra uses args = (case args of [] \<Rightarrow> Inr None | a # _ \<Rightarrow> if a \<in> set uses then Inr (Some a) else Inl (ErrorString ''unknown command''))"

definition acl_auth :: Auth where
  "acl_auth = \<lparr>Enabled = True, AuthType = ''acl''\<rparr>"

lemma demo_opens:
  "Open (registeredDrivers demo_drivers demo_lib) ''postgres'' dsn [] =
     (Returns (Inr (Postgres (pg_repositories demo_lib), record_call (Closed PgxPool))),
      [Opened PgxPool, Opened MigrationDB, Migrated MigrationDB ''.'', Closed MigrationDB])"
  by (simp add: Open_cases(1) startup_defs demo_drivers_def)

theorem main_starts_witness:
  "\<exists>(l :: (pg_world, unit, unit) Launcher) calls.
     main (demo_viper (demo_config acl_auth)) ''server:'' demo_drivers demo_env demo_lib (ret []) (ret []) demo_cobra [''compaction''] [] =
       (Returns (PgProcess (BackgroundDaemon ''0 * * * *'' (la_compactionDaemon l) (la_debug l))), calls) \<and>
     (\<exists>e. main (demo_viper (demo_config acl_auth)) ''server:'' demo_drivers (demo_env\<lparr>pe_token := []\<rparr>) demo_lib (ret []) (ret []) demo_cobra [''compaction''] [] =
       (Fatal e, calls))"
proof -
  let ?cfg = "demo_config acl_auth"
  have load: "MustLoad (demo_viper ?cfg) (NewLoader ''server:'') [] = (Returns ?cfg, [] :: db_call list)"
    by (simp add: MustLoad_def decorateViper_def NewLoader_def demo_viper_def Let_def)
  have opens: "Open (registeredDrivers demo_drivers demo_lib) (Driver ?cfg) (DSN ?cfg) [] = (Returns (Inr (Postgres (pg_repositories demo_lib),
      record_call (Closed PgxPool))), [Opened PgxPool, Opened MigrationDB, Migrated MigrationDB ''.'', Closed MigrationDB])"
    using demo_opens by (simp add: demo_config_def)
  have cobra: "demo_cobra [''compaction'', ''proto-parsing''] [''compaction''] = Inr (Some ''compaction'')" by (simp add: demo_cobra_def)
  have good: "startable demo_env ?cfg" and bad: "\<not> startable (demo_env\<lparr>pe_token := []\<rparr>) ?cfg"
    by (simp_all add: startable_def tls_ok_def auth_ok_def demo_config_def demo_server_config_def acl_auth_def demo_env_def)
  show ?thesis
    using main_starts [where select = demo_cobra and args = "[''compaction'']" and env = demo_env and pg_rand = "ret []" and lite_rand = "ret []", OF load opens cobra] good
      main_starts [where select = demo_cobra and args = "[''compaction'']" and env = "demo_env\<lparr>pe_token := []\<rparr>" and pg_rand = "ret []" and lite_rand = "ret []", OF load opens cobra] bad
    by (auto simp: command_role_def demo_config_def)
qed

section \<open>A tag that cannot be parsed\<close>

lemma healthy_exec: "keeps healthy (exec s)"
  by (auto simp: hoare_def exec_def split: sum.splits)

lemma healthy_inTx: "keeps healthy m \<Longrightarrow> keeps healthy (inTx eb ec m)"
  by (auto simp: hoare_def inTx_def split: prod.splits sum.splits bool.splits)

lemma healthy_save: "keeps healthy (pg_SaveParsedProtoFiles mc i files)"
proof -
  have uuid: "keeps healthy newUUID" by (simp add: hoare_def newUUID_def)
  have lift: "keeps healthy (liftR r)" for r :: "error + 'z" by (cases r) (simp_all add: liftR_def hoare_def)
  show ?thesis
    unfolding pg_SaveParsedProtoFiles_def save_parsed_file_def
    by (intro healthy_inTx healthy_exec uuid lift hoare_rules)
qed

definition files_of :: "('h, 't) db \<Rightarrow> uuid \<Rightarrow> ProtoFile list" where
  "files_of d i = map (\<lambda>p. \<lparr>pf_Filename = p_filename p, pf_Content = p_content p\<rparr>) (filter (\<lambda>p. p_tag_id p = i) (protofiles d))"

definition processed :: "uuid set \<Rightarrow> 't tag_row list \<Rightarrow> 't tag_row list" where
  "processed M ts = map (\<lambda>t. if t_id t \<in> M then t\<lparr>t_is_processed := True\<rparr> else t) ts"

lemma processed_insert: "processed M (processed {i} ts) = processed (insert i M) ts"
  by (auto simp: processed_def)

lemma processed_empty [simp]: "processed {} ts = ts"
  by (simp add: processed_def)

lemma save_marks:
  fixes w :: "('h, 't) world"
  assumes "faults w = []" and "pg_SaveParsedProtoFiles mc i files w = (r, w')"
  shows "faults w' = []" and "protofiles (store w') = protofiles (store w)"
    and "tags (store w') = (case r of Inl _ \<Rightarrow> tags (store w) | Inr _ \<Rightarrow> processed {i} (tags (store w)))"
proof -
  show "faults w' = []" using keepsD [OF healthy_save, of w mc i files] assms by simp
  have saved: "saved mc i files w r w'" by (rule wpD [OF save_parsed_wp assms(2)])
  have "store w' = store w \<and> isl r \<or> \<not> isl r \<and> (\<exists>ps ms. store w' = (store w)\<lparr>proto_parsed_data := ps, tag_meta := ms, tags := processed {i} (tags (store w))\<rparr>)"
    using saved unfolding saved_def processed_def by (cases r) (auto cong: if_cong)
  then show "protofiles (store w') = protofiles (store w)"
    and "tags (store w') = (case r of Inl _ \<Rightarrow> tags (store w) | Inr _ \<Rightarrow> processed {i} (tags (store w)))"
    by (auto split: sum.splits)
qed

lemma files_read:
  "faults w = [] \<Longrightarrow> GetProtoFilesForTagId (NewMetadataRepository mc pl) i w = (Inr (files_of (store w) i), w)"
  by (simp add: NewMetadataRepository_def pg_GetProtoFilesForTagId_def attempt_def files_of_def)

text \<open>The loop over the tags stops at the tag, with some of the tags before it marked.\<close>

lemma parse_tags_stops:
  fixes w :: "('h, 't) world"
  assumes "faults w = []" and "ParseProtoFilesContents pl' (files_of (store w) i) = Inl err"
  shows "\<exists>e w' M. parse_tags (NewMetadataRepository mc pl) pl' (pre @ i # post) acc w = (Inl e, w') \<and> M \<subseteq> set pre \<and>
    faults w' = [] \<and> protofiles (store w') = protofiles (store w) \<and> tags (store w') = processed M (tags (store w))"
  using assms
proof (induction pre arbitrary: acc w)
  case Nil
  then show ?case by (intro exI [of _ err] exI [of _ w] exI [of _ "{}"]) (simp add: attempt_def files_read)
next
  case (Cons j pre)
  show ?case
  proof (cases "ParseProtoFilesContents pl' (files_of (store w) j)")
    case (Inl e)
    with Cons.prems(1) show ?thesis by (intro exI [of _ e] exI [of _ w] exI [of _ "{}"]) (simp add: attempt_def files_read)
  next
    case parsed: (Inr ps)
    obtain r w1 where save: "pg_SaveParsedProtoFiles mc j ps w = (r, w1)" by fastforce
    note w1 = save_marks [OF Cons.prems(1) save]
    have step: "parse_tags (NewMetadataRepository mc pl) pl' ((j # pre) @ i # post) acc w =
        (case r of Inl e \<Rightarrow> (Inl e, w1) | Inr _ \<Rightarrow> parse_tags (NewMetadataRepository mc pl) pl' (pre @ i # post) (acc @ [j]) w1)"
      using Cons.prems(1) parsed save by (simp add: attempt_def bindE_def files_read) (simp add: NewMetadataRepository_def split: sum.splits)
    show ?thesis
    proof (cases r)
      case (Inl e)
      with w1 step show ?thesis by (intro exI [of _ e] exI [of _ w1] exI [of _ "{}"]) simp
    next
      case (Inr u)
      have "ParseProtoFilesContents pl' (files_of (store w1) i) = Inl err" using Cons.prems(2) w1(2) by (simp add: files_of_def)
      from Cons.IH [OF w1(1) this, of "acc @ [j]"] obtain e w' M where ih:
        "parse_tags (NewMetadataRepository mc pl) pl' (pre @ i # post) (acc @ [j]) w1 = (Inl e, w')" "M \<subseteq> set pre" "faults w' = []"
        "protofiles (store w') = protofiles (store w1)" "tags (store w') = processed M (tags (store w1))" by blast
      with w1 step Inr show ?thesis
        by (intro exI [of _ e] exI [of _ w'] exI [of _ "insert j M"]) (auto simp: processed_insert)
    qed
  qed
qed

text \<open>
  A start of the process of a daemon whose scheduler works: gocron starts the job once, then the events
  \<open>es\<close> follow.  \<open>after_starts\<close> is the database after \<open>k\<close> such starts.
\<close>

abbreviation start :: "string \<Rightarrow> 'w Daemon \<Rightarrow> daemon_event list \<Rightarrow> 'w \<Rightarrow> unit ends option \<times> 'w" where
  "start cron d es \<equiv> runBackgroundDaemon None (\<lambda>_. None) cron d (Tick # es)"

fun after_starts :: "string \<Rightarrow> 'w Daemon \<Rightarrow> daemon_event list \<Rightarrow> nat \<Rightarrow> 'w \<Rightarrow> 'w" where
  "after_starts cron d es 0 w = w"
| "after_starts cron d es (Suc k) w = after_starts cron d es k (snd (start cron d es w))"

lemma start_fatal: "Run d w = (Inl err, w') \<Longrightarrow>
    start cron d es w = (Some (Fatal (Wrapped (''failed to run '' @ Name d @ '' daemon'') err)), w')"
  by (simp add: runBackgroundDaemon_def daemon_task_def)

lemma processed_disjoint: "M \<inter> t_id ` set ts = {} \<Longrightarrow> processed M ts = ts"
  unfolding processed_def by (rule map_idI) auto

definition stuck :: "'p proto_lib \<Rightarrow> uuid list \<Rightarrow> 't tag_row \<Rightarrow> 't tag_row list \<Rightarrow> ('h, 't) world \<Rightarrow> bool" where
  "stuck pl ids t bs w \<longleftrightarrow> faults w = [] \<and> isl (ParseProtoFilesContents pl (files_of (store w) (t_id t))) \<and>
     (\<exists>as. tags (store w) = as @ t # bs \<and> map t_id as = ids)"

lemma stuck_run:
  fixes w :: "('h, 't) world"
  assumes "stuck pl' ids t bs w" and "\<not> t_is_processed t" and "distinct (ids @ map t_id (t # bs))"
  shows "\<exists>e w'. protoParsing_Run (NewMetadataRepository mc pl) dr pl' time_Now w = (Inl e, w') \<and> stuck pl' ids t bs w'"
proof -
  from assms(1) obtain as err where as: "tags (store w) = as @ t # bs" "map t_id as = ids" and w: "faults w = []"
    and err: "ParseProtoFilesContents pl' (files_of (store w) (t_id t)) = Inl err" by (auto simp: stuck_def isl_def)
  let ?open = "\<lambda>ts. map t_id (filter (\<lambda>t. \<not> t_is_processed t) ts)"
  have unprocessed: "GetUnprocessedTagIds (NewMetadataRepository mc pl) w = (Inr (?open as @ t_id t # ?open bs), w)"
    using w as(1) assms(2) by (simp add: NewMetadataRepository_def pg_GetUnprocessedTagIds_def attempt_def)
  from parse_tags_stops [OF w err] obtain e w' M where
    run: "parse_tags (NewMetadataRepository mc pl) pl' (?open as @ t_id t # ?open bs) [] w = (Inl e, w')" and M: "M \<subseteq> set (?open as)"
    and w': "faults w' = []" "protofiles (store w') = protofiles (store w)" "tags (store w') = processed M (tags (store w))" by blast
  have "M \<subseteq> set ids" using M as(2) by auto
  then have "processed M (t # bs) = t # bs" by (intro processed_disjoint) (use assms(3) in auto)
  then have "tags (store w') = processed M as @ t # bs" using w'(3) as(1) by (simp add: processed_def)
  moreover have "map t_id (processed M as) = ids" using as(2) by (simp add: processed_def comp_def if_distrib cong: if_cong)
  moreover have "files_of (store w') (t_id t) = files_of (store w) (t_id t)" using w'(2) by (simp add: files_of_def)
  ultimately have "stuck pl' ids t bs w'" using w'(1) err by (auto simp: stuck_def)
  with unprocessed run show ?thesis by (simp add: protoParsing_Run_def)
qed

text \<open>
  C39: a tag that is stored but cannot be interpreted stops the parsing daemon for good, with a
  database that answers.  Every time the process is started its first run ends it, whatever is
  scheduled after; neither the tag nor any tag that is scanned after it ever becomes processed.
\<close>

theorem parsing_poison:
  fixes w :: "('h, 't) world"
  assumes "faults w = []" and "tags (store w) = as @ t # bs" and "distinct (map t_id (tags (store w)))" and "\<not> t_is_processed t"
    and "ParseProtoFilesContents pl' (files_of (store w) (t_id t)) = Inl err"
    and "d = NewProtoParsingDaemon (NewMetadataRepository mc pl) dr pl' time_Now"
  shows "(\<exists>e. fst (start cron d es (after_starts cron d es k w)) = Some (Fatal e)) \<and>
    (\<exists>as'. length as' = length as \<and> tags (store (after_starts cron d es k w)) = as' @ t # bs)"
proof -
  let ?ids = "map t_id as"
  have task: "\<exists>e w'. start cron d es v = (Some (Fatal e), w') \<and> stuck pl' ?ids t bs w'" if v: "stuck pl' ?ids t bs v" for v
  proof -
    obtain e w' where run: "Run d v = (Inl e, w')" and "stuck pl' ?ids t bs w'"
      using stuck_run [OF v assms(4), of mc pl dr time_Now] assms(2,3,6) by (auto simp: NewProtoParsingDaemon_def)
    with start_fatal [OF run] show ?thesis by blast
  qed
  have "stuck pl' ?ids t bs (after_starts cron d es k v)" if "stuck pl' ?ids t bs v" for v
    using that
  proof (induction k arbitrary: v)
    case (Suc k)
    with task [OF Suc.prems] show ?case by auto
  qed simp
  moreover have "stuck pl' ?ids t bs w" using assms by (auto simp: stuck_def)
  ultimately have "stuck pl' ?ids t bs (after_starts cron d es k w)" by blast
  with task [OF this] show ?thesis by (auto simp: stuck_def dest: map_eq_imp_length_eq)
qed

definition demo_parsing :: "pg_world Daemon" where
  "demo_parsing = NewProtoParsingDaemon (NewMetadataRepository demo_mc (only_pl [''x''])) (NewDriftRepository demo_px) (only_pl [''x'']) now"

theorem parsing_poison_witness:
  "\<exists>e as'. fst (start ''*/1 * * * *'' demo_parsing [Tick] (after_starts ''*/1 * * * *'' demo_parsing [Tick] 5 pg_two)) = Some (Fatal e) \<and>
    tags (store (after_starts ''*/1 * * * *'' demo_parsing [Tick] 5 pg_two)) = as' @ [tags (store pg_two) ! 1]"
proof -
  have "faults pg_two = []" "length (tags (store pg_two)) = 2" "distinct (map t_id (tags (store pg_two)))" "\<not> t_is_processed (tags (store pg_two) ! 1)"
    "isl (ParseProtoFilesContents (only_pl [''x'']) (files_of (store pg_two) (t_id (tags (store pg_two) ! 1))))" by code_simp+
  moreover from this(2) have "tags (store pg_two) = [tags (store pg_two) ! 0] @ tags (store pg_two) ! 1 # []"
    by (cases "tags (store pg_two)"; cases "tl (tags (store pg_two))") auto
  ultimately show ?thesis
    using parsing_poison [of pg_two "[tags (store pg_two) ! 0]" "tags (store pg_two) ! 1" "[]" "only_pl [''x'']" _ demo_parsing,
        OF _ _ _ _ _ demo_parsing_def, of _ "''*/1 * * * *''" "[Tick]" 5]
    by (auto simp: isl_def)
qed

end
