(* ===== verification/BrokenRows.thy ===== *)
theory BrokenRows
  imports ServerProps DaemonProps
begin

text \<open>
  What becomes of a result whose rows break off.  The loops of the registry, metadata, users and
  permissions repositories end when \<open>rows.Next()\<close> is false and do not ask \<open>rows.Err()\<close> why, so the
  rows read so far are taken for the whole answer: by a client that pulls or lists, and by the
  parsing daemon, which then marks the tag as processed.
\<close>

section \<open>Pulling and listing\<close>

definition stored_files :: "('h, 't) db \<Rightarrow> uuid \<Rightarrow> ProtoFile list" where
  "stored_files d i = map (\<lambda>p. \<lparr>pf_Filename = p_filename p, pf_Content = p_content p\<rparr>) (filter (\<lambda>p. p_tag_id p = i) (protofiles d))"

lemma queryRows_breaks: "queryRows f (w\<lparr>faults := Breaks k # fs\<rparr>) = (Inr (take k (f (store w))), w\<lparr>faults := fs\<rparr>)"
  by (simp add: queryRows_def execRows_def breaks_def)

lemma queryRows_passes: "queryRows f (w\<lparr>faults := Passes # fs\<rparr>) = (Inr (f (store w)), w\<lparr>faults := fs\<rparr>)"
  by (simp add: queryRows_def execRows_def breaks_def exec_def take_fault_def)

lemma queryRow_passes: "queryRow f (w\<lparr>faults := Passes # fs\<rparr>) =
    (case f (store w) of [] \<Rightarrow> (Inl ErrNoRows, w\<lparr>faults := fs\<rparr>) | r # _ \<Rightarrow> (Inr r, w\<lparr>faults := fs\<rparr>))"
  by (simp add: queryRow_def exec_def take_fault_def split: list.splits)

lemmas fault_steps = queryRows_breaks queryRows_passes queryRow_passes

lemma GetModule_passes:
  "pg_GetModule n (w\<lparr>faults := Passes # Passes # Passes # fs\<rparr>) =
     (Inr (module_view (store w) n), w\<lparr>faults := (if module_view (store w) n = None then Passes # Passes # fs else fs)\<rparr>)"
  by (simp add: pg_GetModule_def module_view_def attempt_def fault_steps Let_def split: list.splits)

lemma GetModuleTagId_passes:
  "pg_GetModuleTagId n t (w\<lparr>faults := Passes # fs\<rparr>) = (Inr (case tag_at (store w) n t of None \<Rightarrow> [] | Some i \<Rightarrow> i), w\<lparr>faults := fs\<rparr>)"
  by (simp add: pg_GetModuleTagId_def tag_at_def attempt_def fault_steps split: list.splits)

lemma pull_breaks:
  assumes "reg_inv w" and "tag_at (store w) n t = Some i"
  shows "\<exists>m. pg_PullModule n t (w\<lparr>faults := [Passes, Passes, Passes, Passes, Breaks k]\<rparr>) =
    (Inr (m, take k (stored_files (store w) i)), w\<lparr>faults := []\<rparr>)"
proof -
  have schema: "schema_ok (store w)" using assms(1) by (simp add: reg_inv_def registry_ok_def)
  have "module_id_of (store w) n \<noteq> None"
    using assms(2) unfolding tag_at_iff [OF schema] by (metis option.distinct(1))
  then obtain m where m: "module_view (store w) n = Some m"
    using module_view_None [of "store w" n] by (auto simp: contents_None)
  with assms(2) inv_tag_nonempty [OF assms] show ?thesis
    by (simp add: pg_PullModule_def bindE_def wrapE_def GetModule_passes GetModuleTagId_passes fault_steps stored_files_def take_map)
qed

lemma list_breaks:
  assumes "int k \<le> pageSize"
  shows "pg_ListModules engine pageSize [] (w\<lparr>faults := [Breaks k]\<rparr>) = (Inr (map module_entry (take k (by_name (store w))), []), w\<lparr>faults := []\<rparr>)"
proof -
  have le: "k \<le> nat (pageSize + 1)" "k \<le> nat pageSize" using assms by linarith+
  then have "take k (take (nat (pageSize + 1)) xs) = take k xs" "take (nat pageSize) (take k xs) = take k xs" for xs :: "module_row list"
    by (simp_all add: min_absorb1 min_absorb2)
  then show ?thesis using assms le(2) min.coboundedI2 [OF le(2)]
    by (simp add: pg_ListModules_def bindE_def wrapE_def decode_token_def has_quote_def module_listing_def execRows_def breaks_def
        page_loop_spec by_name_def)
qed

section \<open>The parsing daemon\<close>

lemma RetrieveMeta_files:
  assumes "RetrieveMeta files = Some meta"
  shows "map fm_Filename (tgm_FilesMeta meta) = map ppf_Filename files"
proof -
  have "map fm_Filename (map2 file_meta fs (map g fs)) = map ppf_Filename fs" for fs g
    by (induction fs) (auto simp: file_meta_def split: prod.splits)
  with assms show ?thesis by (auto simp: RetrieveMeta_def Let_def split: if_splits)
qed

lemma run_breaks:
  assumes "map t_id (filter (\<lambda>t. \<not> t_is_processed t) (tags (store w))) = [i]"
    and "ParseProtoFilesContents pl (take k (stored_files (store w) i)) = Inr parsed"
    and "pg_SaveParsedProtoFiles mc i parsed (w\<lparr>faults := []\<rparr>) = (Inr (), w1)"
  shows "protoParsing_Run (NewMetadataRepository mc pl') dr pl time_Now (w\<lparr>faults := [Passes, Breaks k]\<rparr>) =
    runDriftDetection dr (NewMetadataRepository mc pl') time_Now [i] w1"
  using assms
  by (simp add: protoParsing_Run_def NewMetadataRepository_def pg_GetUnprocessedTagIds_def pg_GetProtoFilesForTagId_def
      attempt_def bindE_def fault_steps stored_files_def take_map)

text \<open>
  C40: rows that break off are taken for the whole answer (PostgreSQL).  When the connection breaks
  after \<open>k\<close> rows of a query whose loop does not ask for the error, a pull succeeds with the first \<open>k\<close>
  files of the tag; a listing succeeds with the first \<open>k\<close> modules and no token for a next page; and a
  run of the parsing daemon succeeds, stores the metadata of the first \<open>k\<close> files as those of the tag,
  and leaves no tag for a later run.
\<close>

theorem broken_rows_accepted:
  fixes w :: "(string option, instant) world"
  assumes "reg_inv w" and "tag_at (store w) n t = Some i" and "int k \<le> pageSize"
    and "map t_id (filter (\<lambda>t. \<not> t_is_processed t) (tags (store w))) = [i]"
    and "ParseProtoFilesContents pl (take k (stored_files (store w) i)) = Inr parsed"
    and "pg_SaveParsedProtoFiles mc i parsed (w\<lparr>faults := []\<rparr>) = (Inr (), w1)"
  shows "(\<exists>m w'. pg_PullModule n t (w\<lparr>faults := [Passes, Passes, Passes, Passes, Breaks k]\<rparr>) = (Inr (m, take k (stored_files (store w) i)), w')) \<and>
    (\<exists>w'. pg_ListModules engine pageSize [] (w\<lparr>faults := [Breaks k]\<rparr>) = (Inr (map module_entry (take k (by_name (store w))), []), w')) \<and>
    (\<exists>w' meta j. protoParsing_Run (NewMetadataRepository mc pl') (NewDriftRepository px) pl now (w\<lparr>faults := [Passes, Breaks k]\<rparr>) = (Inr (), w') \<and>
      (\<forall>t\<in>set (tags (store w')). t_is_processed t) \<and>
      json_marshal_meta mc meta = Inr j \<and> j \<in> tm_meta ` {r \<in> set (tag_meta (store w')). tm_tag_id r = i} \<and>
      map fm_Filename (tgm_FilesMeta meta) = map pf_Filename (take k (stored_files (store w) i)))"
proof -
  let ?dr = "NewDriftRepository px" and ?mr = "NewMetadataRepository mc pl' :: (string option, instant) world MetadataRepository"
  from wpD [OF save_parsed_wp assms(6)] obtain meta j rest where meta: "RetrieveMeta parsed = Some meta" "json_marshal_meta mc meta = Inr j"
    and eq: "store w1 = (store w)\<lparr>proto_parsed_data := proto_parsed_data (store w1), tag_meta := tag_meta (store w1),
         tags := map (\<lambda>t. if t_id t = i then t\<lparr>t_is_processed := True\<rparr> else t) (tags (store w))\<rparr>"
    and row: "map tm_meta (filter (\<lambda>x. tm_tag_id x = i) (tag_meta (store w1))) = j # rest"
    by (auto simp: saved_def)
  let ?w' = "snd (runDriftDetection ?dr ?mr now [i] w1)"
  have run: "protoParsing_Run ?mr ?dr pl now (w\<lparr>faults := [Passes, Breaks k]\<rparr>) = (Inr (), ?w')"
    unfolding run_breaks [OF assms(4-6)] using runDriftDetection_Inr [of ?dr ?mr now "[i]" w1] by (metis prod.collapse)
  have same: "tags (store ?w') = tags (store w1)" "tag_meta (store ?w') = tag_meta (store w1)"
    using keepsD [OF keeps_tags_drift [where T = "tags (store w1)" and M = "tag_meta (store w1)"], of w1 px mc pl' "[i]"] by auto
  have "tags (store w1) = map (\<lambda>t. if t_id t = i then t\<lparr>t_is_processed := True\<rparr> else t) (tags (store w))" by (subst eq) simp
  moreover have "\<forall>t\<in>set (tags (store w)). \<not> t_is_processed t \<longrightarrow> t_id t = i"
    using arg_cong [OF assms(4), of set] by auto
  ultimately have "\<forall>t\<in>set (tags (store ?w')). t_is_processed t" by (auto simp: same)
  moreover have "j \<in> tm_meta ` {r \<in> set (tag_meta (store ?w')). tm_tag_id r = i}"
    using arg_cong [OF row, of set] by (auto simp: same)
  moreover have "map fm_Filename (tgm_FilesMeta meta) = map pf_Filename (take k (stored_files (store w) i))"
    using RetrieveMeta_files [OF meta(1)] ParseProtoFilesContents_names [OF assms(5)] by simp
  ultimately show ?thesis using run meta(2) pull_breaks [OF assms(1,2)] list_breaks [OF assms(3)] by blast
qed

text \<open>A tag with two files of which one is read.\<close>

definition f2 :: ProtoFile where
  "f2 = \<lparr>pf_Filename = ''b.proto'', pf_Content = ''import''\<rparr>"

definition two_files :: "(string option, instant) world" where
  "two_files = snd (pg_PushModule ''m'' ''v1'' [f1, f2] demo_pg)"

theorem broken_rows_accepted_witness:
  "\<exists>m w' w''. pg_PullModule ''m'' ''v1'' (two_files\<lparr>faults := [Passes, Passes, Passes, Passes, Breaks 1]\<rparr>) = (Inr (m, [f1]), w') \<and>
     protoParsing_Run (NewMetadataRepository demo_mc demo_pl) (NewDriftRepository demo_px) (only_pl [''syntax'']) now
       (two_files\<lparr>faults := [Passes, Breaks 1]\<rparr>) = (Inr (), w'') \<and> (\<forall>t\<in>set (tags (store w'')). t_is_processed t)"
proof -
  have facts: "tag_at (store two_files) ''m'' ''v1'' = Some ''aa''" "stored_files (store two_files) ''aa'' = [f1, f2]"
    "map t_id (filter (\<lambda>t. \<not> t_is_processed t) (tags (store two_files))) = [''aa'']" by code_simp+
  obtain m where push: "pg_PushModule ''m'' ''v1'' [f1, f2] demo_pg = (m, two_files)"
    unfolding two_files_def by (metis prod.collapse)
  from pg.push [OF demo_pg_inv, unfolded NewRegistryRepository_sel, OF push] have inv: "reg_inv two_files" ..
  let ?parsed = "ParseProtoFilesContents (only_pl [''syntax'']) [f1]"
  have "\<not> isl ?parsed" "fst (pg_SaveParsedProtoFiles demo_mc ''aa'' (projr ?parsed) (two_files\<lparr>faults := []\<rparr>)) = Inr ()" by code_simp+
  then obtain parsed w1 where "?parsed = Inr parsed" "pg_SaveParsedProtoFiles demo_mc ''aa'' parsed (two_files\<lparr>faults := []\<rparr>) = (Inr (), w1)"
    by (metis prod.collapse sum.collapse(2))
  with broken_rows_accepted [OF inv facts(1) _ facts(3), of 1 1 "only_pl [''syntax'']" parsed demo_mc w1 no_injection demo_pl demo_px] facts(2)
  show ?thesis by fastforce
qed

end
