(* ===== verification/HashInvariant.thy ===== *)
theory HashInvariant
  imports SystemProps DaemonProps
begin

text \<open>
  An invariant of the running system with PostgreSQL: a content hash that is stored is the hash of the
  content beside it.  The detection of drift compares hashes only, so this is what makes its events
  statements about files.
\<close>

section \<open>Stored hashes are true\<close>

definition hashes_true :: "(string option, 't) db \<Rightarrow> bool" where
  "hashes_true d \<longleftrightarrow> (\<forall>p\<in>set (protofiles d). p_content_hash p \<in> {None, Some (computeHash (p_content p))})"

definition true_hashes :: "(string option, 't) world \<Rightarrow> bool" where
  "true_hashes w \<longleftrightarrow> hashes_true (store w)"

text \<open>A statement that leaves the files alone, removes some, or adds one without a hash.\<close>

definition hash_safe :: "(string option, 't, 'a) stmt \<Rightarrow> bool" where
  "hash_safe s \<longleftrightarrow> (\<forall>d x d'. s d = Inr (x, d') \<longrightarrow>
     (\<forall>p\<in>set (protofiles d'). p \<in> set (protofiles d) \<or> p_content_hash p = None))"

lemma true_exec: "hash_safe s \<Longrightarrow> keeps true_hashes (exec s)"
  unfolding true_hashes_def [abs_def] by (rule keeps_exec) (fastforce simp: hash_safe_def hashes_true_def)

lemma hash_safe_registry:
  "hash_safe (insert_module m)" "hash_safe (insert_tag t)" "p_content_hash p = None \<Longrightarrow> hash_safe (insert_protofile p)"
  "hash_safe (insert_dependency x)" "hash_safe (upsert_draft y)" "hash_safe (\<lambda>d. delete_protofiles (P d) d)"
  "hash_safe (\<lambda>d. delete_dependencies (Q d) d)" "hash_safe (\<lambda>d. delete_drafts (R d) d)" "hash_safe (\<lambda>d. delete_tags fk (T d) d)"
  "hash_safe (delete_modules fk M)"
  by (auto simp: hash_safe_def stmt_defs Let_def split: if_splits)

lemma hash_safe_others:
  "hash_safe (insert_user u)" "hash_safe (update_users f i)" "hash_safe (delete_users fk i)" "hash_safe (upsert_acl fk a)"
  "hash_safe (delete_acl P)" "hash_safe (upsert_parsed r)" "hash_safe (upsert_meta m)" "hash_safe (set_processed i)"
  "hash_safe (acknowledge ts who i)" "hash_safe (insert_events hk fk es)"
  by (auto simp: hash_safe_def insert_user_def update_users_def delete_users_def upsert_acl_def delete_acl_def upsert_parsed_def
      upsert_meta_def set_processed_def acknowledge_def Let_def simp del: clash_iff split: if_splits dest!: insert_events_ok)

lemma hash_safe_returning: "hash_safe s \<Longrightarrow> hash_safe (returning_acl i n s)"
  by (fastforce simp: hash_safe_def returning_acl_def split: sum.splits prod.splits list.splits)

lemma true_reads: "reads m \<Longrightarrow> keeps true_hashes m"
  unfolding hoare_def true_hashes_def by (metis prod.collapse reads_store)

lemma true_frame:
  "keeps true_hashes (query f)" "keeps true_hashes (queryRows f')" "keeps true_hashes (queryRow g)" "keeps true_hashes newUUID"
  "keeps true_hashes (liftR r)" "keeps true_hashes m \<Longrightarrow> keeps true_hashes (inTx eb ec m)"
  unfolding true_hashes_def [abs_def] by (intro hoare_rules; assumption?)+

lemmas true_rules = true_frame true_exec hash_safe_registry hash_safe_others hash_safe_returning hoare_rules

lemma true_registry:
  "keeps true_hashes (pg_RegisterModule n)" "keeps true_hashes (pg_PushModule n t fs)" "keeps true_hashes (pg_PushDraftModule js n t fs ds)"
  "keeps true_hashes (pg_AddModuleDependencies n t ds)" "keeps true_hashes pg_DeleteObsoleteDraftTags"
  "keeps true_hashes (pg_DeleteModule n)" "keeps true_hashes (pg_DeleteModuleTag n t)"
  unfolding pg_RegisterModule_def pg_PushModule_def pg_PushDraftModule_def pg_AddModuleDependencies_def pg_DeleteObsoleteDraftTags_def
    pg_DeleteModule_def pg_DeleteModuleTag_def pg_push_file_def Let_def
  by (intro true_rules true_reads [OF reads_GetModule] true_reads [OF reads_GetModuleTagId]; simp)+

lemma true_users:
  "keeps true_hashes (pg_CreateUser cr u)" "keeps true_hashes (pg_GetUser i)" "keeps true_hashes (pg_GetUserByToken cr t)"
  "keeps true_hashes (pg_UpdateUser cr u)" "keeps true_hashes (pg_DeleteUser i)" "keeps true_hashes (pg_ListUsers k off)"
  "keeps true_hashes (pg_GrantPermission a)" "keeps true_hashes (pg_RevokePermission i n)"
  "keeps true_hashes (pg_ListUserPermissions i)" "keeps true_hashes (pg_CheckPermission i n p)"
  "keeps true_hashes (pg_DeleteUserPermissions i)"
  unfolding pg_account_defs by (intro true_rules; simp)+

lemma true_metadata:
  "keeps true_hashes pg_GetUnprocessedTagIds" "keeps true_hashes (pg_GetProtoFilesForTagId i)"
  "keeps true_hashes (pg_SaveParsedProtoFiles mc i ps)" "keeps true_hashes (pg_GetParsedProtoFiles pl i)"
  "keeps true_hashes (pg_GetTagMetaByTagId mc i)"
  unfolding pg_GetUnprocessedTagIds_def pg_GetProtoFilesForTagId_def pg_SaveParsedProtoFiles_def pg_GetParsedProtoFiles_def
    pg_GetTagMetaByTagId_def save_parsed_file_def parsed_file_def
  by (intro true_rules; simp)+

lemma true_statuses: "keeps true_hashes (dependency_status r)"
  unfolding dependency_status_def newer_status_def Let_def by (intro true_rules)

lemma true_drift:
  "keeps true_hashes pg_GetTagsWithoutHashes" "keeps true_hashes (pg_GetTagInfo i)"
  "keeps true_hashes (pg_GetPreviousTagID m i)" "keeps true_hashes (pg_GetFileHashesForTag i)" "keeps true_hashes (pg_SaveDriftEvents es)"
  "keeps true_hashes pg_GetUnacknowledgedDriftEvents" "keeps true_hashes (pg_GetDriftEventsForModule n t)"
  "keeps true_hashes (pg_GetModuleDependencyDriftStatuses n t)"
  unfolding pg_GetTagsWithoutHashes_def pg_GetTagInfo_def pg_GetPreviousTagID_def pg_GetFileHashesForTag_def pg_SaveDriftEvents_def
    pg_GetUnacknowledgedDriftEvents_def pg_GetDriftEventsForModule_def pg_GetModuleDependencyDriftStatuses_def new_row_def Let_def
  by (intro true_rules true_statuses; simp)+

lemma true_acknowledge: "keeps true_hashes (pg_AcknowledgeDriftEvent px ev who)"
proof -
  have "hash_safe (\<lambda>d. case z of None \<Rightarrow> Inl ErrDB | Some i \<Rightarrow> acknowledge ts who i d)" for z ts
    using hash_safe_others(9) by (cases z) (simp_all add: hash_safe_def)
  then show ?thesis unfolding pg_AcknowledgeDriftEvent_def by (intro true_rules)
qed

text \<open>The tables in order and the hashes true: computing the hashes of a tag relies on the identifiers of files being unique.\<close>

definition hash_inv :: "(string option, instant) world \<Rightarrow> bool" where
  "hash_inv w \<longleftrightarrow> reg_inv w \<and> true_hashes w"

lemma hash_invI: "keeps reg_inv m \<Longrightarrow> keeps true_hashes m \<Longrightarrow> keeps hash_inv m"
  unfolding hash_inv_def [abs_def] by (auto simp: hoare_def)

lemma keeps_inv_settled: "(\<And>R. keeps (settled R {}) m) \<Longrightarrow> keeps reg_inv m"
  by (force simp: hoare_def settled_def)

lemma keeps_inv_reads: "reads m \<Longrightarrow> keeps reg_inv m"
  by (intro keeps_inv_settled settled_reads)

lemma hash_inv_reads: "reads m \<Longrightarrow> keeps hash_inv m"
  by (intro hash_invI keeps_inv_reads true_reads)

lemma hash_inv_settled: "(\<And>R. keeps (settled R {}) m) \<Longrightarrow> keeps true_hashes m \<Longrightarrow> keeps hash_inv m"
  by (intro hash_invI keeps_inv_settled)

lemma hash_inv_compute: "keeps hash_inv (pg_ComputeAndStoreHashes i)"
proof (rule hoareI)
  fix w :: "(string option, instant) world" assume w: "hash_inv w"
  obtain r w' where run: "pg_ComputeAndStoreHashes i w = (r, w')" by (cases "pg_ComputeAndStoreHashes i w")
  have "distinct (map p_id (protofiles (store w)))" using w by (simp add: hash_inv_def reg_inv_def registry_ok_def schema_ok_def)
  from wpD [OF hash_tx_wp [OF this, of i "\<lambda>h. h = None" "\<lambda>c. Some (computeHash c)"] run [unfolded pg_ComputeAndStoreHashes_def]]
  have "true_hashes w'" using w
    by (cases r) (auto simp: hash_inv_def true_hashes_def hashes_true_def fill_hashes_def)
  moreover have "reg_inv w'" using keepsD [OF keeps_inv_settled [OF settled_pg_drift(2)], of w i] w run by (simp add: hash_inv_def)
  ultimately show "hash_inv (snd (pg_ComputeAndStoreHashes i w))" by (simp add: run hash_inv_def)
qed

context registry_repository
begin

lemma call_keeps_ok: "(\<And>w r w'. m w = (r, w') \<Longrightarrow> registry_step repo env c w w') \<Longrightarrow> keeps ok m"
  by (rule hoareI) (metis prod.collapse step_ok)

lemma calls_keep_ok:
  "keeps ok (RegisterModule repo n)" "keeps ok (PushModule repo n t fs)" "keeps ok (PushDraftModule repo n t fs ds)"
  "keeps ok (AddModuleDependencies repo n t ds)" "keeps ok (DeleteObsoleteDraftTags repo)"
  "keeps ok (DeleteModule repo n)" "keeps ok (DeleteModuleTag repo n t)"
  by (rule call_keeps_ok, erule registry_step.intros)+

end

interpretation pg_hash: repository_invariant "pg_repositories lib" hash_inv "\<lambda>_. True" "\<lambda>_ _. True" safe_token
  for lib
proof (unfold_locales, goal_cases)
  case 14 then show ?case unfolding pg_repositories_def repository_sels NewRegistryRepository_def RegistryRepository.select_convs
    by (intro hash_inv_reads reads_ListModules)
qed (simp only: pg_repositories_def repository_sels,
  ((rule hash_invI, rule pg.calls_keep_ok, simp only: NewRegistryRepository_sel, rule true_registry) |
   (simp only: NewRegistryRepository_sel, rule hash_inv_reads, intro reads_rules) |
   (simp only: NewMetadataRepository_def NewUserRepository_def NewACLRepository_def NewDriftRepository_def repository_sels,
    (rule hash_inv_compute | (rule hash_inv_settled, intro settled_metadata settled_pg_users settled_pg_acl settled_pg_drift settled_pg_acknowledge,
      intro true_users true_metadata true_drift true_acknowledge)))))+

lemma env_step_hash: "hash_inv w \<Longrightarrow> env_step w w' \<Longrightarrow> hash_inv w'"
  using env_step_frame [of w w'] by (auto simp: hash_inv_def true_hashes_def env_step_def)

text \<open>From a database in order, whatever the servers and daemons do, the stored hashes stay true.\<close>

lemma system_hashes_true:
  assumes "launcher penv lib rand now cfg (pg_repositories lib) calls = (Returns l, calls')" and "reads rand"
    and "system_run l env_step evs s s'" and "hash_inv (database s)"
    and "\<forall>header r. Request header (ListModulesReq r) \<in> set evs \<longrightarrow> safe_token (lmr_PageToken r)"
  shows "hash_inv (database s')"
  using assms(3,4,1)
proof (rule pg_hash.run_kept)
  show "admissible (\<lambda>_. True) (\<lambda>_ _. True) safe_token req" if "Request header req \<in> set evs" for header req
    using assms(5) that by (cases req) auto
qed (use assms(2) in \<open>auto intro: hash_inv_reads reads_rules env_step_hash\<close>)

end
