(* ===== verification/DriftPipeline.thy ===== *)
theory DriftPipeline
  imports HashInvariant
begin

text \<open>
  The parsing daemon from end to end: which drift events a run that succeeds has added to the table,
  in terms of the files of the tags as they were pushed.
\<close>

section \<open>Hashing\<close>

definition content_hashes :: "('h, 't) db \<Rightarrow> uuid \<Rightarrow> string \<rightharpoonup> string" where
  "content_hashes d i = map_option computeHash \<circ> tag_files d i"

lemma hash_rows_answer:
  fixes w :: "('h, 't) world"
  assumes "faults w = []"
  shows "\<exists>w'. forE fs (\<lambda>f. exec (set_hash (hash (snd f)) (fst f))) w = (Inr (), w') \<and> faults w' = []"
  using assms by (induction fs arbitrary: w) (simp_all add: bindE_def exec_ok set_hash_def)

lemma compute_hashes_answer:
  fixes w :: "(string option, 't) world"
  assumes "faults w = []" and "distinct (map p_id (protofiles (store w)))"
  shows "\<exists>w'. pg_ComputeAndStoreHashes i w = (Inr (), w') \<and> faults w' = [] \<and>
    store w' = (store w)\<lparr>protofiles := fill_hashes (\<lambda>h. h = None) (\<lambda>c. Some (computeHash c)) i (protofiles (store w))\<rparr>"
proof -
  let ?fs = "map (\<lambda>p. (p_id p, p_content p)) (filter (\<lambda>p. p_tag_id p = i \<and> p_content_hash p = None) (protofiles (store w)))"
  obtain w' where loop: "forE ?fs (\<lambda>f. exec (set_hash (Some (computeHash (snd f))) (fst f))) w = (Inr (), w')" "faults w' = []"
    using hash_rows_answer [OF assms(1), of ?fs "\<lambda>c. Some (computeHash c)"] by blast
  have run: "pg_ComputeAndStoreHashes i w = (Inr (), w')"
    unfolding pg_ComputeAndStoreHashes_def by (rule inTx_ok) (use assms(1) loop in \<open>simp_all add: bindE_def\<close>)
  with wpD [OF hash_tx_wp [OF assms(2), of i "\<lambda>h. h = None" "\<lambda>c. Some (computeHash c)"], folded pg_ComputeAndStoreHashes_def] loop(2)
  show ?thesis by fastforce
qed

lemma hash_tags_answer:
  fixes w :: "(string option, instant) world"
  assumes "faults w = []" and "distinct (map p_id (protofiles (store w)))"
  shows "\<exists>w'. hash_tags (NewDriftRepository px) ids w = (Inr (), w') \<and> faults w' = [] \<and> store w' = (store w)\<lparr>protofiles :=
    map (\<lambda>p. if p_tag_id p \<in> set ids \<and> p_content_hash p = None then p\<lparr>p_content_hash := Some (computeHash (p_content p))\<rparr> else p)
      (protofiles (store w))\<rparr>"
  using assms
proof (induction ids arbitrary: w)
  case (Cons i ids)
  obtain w1 where one: "pg_ComputeAndStoreHashes i w = (Inr (), w1)" "faults w1 = []"
    "store w1 = (store w)\<lparr>protofiles := fill_hashes (\<lambda>h. h = None) (\<lambda>c. Some (computeHash c)) i (protofiles (store w))\<rparr>"
    using compute_hashes_answer [OF Cons.prems] by blast
  have "map p_id (protofiles (store w1)) = map p_id (protofiles (store w))" by (simp add: one(3) fill_hashes_def)
  with Cons.prems(2) Cons.IH [OF one(2)] obtain w2 where two: "hash_tags (NewDriftRepository px) ids w1 = (Inr (), w2)" "faults w2 = []"
    "store w2 = (store w1)\<lparr>protofiles := map (\<lambda>p. if p_tag_id p \<in> set ids \<and> p_content_hash p = None
       then p\<lparr>p_content_hash := Some (computeHash (p_content p))\<rparr> else p) (protofiles (store w1))\<rparr>" by auto
  have "hash_tags (NewDriftRepository px) (i # ids) w = (Inr (), w2)"
    using one(1) two(1) by (simp add: NewDriftRepository_def attempt_def)
  then show ?case using two(2,3) one(3) by (auto simp: fill_hashes_def intro!: map_cong)
qed simp

lemma all_hashed:
  fixes d :: "(string option, 't) db"
  assumes "hashes_true d" and "protofiles d' = map (\<lambda>p. if p_tag_id p \<in> p_tag_id ` set (filter (\<lambda>p. p_content_hash p = None) (protofiles d)) \<and>
    p_content_hash p = None then p\<lparr>p_content_hash := Some (computeHash (p_content p))\<rparr> else p) (protofiles d)"
  shows "protofiles d' = map (\<lambda>p. p\<lparr>p_content_hash := Some (computeHash (p_content p))\<rparr>) (protofiles d)"
  using assms(1) unfolding assms(2) hashes_true_def by (intro map_cong) auto

lemma tag_hashes_content:
  assumes "protofiles (store w) = map (\<lambda>p. p\<lparr>p_content_hash := Some (computeHash (p_content p))\<rparr>) (protofiles d)"
  shows "tag_hashes (\<lambda>h. h) w i = content_hashes d i"
proof -
  have "map (\<lambda>p. (p_filename p, the (p_content_hash p))) (filter (\<lambda>p. p_tag_id p = i \<and> p_content_hash p \<noteq> None) (protofiles (store w))) =
    map (\<lambda>(f, c). (f, computeHash c)) (map (\<lambda>p. (p_filename p, p_content p)) (filter (\<lambda>p. p_tag_id p = i) (protofiles d)))"
    by (simp add: assms filter_map comp_def)
  then show ?thesis by (simp only: tag_hashes_def content_hashes_def tag_files_def map_of_map)
qed

section \<open>Saving events\<close>

lemma insert_events_answer:
  assumes "\<forall>e\<in>set es. event_ok fk d e" and "distinct (map de_id es)" and "de_id ` set es \<inter> de_id ` set (drift_events d) = {}"
  shows "\<exists>d'. insert_events hk fk es d = Inr ((), d')"
  using assms
proof (induction es arbitrary: d)
  case (Cons e es)
  have "\<exists>d'. insert_events hk fk es (d\<lparr>drift_events := drift_events d @ [e]\<rparr>) = Inr ((), d')"
    by (rule Cons.IH) (use Cons.prems in \<open>auto simp: event_ok_def\<close>)
  moreover have "\<exists>d'. insert_events hk fk es d = Inr ((), d')" by (rule Cons.IH) (use Cons.prems in auto)
  ultimately show ?case using Cons.prems by (auto simp: event_ok_def image_iff)
qed simp

definition event_keys :: "(string option, 't) db \<Rightarrow> (string \<times> string \<times> string \<times> string \<times> string) set" where
  "event_keys d = event_key coalesce ` set (drift_events d)"

definition new_key :: "DriftEvent \<Rightarrow> string \<times> string \<times> string \<times> string \<times> string" where
  "new_key e = (ev_TagID e, ev_Filename e, ev_EventType e, ev_PreviousHash e, ev_CurrentHash e)"

lemma coalesce_null [simp]: "coalesce (null_if_empty s) = s"
  by (simp add: coalesce_def null_if_empty_def)

lemma save_events_answer:
  assumes "faults w = []" and "uuids_ok w"
    and "\<forall>e\<in>set es. event_type_ok (ev_EventType e) \<and> severity_ok (ev_Severity e) \<and>
      ev_ModuleID e \<in> m_id ` set (modules (store w)) \<and> ev_TagID e \<in> t_id ` set (tags (store w))"
  shows "\<exists>w'. pg_SaveDriftEvents es w = (Inr (), w') \<and> faults w' = [] \<and>
    (\<exists>new. store w' = (store w)\<lparr>drift_events := drift_events (store w) @ new\<rparr>) \<and>
    event_keys (store w') = event_keys (store w) \<union> new_key ` set es"
proof (cases "es = []")
  case True
  then show ?thesis using assms(1) by (intro exI [of _ w] conjI exI [of _ "[]"]) (simp_all add: pg_SaveDriftEvents_def)
next
  case False
  let ?rows = "map (\<lambda>i. event_row_of null_if_empty (\<lambda>t. t) (es ! i) (uuid_gen w (uuid_next w + i))) [0..<length es]"
  have ids: "map de_id ?rows = map (\<lambda>i. uuid_gen w (uuid_next w + i)) [0..<length es]" by (simp add: event_row_of_def)
  have "distinct (map de_id ?rows)" unfolding ids using assms(2) by (auto simp: distinct_map uuids_ok_def intro!: inj_onI dest!: injD)
  moreover have "de_id ` set ?rows \<inter> de_id ` set (drift_events (store w)) = {}"
  proof -
    have "de_id ` set (drift_events (store w)) \<subseteq> uuid_gen w ` {..<uuid_next w}" using assms(2) by (auto simp: uuids_ok_def db_ids_def)
    moreover have "de_id ` set ?rows \<subseteq> uuid_gen w ` {uuid_next w..}" by (auto simp: event_row_of_def)
    moreover have "uuid_gen w ` {uuid_next w..} \<inter> uuid_gen w ` {..<uuid_next w} = {}"
      using assms(2) by (auto simp: uuids_ok_def inj_eq)
    ultimately show ?thesis by blast
  qed
  moreover have "\<forall>e\<in>set ?rows. event_ok True (store w) e" using assms(3) by auto
  ultimately obtain d where ins: "insert_events coalesce True ?rows (store w) = Inr ((), d)"
    using insert_events_answer [of ?rows True "store w" coalesce] by blast
  from insert_events_ok [OF ins] obtain new where d: "d = (store w)\<lparr>drift_events := drift_events (store w) @ new\<rparr>" "set new \<subseteq> set ?rows"
    "\<forall>e\<in>set ?rows. event_key coalesce e \<in> event_key coalesce ` set (drift_events d)" by blast
  have "event_key coalesce ` set ?rows = (\<lambda>i. new_key (es ! i)) ` {0..<length es}" by (simp add: image_image new_key_def)
  also have "\<dots> = new_key ` set es" by (metis (no_types) image_image list.set_map map_nth set_upt)
  finally have rows: "event_key coalesce ` set ?rows = new_key ` set es" .
  have "event_keys d = event_keys (store w) \<union> new_key ` set es"
  proof -
    have "event_keys d = event_keys (store w) \<union> event_key coalesce ` set new" by (simp add: d(1) event_keys_def image_Un)
    moreover have "event_key coalesce ` set new \<subseteq> new_key ` set es" using image_mono [OF d(2), of "event_key coalesce"] by (simp only: rows)
    moreover have "new_key ` set es \<subseteq> event_keys d" unfolding rows [symmetric] event_keys_def using d(3) by blast
    ultimately show ?thesis by blast
  qed
  moreover have "pg_SaveDriftEvents es w = (Inr (), w\<lparr>uuid_next := uuid_next w + length es, store := d\<rparr>)"
    using False assms(1) ins by (simp add: pg_SaveDriftEvents_def mapE_new_row bindE_def exec_ok)
  ultimately show ?thesis using assms(1) d(1) by auto
qed

section \<open>The events of a tag\<close>

text \<open>
  The keys of the events between two maps of hashes, and what the detection finds for a tag: nothing
  for the first tag of its module, else the difference with a latest one of the earlier tags.
\<close>

definition drift_keys :: "uuid \<Rightarrow> (string \<rightharpoonup> string) \<Rightarrow> (string \<rightharpoonup> string) \<Rightarrow> (string \<times> string \<times> string \<times> string \<times> string) set" where
  "drift_keys i prev cur = (\<lambda>(ty, f, h', h, s). (i, f, ty, h', h)) ` drift_spec (\<lambda>_. DriftSeverityInfo) prev cur"

definition drifts :: "('h, 't::linorder) db \<Rightarrow> (uuid \<Rightarrow> string \<rightharpoonup> string) \<Rightarrow> 't tag_row \<Rightarrow> (string \<times> string \<times> string \<times> string \<times> string) set \<Rightarrow> bool" where
  "drifts d hs c D \<longleftrightarrow>
     (let earlier = {t \<in> set (tags d). t_module_id t = t_module_id c \<and> t_updated_at t < t_updated_at c} in
      if earlier = {} then D = {}
      else \<exists>p\<in>earlier. (\<forall>t\<in>earlier. t_updated_at t \<le> t_updated_at p) \<and> D = drift_keys (t_id c) (hs (t_id p)) (hs (t_id c)))"

lemma drift_keys_spec: "(\<lambda>(ty, f, h', h, s). (i, f, ty, h', h)) ` drift_spec sev prev cur = drift_keys i prev cur"
  unfolding drift_keys_def drift_spec_def image_Un by (intro arg_cong2 [where f = "(\<union>)"]; force)

lemma drifts_tag: "drifts d hs c D \<Longrightarrow> k \<in> D \<Longrightarrow> fst k = t_id c"
  by (auto simp: drifts_def drift_keys_def Let_def split: if_splits)

lemma drifts_cong: "tags d' = tags d \<Longrightarrow> drifts d' hs c D = drifts d hs c D"
  by (simp add: drifts_def)

lemma new_key_view: "ev_TagID e = i \<Longrightarrow> new_key e = (\<lambda>(ty, f, h', h, s). (i, f, ty, h', h)) (event_view e)"
  by (simp add: new_key_def event_view_def)

lemma severity_of_ok: "severity_ok (severity_of mr w p i f)"
  by (auto simp: severity_of_def determineSeverityFromParsed_def severity_ok_def split: option.splits)

lemma drift_spec_ok:
  assumes "event_view e \<in> drift_spec (severity_of mr w p i) prev cur"
  shows "event_type_ok (ev_EventType e) \<and> severity_ok (ev_Severity e)"
  using assms severity_of_ok [of mr w p i] by (auto simp: drift_spec_def event_view_def event_type_ok_def) (auto simp: severity_ok_def)

lemma HasDrift_events: "HasDrift result \<longleftrightarrow> all_events result \<noteq> []"
  by (auto simp: HasDrift_def all_events_def)

lemma reg_inv_settled: "(\<And>R. keeps (settled R {}) m) \<Longrightarrow> reg_inv w \<Longrightarrow> m w = (r, w') \<Longrightarrow> reg_inv w'"
  by (force simp: hoare_def settled_def)

lemma detect_keys:
  assumes "reg_inv w" and "faults w = []" and "c \<in> set (tags (store w))"
  shows "\<exists>result. detectDrift (NewDriftRepository px) (NewMetadataRepository mc pl) now (t_id c) w = (Inr result, w) \<and>
    drifts (store w) (tag_hashes (\<lambda>h. h) w) c (new_key ` set (all_events result)) \<and>
    (\<forall>e\<in>set (all_events result). event_type_ok (ev_EventType e) \<and> severity_ok (ev_Severity e) \<and>
       ev_ModuleID e = t_module_id c \<and> ev_TagID e = t_id c)"
proof -
  let ?mr = "NewMetadataRepository mc pl"
  let ?E = "{t \<in> set (tags (store w)). t_module_id t = t_module_id c \<and> t_updated_at t < t_updated_at c}"
  obtain result where run: "detectDrift (NewDriftRepository px) ?mr now (t_id c) w = (Inr result, w)"
    and ids: "\<forall>e\<in>set (all_events result). ev_TagID e = t_id c \<and> ev_ModuleID e = t_module_id c"
    and found: "if ?E = {} then all_events result = [] else \<exists>p\<in>?E. (\<forall>t\<in>?E. t_updated_at t \<le> t_updated_at p) \<and>
       event_view ` set (all_events result) = drift_spec (severity_of ?mr w (t_id p) (t_id c))
         (tag_hashes (\<lambda>h. h) w (t_id p)) (tag_hashes (\<lambda>h. h) w (t_id c)) \<and> distinct (map ev_Filename (all_events result))"
    using pg_detect [OF assms, of px mc pl] unfolding Let_def by blast
  have keys: "new_key ` set (all_events result) = (\<lambda>(ty, f, h', h, s). (t_id c, f, ty, h', h)) ` event_view ` set (all_events result)"
    using ids new_key_view [of _ "t_id c"] by (auto simp: image_image intro!: image_cong)
  show ?thesis
  proof (cases "?E = {}")
    case True
    with run found show ?thesis unfolding drifts_def Let_def by (simp only: if_True) auto
  next
    case False
    with found obtain p where p: "p \<in> ?E" "\<forall>t\<in>?E. t_updated_at t \<le> t_updated_at p"
      "event_view ` set (all_events result) = drift_spec (severity_of ?mr w (t_id p) (t_id c))
         (tag_hashes (\<lambda>h. h) w (t_id p)) (tag_hashes (\<lambda>h. h) w (t_id c))" by (simp only: if_False) blast
    have "drifts (store w) (tag_hashes (\<lambda>h. h) w) c (new_key ` set (all_events result))"
      unfolding drifts_def Let_def if_not_P [OF False] keys p(3) drift_keys_spec using p(1,2) by blast
    moreover have "event_type_ok (ev_EventType e) \<and> severity_ok (ev_Severity e)" if "e \<in> set (all_events result)" for e
      using drift_spec_ok [OF imageI [OF that, of event_view, unfolded p(3)]] .
    ultimately show ?thesis using run ids by blast
  qed
qed

text \<open>One round of the second phase.\<close>

lemma drift_round:
  assumes "reg_inv w" and "faults w = []" and "c \<in> set (tags (store w))"
  shows "\<exists>w' D. drift_tags (NewDriftRepository px) (NewMetadataRepository mc pl) now (t_id c # ids) w =
      drift_tags (NewDriftRepository px) (NewMetadataRepository mc pl) now ids w' \<and> reg_inv w' \<and> faults w' = [] \<and>
    (\<exists>new. store w' = (store w)\<lparr>drift_events := drift_events (store w) @ new\<rparr>) \<and>
    drifts (store w) (tag_hashes (\<lambda>h. h) w) c D \<and> event_keys (store w') = event_keys (store w) \<union> D"
proof -
  obtain result where run: "detectDrift (NewDriftRepository px) (NewMetadataRepository mc pl) now (t_id c) w = (Inr result, w)"
    and D: "drifts (store w) (tag_hashes (\<lambda>h. h) w) c (new_key ` set (all_events result))"
    and ok: "\<forall>e\<in>set (all_events result). event_type_ok (ev_EventType e) \<and> severity_ok (ev_Severity e) \<and>
       ev_ModuleID e = t_module_id c \<and> ev_TagID e = t_id c"
    using detect_keys [OF assms, of px mc pl] by blast
  have "t_module_id c \<in> m_id ` set (modules (store w))" "t_id c \<in> t_id ` set (tags (store w))" and uuids: "uuids_ok w"
    using assms(1,3) by (auto simp: reg_inv_def registry_ok_def refs_ok_def)
  then have "\<forall>e\<in>set (all_events result). event_type_ok (ev_EventType e) \<and> severity_ok (ev_Severity e) \<and>
      ev_ModuleID e \<in> m_id ` set (modules (store w)) \<and> ev_TagID e \<in> t_id ` set (tags (store w))" using ok by simp
  from save_events_answer [OF assms(2) uuids this]
  obtain w' where save: "pg_SaveDriftEvents (all_events result) w = (Inr (), w')" "faults w' = []"
    "\<exists>new. store w' = (store w)\<lparr>drift_events := drift_events (store w) @ new\<rparr>"
    "event_keys (store w') = event_keys (store w) \<union> new_key ` set (all_events result)" by blast
  have "reg_inv w'" by (rule reg_inv_settled [OF settled_pg_drift(6) assms(1) save(1)])
  moreover have "drift_tags (NewDriftRepository px) (NewMetadataRepository mc pl) now (t_id c # ids) w =
      drift_tags (NewDriftRepository px) (NewMetadataRepository mc pl) now ids w'"
  proof (cases "all_events result = []")
    case True
    then have "w' = w" using save(1) by (simp add: pg_SaveDriftEvents_def)
    with True run show ?thesis by (simp add: attempt_def HasDrift_events)
  next
    case False
    with run save(1) show ?thesis by (simp add: attempt_def HasDrift_events NewDriftRepository_def)
  qed
  ultimately show ?thesis using save D by blast
qed

definition keys_at :: "uuid \<Rightarrow> (string option, 't) db \<Rightarrow> (string \<times> string \<times> string \<times> string \<times> string) set" where
  "keys_at i d = {k \<in> event_keys d. fst k = i}"

lemma drift_tags_keys:
  fixes w :: "(string option, instant) world"
  assumes "reg_inv w" and "faults w = []" and "set ids \<subseteq> t_id ` set (tags (store w))" and "distinct ids"
    and "c \<in> set (tags (store w))"
    and "drift_tags (NewDriftRepository px) (NewMetadataRepository mc pl) now ids w = (r, w')"
  shows "\<exists>D. (if t_id c \<in> set ids then drifts (store w) (tag_hashes (\<lambda>h. h) w) c D else D = {}) \<and>
    keys_at (t_id c) (store w') = keys_at (t_id c) (store w) \<union> D"
  using assms
proof (induction ids arbitrary: w)
  case (Cons i ids)
  from Cons.prems(3) obtain b where b: "b \<in> set (tags (store w))" "i = t_id b" by auto
  obtain w1 D1 where round: "drift_tags (NewDriftRepository px) (NewMetadataRepository mc pl) now (i # ids) w =
      drift_tags (NewDriftRepository px) (NewMetadataRepository mc pl) now ids w1" "reg_inv w1" "faults w1 = []"
    "\<exists>new. store w1 = (store w)\<lparr>drift_events := drift_events (store w) @ new\<rparr>"
    "drifts (store w) (tag_hashes (\<lambda>h. h) w) b D1" "event_keys (store w1) = event_keys (store w) \<union> D1"
    using drift_round [OF Cons.prems(1,2) b(1), of px mc pl ids] b(2) by blast
  from round(4) have same: "tags (store w1) = tags (store w)" "tag_hashes (\<lambda>h. h) w1 = tag_hashes (\<lambda>h. h) w"
    by (auto simp: tag_hashes_def fun_eq_iff)
  have "drift_tags (NewDriftRepository px) (NewMetadataRepository mc pl) now ids w1 = (r, w')"
    by (rule trans [OF round(1) [symmetric] Cons.prems(6)])
  from Cons.IH [OF round(2,3) _ _ _ this] Cons.prems(3-5) same(1)
  obtain D2 where D2: "if t_id c \<in> set ids then drifts (store w1) (tag_hashes (\<lambda>h. h) w1) c D2 else D2 = {}"
    "keys_at (t_id c) (store w') = keys_at (t_id c) (store w1) \<union> D2" by auto
  have one: "keys_at (t_id c) (store w1) = keys_at (t_id c) (store w) \<union> (if b = c then D1 else {})"
  proof -
    have "t_id b = t_id c \<longleftrightarrow> b = c"
      using distinct_map_inj_on [of t_id "tags (store w)"] Cons.prems(1,5) b(1) by (auto simp: reg_inv_def registry_ok_def schema_ok_def)
    then show ?thesis using drifts_tag [OF round(5)] by (auto simp: keys_at_def round(6))
  qed
  show ?case
  proof (cases "b = c")
    case True
    then have "D2 = {}" using D2(1) Cons.prems(4) b(2) by simp
    with True one D2(2) round(5) b(2) show ?thesis by (intro exI [of _ D1]) simp
  next
    case False
    then have "t_id b \<noteq> t_id c" using distinct_map_inj_on [of t_id "tags (store w)"] Cons.prems(1,5) b(1)
      by (auto simp: reg_inv_def registry_ok_def schema_ok_def)
    with False one D2 b(2) drifts_cong [OF same(1)] same(2) show ?thesis by (intro exI [of _ D2]) (simp split: if_splits)
  qed
qed (simp add: exI [of _ "{}"])

section \<open>A run\<close>

lemma settled_parse_tags: "keeps (settled R S) (parse_tags (NewMetadataRepository mc pl) pl' ids done)"
proof (induction ids arbitrary: "done")
  case (Cons i ids)
  show ?case unfolding parse_tags.simps NewMetadataRepository_def MetadataRepository.select_convs
    by (intro hoare_rules settled_metadata Cons.IH [unfolded NewMetadataRepository_def])
qed (simp add: keeps_ret)

lemma settled_hash_tags: "keeps (settled R S) (hash_tags (NewDriftRepository px) ids)"
proof (induction ids)
  case (Cons i ids)
  then show ?case unfolding hash_tags.simps NewDriftRepository_def DriftRepository.select_convs
    by (intro hoare_rules settled_pg_drift)
qed (simp only: hash_tags.simps, rule keeps_ret)

text \<open>The second half of a run, from the tables the first half leaves.\<close>

lemma runDriftDetection_keys:
  fixes w :: "(string option, instant) world"
  assumes "reg_inv w" and "faults w = []" and "hashes_true (store w)"
    and "set ids \<subseteq> t_id ` set (tags (store w))" and "distinct ids" and "c \<in> set (tags (store w))" and "t_id c \<in> set ids"
    and "runDriftDetection (NewDriftRepository px) (NewMetadataRepository mc pl) now ids w = (r, w')"
  shows "\<exists>D. drifts (store w) (content_hashes (store w)) c D \<and> keys_at (t_id c) (store w') = keys_at (t_id c) (store w) \<union> D"
proof -
  let ?dr = "NewDriftRepository px" and ?mr = "NewMetadataRepository mc pl"
  let ?todo = "remdups (map p_tag_id (filter (\<lambda>p. p_content_hash p = None) (protofiles (store w))))"
  have todo: "GetTagsWithoutHashes ?dr w = (Inr ?todo, w)"
    using assms(2) by (simp add: NewDriftRepository_def pg_GetTagsWithoutHashes_def query_default_ok)
  have "distinct (map p_id (protofiles (store w)))" using assms(1) by (simp add: reg_inv_def registry_ok_def schema_ok_def)
  from hash_tags_answer [OF assms(2) this, of px ?todo] obtain w1 where hash: "hash_tags ?dr ?todo w = (Inr (), w1)" "faults w1 = []"
    and w1: "store w1 = (store w)\<lparr>protofiles := map (\<lambda>p. if p_tag_id p \<in> set ?todo \<and> p_content_hash p = None
      then p\<lparr>p_content_hash := Some (computeHash (p_content p))\<rparr> else p) (protofiles (store w))\<rparr>" by blast
  have "protofiles (store w1) = map (\<lambda>p. p\<lparr>p_content_hash := Some (computeHash (p_content p))\<rparr>) (protofiles (store w))"
    by (rule all_hashed [OF assms(3)]) (simp add: w1)
  then have hashes: "tag_hashes (\<lambda>h. h) w1 = content_hashes (store w)" by (intro ext) (simp add: tag_hashes_content)
  have inv: "reg_inv w1" by (rule reg_inv_settled [OF settled_hash_tags assms(1) hash(1)])
  have drift: "drift_tags ?dr ?mr now ids w1 = (r, w')"
    using assms(8) todo hash(1) by (simp add: runDriftDetection_def attempt_def bindE_def)
  have "\<exists>D. (if t_id c \<in> set ids then drifts (store w1) (tag_hashes (\<lambda>h. h) w1) c D else D = {}) \<and>
      keys_at (t_id c) (store w') = keys_at (t_id c) (store w1) \<union> D"
    by (rule drift_tags_keys [OF inv hash(2) _ assms(5) _ drift]) (use assms(4,6) in \<open>simp_all add: w1\<close>)
  moreover have "tags (store w1) = tags (store w)" "keys_at (t_id c) (store w1) = keys_at (t_id c) (store w)"
    by (simp_all add: w1 keys_at_def event_keys_def)
  ultimately show ?thesis using assms(7) drifts_cong [of "store w1" "store w"] by (simp add: hashes)
qed

lemma drifts_marked:
  assumes "tags d' = map (\<lambda>t. if P t then t\<lparr>t_is_processed := True\<rparr> else t) (tags d)"
    and "drifts d' hs (if P c then c\<lparr>t_is_processed := True\<rparr> else c) D"
  shows "drifts d hs c D"
proof -
  let ?m = "\<lambda>t. if P t then t\<lparr>t_is_processed := True\<rparr> else t"
  have same: "t_id (?m t) = t_id t" "t_module_id (?m t) = t_module_id t" "t_updated_at (?m t) = t_updated_at t" for t by simp_all
  have "{t \<in> set (tags d'). t_module_id t = t_module_id c \<and> t_updated_at t < t_updated_at c} =
      ?m ` {t \<in> set (tags d). t_module_id t = t_module_id c \<and> t_updated_at t < t_updated_at c}" using assms(1) by auto
  with assms(2) show ?thesis unfolding drifts_def Let_def same by (simp only: image_is_empty bex_simps ball_simps same)
qed

text \<open>A run that succeeds, from a database in order.\<close>

lemma run_reports_drift:
  assumes "reg_inv w" and "faults w = []" and "hashes_true (store w)"
    and "c \<in> set (tags (store w))" and "\<not> t_is_processed c"
    and "protoParsing_Run (NewMetadataRepository mc pl) (NewDriftRepository px) pl' now w = (Inr (), w')"
  shows "let earlier = {t \<in> set (tags (store w)). t_module_id t = t_module_id c \<and> t_updated_at t < t_updated_at c} in
    if earlier = {} then keys_at (t_id c) (store w') = keys_at (t_id c) (store w)
    else \<exists>p\<in>earlier. (\<forall>t\<in>earlier. t_updated_at t \<le> t_updated_at p) \<and>
      keys_at (t_id c) (store w') = keys_at (t_id c) (store w) \<union>
        drift_keys (t_id c) (content_hashes (store w) (t_id p)) (content_hashes (store w) (t_id c))"
proof -
  let ?mr = "NewMetadataRepository mc pl" and ?dr = "NewDriftRepository px"
  let ?ids = "map t_id (filter (\<lambda>t. \<not> t_is_processed t) (tags (store w)))"
  let ?m = "\<lambda>t. if t_id t \<in> set ?ids then t\<lparr>t_is_processed := True\<rparr> else t"
  have ids: "GetUnprocessedTagIds ?mr w = (Inr ?ids, w)"
    using assms(2) by (simp add: NewMetadataRepository_def pg_GetUnprocessedTagIds_def attempt_def)
  have c: "t_id c \<in> set ?ids" using assms(4,5) by auto
  from ids obtain ids' w1 where parse: "parse_tags ?mr pl' ?ids [] w = (Inr ids', w1)"
    and rest: "(if ids' \<noteq> [] then runDriftDetection ?dr ?mr now ids' else ret ()) w1 = (Inr (), w')"
    using assms(6) by (auto simp: protoParsing_Run_def bindE_Inr_iff)
  from parse_tags_done [OF assms(2) parse] have w1: "faults w1 = []" "ids' = ?ids" "tags (store w1) = map ?m (tags (store w))" by simp_all
  have "?ids \<noteq> []" using c by (metis length_pos_if_in_set list.size(3) less_numeral_extra(3))
  then have run: "runDriftDetection ?dr ?mr now ?ids w1 = (Inr (), w')" using rest unfolding w1(2) by (simp only: if_True not_False_eq_True)
  have same: "protofiles (store w1) = protofiles (store w) \<and> drift_events (store w1) = drift_events (store w)"
    using keepsD [OF keeps_parse_tags [of "\<lambda>d. protofiles d = protofiles (store w) \<and> drift_events d = drift_events (store w)" mc pl pl' ?ids "[]"], of w] parse
    by simp
  have inv: "reg_inv w1" by (rule reg_inv_settled [OF settled_parse_tags assms(1) parse])
  have "distinct (map t_id (tags (store w)))" using assms(1) by (simp add: reg_inv_def registry_ok_def schema_ok_def)
  then have dist: "distinct ?ids" by (rule distinct_map_filter)
  have "t_id ` set (tags (store w1)) = t_id ` set (tags (store w))" unfolding w1(3) set_map image_image by (rule image_cong) simp_all
  then have sub: "set ?ids \<subseteq> t_id ` set (tags (store w1))" by auto
  have mc: "?m c \<in> set (tags (store w1))" "t_id (?m c) \<in> set ?ids" using assms(4) c by (simp_all add: w1(3))
  have "hashes_true (store w1)" using assms(3) same by (simp add: hashes_true_def)
  from runDriftDetection_keys [OF inv w1(1) this sub dist mc run]
  obtain D where D: "drifts (store w1) (content_hashes (store w1)) (?m c) D" "keys_at (t_id (?m c)) (store w') = keys_at (t_id (?m c)) (store w1) \<union> D"
    by blast
  have hs: "content_hashes (store w1) = content_hashes (store w)" and keys: "keys_at i (store w1) = keys_at i (store w)" for i
    using same by (simp_all add: content_hashes_def tag_files_def fun_eq_iff keys_at_def event_keys_def)
  have id: "t_id (?m c) = t_id c" by simp
  from drifts_marked [OF w1(3) D(1)] D(2) have "drifts (store w) (content_hashes (store w)) c D"
    "keys_at (t_id c) (store w') = keys_at (t_id c) (store w) \<union> D" unfolding hs keys id by blast+
  then show ?thesis unfolding drifts_def Let_def by (auto split: if_splits)
qed



end
